(* ===== verification/Prelude.thy ===== *)
theory Prelude
  imports Main "HOL-Library.Word" "HOL-Library.Char_ord" "HOL-Library.List_Lexorder"
    "HOL-Library.Multiset" "HOL-Library.AList"
begin

text \<open>
  Shared vocabulary of the development: Go's 64-bit integers, the result type of a Go
  call (a value, an error or a panic) with its sequencing, and the list lemmas the
  components share. Strings are lists of bytes, as Go's are, and compare bytewise
  (\<open>Char_ord\<close> and \<open>List_Lexorder\<close>), as Go's \<open><\<close> on strings does.
\<close>

named_theorems run_simps \<open>how a primitive step of a call changes the world\<close>
named_theorems ret_inv \<open>what a successful return of a call says about its steps\<close>

type_synonym time = int  \<comment> \<open>an instant or a duration in nanoseconds\<close>

subsection \<open>64-bit integers\<close>

definition in64 :: "int \<Rightarrow> bool" where
  "in64 x \<longleftrightarrow> - (2 ^ 63) \<le> x \<and> x < 2 ^ 63"

definition wrap64 :: "int \<Rightarrow> int" where
  "wrap64 x = (x + 2 ^ 63) mod 2 ^ 64 - 2 ^ 63"

lemma wrap64_word: "wrap64 x = sint (word_of_int x :: 64 word)"
  by (simp add: wrap64_def sint_uint signed_take_bit_eq_take_bit_shift uint_word_of_int
      take_bit_eq_mod mod_add_left_eq)

lemma wrap64_in64 [simp]: "in64 (wrap64 x)"
proof -
  have "0 \<le> (x + 2 ^ 63) mod 2 ^ 64" and "(x + 2 ^ 63) mod 2 ^ 64 < (2 ^ 64 :: int)"
    by simp_all
  then show ?thesis by (auto simp: in64_def wrap64_def)
qed

lemma wrap64_id: "in64 x \<Longrightarrow> wrap64 x = x"
  by (simp add: in64_def wrap64_def)

lemma wrap64_add_left: "wrap64 (wrap64 a + b) = wrap64 (a + b)"
proof -
  have "((a + 2 ^ 63) mod 2 ^ 64 + b) mod (2 ^ 64) = (a + b + 2 ^ 63) mod (2 ^ 64 :: int)"
    by (simp add: mod_simps algebra_simps)
  then show ?thesis by (simp add: wrap64_def algebra_simps)
qed

text \<open>\<open>%d\<close> of \<open>fmt\<close>.\<close>

fun decimal_nat :: "nat \<Rightarrow> string" where
  "decimal_nat n = (if n < 10 then [char_of (48 + n)] else decimal_nat (n div 10) @ [char_of (48 + n mod 10)])"

declare decimal_nat.simps [simp del]

definition decimal :: "int \<Rightarrow> string" where
  "decimal i = (if i < 0 then CHR ''-'' # decimal_nat (nat (- i)) else decimal_nat (nat i))"

subsection \<open>The result of a Go call\<close>

datatype ('e, 'a) res = Ret 'a | Err 'e | Panic string

definition andThen ::
  "('w \<Rightarrow> ('e, 'a) res \<times> 'w) \<Rightarrow> ('a \<Rightarrow> 'w \<Rightarrow> ('e, 'b) res \<times> 'w) \<Rightarrow> 'w \<Rightarrow> ('e, 'b) res \<times> 'w" where
  "andThen m f w =
     (case m w of (Ret x, w') \<Rightarrow> f x w' | (Err e, w') \<Rightarrow> (Err e, w') | (Panic p, w') \<Rightarrow> (Panic p, w'))"

definition ret :: "'a \<Rightarrow> 'w \<Rightarrow> ('e, 'a) res \<times> 'w" where
  "ret x w = (Ret x, w)"

definition throw :: "'e \<Rightarrow> 'w \<Rightarrow> ('e, 'a) res \<times> 'w" where
  "throw e w = (Err e, w)"

definition mapErr ::
  "('e \<Rightarrow> 'e) \<Rightarrow> ('w \<Rightarrow> ('e, 'a) res \<times> 'w) \<Rightarrow> 'w \<Rightarrow> ('e, 'a) res \<times> 'w" where
  "mapErr g m w =
     (case m w of (Ret x, w') \<Rightarrow> (Ret x, w') | (Err e, w') \<Rightarrow> (Err (g e), w') | (Panic p, w') \<Rightarrow> (Panic p, w'))"

lemma andThen_Ret [ret_inv]:
  "andThen m f w = (Ret y, w') \<longleftrightarrow> (\<exists>x w1. m w = (Ret x, w1) \<and> f x w1 = (Ret y, w'))"
  by (auto simp: andThen_def split: prod.splits res.splits)

lemma mapErr_Ret [ret_inv]: "mapErr g m w = (Ret y, w') \<longleftrightarrow> m w = (Ret y, w')"
  by (auto simp: mapErr_def split: prod.splits res.splits)

lemma ret_Ret [ret_inv]: "ret x w = (Ret y, w') \<longleftrightarrow> y = x \<and> w' = w"
  by (auto simp: ret_def)

lemma throw_Ret [ret_inv]: "throw e w = (Ret y, w') \<longleftrightarrow> False"
  by (simp add: throw_def)

lemma andThen_cong [fundef_cong]:
  assumes "m w = m' w'" and "\<And>x v. m' w' = (Ret x, v) \<Longrightarrow> f x v = f' x v"
  shows "andThen m f w = andThen m' f' w'"
  using assms by (auto simp: andThen_def split: prod.splits res.splits)

subsection \<open>What every step of a call keeps\<close>

text \<open>
  A relation between the state before and after a call, whatever the call answers. A
  reflexive and transitive relation that every primitive step respects is respected by the
  calls built from them; components instantiate it with the tables they do not touch, the
  histories they only extend, the locks they do not take.
\<close>

definition stays :: "('s \<Rightarrow> 's \<Rightarrow> bool) \<Rightarrow> ('s \<Rightarrow> ('e, 'a) res \<times> 's) \<Rightarrow> bool" where
  "stays R m \<longleftrightarrow> (\<forall>s. R s (snd (m s)))"

lemma staysD: "stays R m \<Longrightarrow> m s = (r, s') \<Longrightarrow> R s s'"
  unfolding stays_def by (metis snd_conv)

locale step_rel =
  fixes R :: "'s \<Rightarrow> 's \<Rightarrow> bool"
  assumes R_refl: "R s s" and R_trans: "R a b \<Longrightarrow> R b c \<Longrightarrow> R a c"
begin

lemma stays_ret: "stays R (ret x)" and stays_throw: "stays R (throw e)"
  by (simp_all add: stays_def ret_def throw_def R_refl)

lemma stays_mapErr: "stays R m \<Longrightarrow> stays R (mapErr g m)"
  by (auto simp: stays_def mapErr_def split: prod.splits res.splits) (metis snd_conv)+

lemma stays_andThen:
  assumes m: "stays R m" and f: "\<And>x. stays R (f x)"
  shows "stays R (andThen m f)"
  unfolding stays_def
proof
  fix s
  obtain r s1 where e: "m s = (r, s1)" by fastforce
  have 1: "R s s1" using staysD[OF m e] .
  show "R s (snd (andThen m f s))"
  proof (cases r)
    case (Ret x)
    have "R s1 (snd (f x s1))" using f by (simp add: stays_def)
    with 1 e Ret show ?thesis by (simp add: andThen_def) (rule R_trans)
  qed (simp_all add: andThen_def e 1)
qed

lemma stays_if: "stays R m \<Longrightarrow> stays R m' \<Longrightarrow> stays R (if b then m else m')"
  by simp

lemmas stays_rules = stays_ret stays_throw stays_mapErr stays_andThen stays_if

end

end
