(* ===== verification/Apperr.thy ===== *)
theory Apperr
  imports Prelude
begin

text \<open>
  Go error values and the package \<open>internal/apperr\<close>: the stable codes of the HTTP API,
  the HTTP status each of them maps to, and the coercion of an arbitrary error. A Go
  error is a chain: \<open>Wrap\<close> is \<open>fmt.Errorf\<close> with \<open>%w\<close>, an application error may carry a
  cause, \<open>PgError\<close> is the driver's server error (SQLSTATE, constraint name, text), and
  \<open>errors.As\<close> walks the chain from the outside in. A formatted message is kept as the
  format string with its arguments (\<open>Sprintf\<close>), so that nothing is lost by rendering.
\<close>

datatype arg = AStr string | AInt int

datatype message = Sprintf string "arg list"

datatype Code =
    CodeInvalidRequest | CodeUnknownAccount | CodeCurrencyMismatch | CodeInsufficientFunds
  | CodeIdempotencyConflict | CodeIdempotencyInProgress | CodeTransactionAlreadyReversed
  | CodeTransactionNotFound | CodeAccountExists | CodeRateLimited
  | CodeDependencyUnavailable | CodeInternal

datatype goerr =
    AppError Code message "(string \<times> arg) list" "goerr option"
  | PgError string string string  \<comment> \<open>SQLSTATE, constraint name, text of the error\<close>
  | ErrNoRows
  | ErrNotFound
  | ErrInjected
  | ErrOther string
  | Wrap message goerr

type_synonym 'a result = "(goerr, 'a) res"

fun code_string :: "Code \<Rightarrow> string" where
  "code_string CodeInvalidRequest = ''invalid_request''"
| "code_string CodeUnknownAccount = ''unknown_account''"
| "code_string CodeCurrencyMismatch = ''currency_mismatch''"
| "code_string CodeInsufficientFunds = ''insufficient_funds''"
| "code_string CodeIdempotencyConflict = ''idempotency_conflict''"
| "code_string CodeIdempotencyInProgress = ''idempotency_in_progress''"
| "code_string CodeTransactionAlreadyReversed = ''transaction_already_reversed''"
| "code_string CodeTransactionNotFound = ''transaction_not_found''"
| "code_string CodeAccountExists = ''account_exists''"
| "code_string CodeRateLimited = ''rate_limited''"
| "code_string CodeDependencyUnavailable = ''dependency_unavailable''"
| "code_string CodeInternal = ''internal_error''"

subsection \<open>Building errors\<close>

definition New :: "Code \<Rightarrow> string \<Rightarrow> arg list \<Rightarrow> goerr" where
  "New code format args = AppError code (Sprintf format args) [] None"

fun WithCause :: "goerr \<Rightarrow> goerr \<Rightarrow> goerr" where
  "WithCause (AppError c m ds _) err = AppError c m ds (Some err)"
| "WithCause e err = e"

fun WithDetail :: "goerr \<Rightarrow> string \<Rightarrow> arg \<Rightarrow> goerr" where
  "WithDetail (AppError c m ds cause) key value = AppError c m (AList.update key value ds) cause"
| "WithDetail e key value = e"

definition InvalidRequest :: "string \<Rightarrow> arg list \<Rightarrow> goerr" where
  "InvalidRequest format args = New CodeInvalidRequest format args"

definition UnknownAccount :: "string \<Rightarrow> goerr" where
  "UnknownAccount i =
     WithDetail (New CodeUnknownAccount ''account %q does not exist'' [AStr i]) ''account_id'' (AStr i)"

definition CurrencyMismatch :: "string \<Rightarrow> arg list \<Rightarrow> goerr" where
  "CurrencyMismatch format args = New CodeCurrencyMismatch format args"

definition InsufficientFunds :: "string \<Rightarrow> goerr" where
  "InsufficientFunds accountID =
     WithDetail (New CodeInsufficientFunds ''account %q has insufficient funds'' [AStr accountID])
       ''account_id'' (AStr accountID)"

definition DependencyUnavailable :: "string \<Rightarrow> goerr \<Rightarrow> goerr" where
  "DependencyUnavailable dep cause =
     WithCause (WithDetail (New CodeDependencyUnavailable ''dependency %q is unavailable'' [AStr dep])
       ''dependency'' (AStr dep)) cause"

definition Internal :: "goerr \<Rightarrow> goerr" where
  "Internal cause = WithCause (New CodeInternal ''internal error'' []) cause"

subsection \<open>Inspecting errors\<close>

fun as_app :: "goerr \<Rightarrow> goerr option" where
  "as_app (AppError c m ds cause) = Some (AppError c m ds cause)"
| "as_app (Wrap m e) = as_app e"
| "as_app e = None"

fun as_pg :: "goerr \<Rightarrow> (string \<times> string) option" where
  "as_pg (PgError state constraint txt) = Some (state, constraint)"
| "as_pg (Wrap m e) = as_pg e"
| "as_pg (AppError c m ds (Some e)) = as_pg e"
| "as_pg e = None"

text \<open>\<open>errors.Is\<close> against a sentinel error.\<close>

fun errIs :: "goerr \<Rightarrow> goerr \<Rightarrow> bool" where
  "errIs (Wrap m e) target = (Wrap m e = target \<or> errIs e target)"
| "errIs (AppError c m ds (Some e)) target = (AppError c m ds (Some e) = target \<or> errIs e target)"
| "errIs e target = (e = target)"

definition From :: "goerr \<Rightarrow> goerr" where
  "From err =
     (case as_app err of Some e \<Rightarrow> e
      | None \<Rightarrow> WithCause (AppError CodeInternal (Sprintf ''internal error'' []) [] None) err)"

fun err_code :: "goerr \<Rightarrow> Code" where
  "err_code (AppError c m ds cause) = c"
| "err_code e = CodeInternal"

definition Is :: "goerr \<Rightarrow> Code \<Rightarrow> bool" where
  "Is err code = (case as_app err of Some e \<Rightarrow> err_code e = code | None \<Rightarrow> False)"

fun HTTPStatus :: "Code \<Rightarrow> int" where
  "HTTPStatus CodeInvalidRequest = 400"
| "HTTPStatus CodeCurrencyMismatch = 400"
| "HTTPStatus CodeUnknownAccount = 404"
| "HTTPStatus CodeTransactionNotFound = 404"
| "HTTPStatus CodeInsufficientFunds = 422"
| "HTTPStatus CodeIdempotencyConflict = 409"
| "HTTPStatus CodeTransactionAlreadyReversed = 409"
| "HTTPStatus CodeAccountExists = 409"
| "HTTPStatus CodeIdempotencyInProgress = 409"
| "HTTPStatus CodeRateLimited = 429"
| "HTTPStatus CodeDependencyUnavailable = 503"
| "HTTPStatus CodeInternal = 500"

lemmas apperr_defs = New_def InvalidRequest_def UnknownAccount_def CurrencyMismatch_def
  InsufficientFunds_def DependencyUnavailable_def Internal_def

lemma as_app_AppError: "as_app e = Some e' \<Longrightarrow> \<exists>c m ds cause. e' = AppError c m ds cause"
  by (induction e rule: as_app.induct) auto

lemma From_is_app: "\<exists>m ds cause. From err = AppError (err_code (From err)) m ds cause"
proof (cases "as_app err")
  case (Some e)
  then show ?thesis using as_app_AppError[OF Some] by (auto simp: From_def)
qed (simp add: From_def)

lemma Is_From: "Is err c \<Longrightarrow> err_code (From err) = c"
  by (simp add: Is_def From_def split: option.splits)

lemma From_no_app: "as_app err = None \<Longrightarrow> err_code (From err) = CodeInternal"
  by (simp add: From_def)

lemma code_string_inject: "code_string c = code_string c' \<Longrightarrow> c = c'"
  by (cases c; cases c') simp_all

end
