(* ===== verification/Failpoint.thy ===== *)
theory Failpoint
  imports Apperr
begin

text \<open>
  \<open>internal/failpoint\<close>: the registry of armed failpoints, its evaluation with counted
  actions, and the per-request overrides carried on the context. The registry is a
  pointer in Go (\<open>None\<close> is nil); its \<open>actions\<close> map is an association list with distinct
  keys. A sleep changes nothing but time and returns normally.
\<close>

definition BeforeTxBegin :: string where "BeforeTxBegin = ''before_tx_begin''"
definition AfterAccountsLocked :: string where "AfterAccountsLocked = ''after_accounts_locked''"
definition AfterEntriesWritten :: string where "AfterEntriesWritten = ''after_entries_written''"
definition AfterBalancesUpdated :: string where "AfterBalancesUpdated = ''after_balances_updated''"
definition AfterOutboxWritten :: string where "AfterOutboxWritten = ''after_outbox_written''"
definition BeforeCommit :: string where "BeforeCommit = ''before_commit''"
definition AfterCommit :: string where "AfterCommit = ''after_commit''"
definition BeforeKafkaPublish :: string where "BeforeKafkaPublish = ''before_kafka_publish''"
definition AfterKafkaPublish :: string where "AfterKafkaPublish = ''after_kafka_publish''"
definition BeforeWebhookPersist :: string where "BeforeWebhookPersist = ''before_webhook_persist''"
definition BeforeWebhookSend :: string where "BeforeWebhookSend = ''before_webhook_send''"

lemmas failpoint_names = BeforeTxBegin_def AfterAccountsLocked_def AfterEntriesWritten_def
  AfterBalancesUpdated_def AfterOutboxWritten_def BeforeCommit_def AfterCommit_def
  BeforeKafkaPublish_def AfterKafkaPublish_def BeforeWebhookPersist_def BeforeWebhookSend_def

definition All :: "string list" where
  "All = [BeforeTxBegin, AfterAccountsLocked, AfterEntriesWritten, AfterBalancesUpdated,
     AfterOutboxWritten, BeforeCommit, AfterCommit, BeforeKafkaPublish,
     AfterKafkaPublish, BeforeWebhookPersist, BeforeWebhookSend]"

record action =
  act_kind :: string
  act_duration :: time
  act_remaining :: int

record registry =
  reg_enabled :: bool
  reg_actions :: "(string \<times> action) list"

type_synonym overrides = "(string \<times> action) list option"

definition NewRegistry :: "bool \<Rightarrow> registry option" where
  "NewRegistry enabled = Some \<lparr>reg_enabled = enabled, reg_actions = []\<rparr>"

definition Enabled :: "registry option \<Rightarrow> bool" where
  "Enabled r = (case r of None \<Rightarrow> False | Some reg \<Rightarrow> reg_enabled reg)"

definition isKnown :: "string \<Rightarrow> bool" where
  "isKnown name = List.member All name"

definition Disarm :: "registry option \<Rightarrow> string \<Rightarrow> registry option" where
  "Disarm r name = map_option (\<lambda>reg. reg\<lparr>reg_actions := AList.delete name (reg_actions reg)\<rparr>) r"

definition Reset :: "registry option \<Rightarrow> registry option" where
  "Reset r = map_option (\<lambda>reg. reg\<lparr>reg_actions := []\<rparr>) r"

definition fromContext :: "overrides \<Rightarrow> string \<Rightarrow> action option" where
  "fromContext ov name = (case ov of None \<Rightarrow> None | Some m \<Rightarrow> map_of m name)"

definition apply_action :: "string \<Rightarrow> action \<Rightarrow> unit result" where
  "apply_action name act =
     (if act_kind act = ''error'' then Err (Wrap (Sprintf ''%w at %s'' [AStr name]) ErrInjected)
      else if act_kind act = ''panic'' then Panic (''failpoint: injected panic at '' @ name)
      else Ret ())"

definition Eval :: "registry option \<Rightarrow> overrides \<Rightarrow> string \<Rightarrow> unit result \<times> registry option" where
  "Eval r ov name =
     (case r of
        None \<Rightarrow> (Ret (), r)
      | Some reg \<Rightarrow>
          if \<not> reg_enabled reg then (Ret (), r)
          else case fromContext ov name of
            Some act \<Rightarrow> (apply_action name act, r)
          | None \<Rightarrow>
              (case map_of (reg_actions reg) name of
                 None \<Rightarrow> (Ret (), r)
               | Some act \<Rightarrow>
                   if act_remaining act > 0 then
                     let act' = act\<lparr>act_remaining := act_remaining act - 1\<rparr>;
                         acts = (if act_remaining act' = 0 then AList.delete name (reg_actions reg)
                                 else AList.update name act' (reg_actions reg))
                     in (apply_action name act', Some (reg\<lparr>reg_actions := acts\<rparr>))
                   else if act_remaining act = 0 then
                     (Ret (), Some (reg\<lparr>reg_actions := AList.delete name (reg_actions reg)\<rparr>))
                   else (apply_action name act, r)))"

fun eval_n :: "nat \<Rightarrow> registry option \<Rightarrow> string \<Rightarrow> unit result list" where
  "eval_n 0 r name = []"
| "eval_n (Suc n) r name = (let (x, r') = Eval r None name in x # eval_n n r' name)"

subsection \<open>Facts about evaluation\<close>

lemma Eval_disabled: "\<not> Enabled r \<Longrightarrow> Eval r ov name = (Ret (), r)"
  by (auto simp: Eval_def Enabled_def split: option.splits)

lemma Eval_override:
  "Enabled r \<Longrightarrow> fromContext ov name = Some act \<Longrightarrow> Eval r ov name = (apply_action name act, r)"
  by (auto simp: Eval_def Enabled_def split: option.splits)

lemma Eval_unarmed:
  assumes "Enabled (Some reg)" and "map_of (reg_actions reg) name = None"
  shows "Eval (Some reg) None name = (Ret (), Some reg)"
  using assms by (simp add: Eval_def Enabled_def fromContext_def)

lemma Eval_enabled_kept: "Enabled (snd (Eval r ov name)) = Enabled r"
  by (auto simp: Eval_def Enabled_def Let_def split: option.splits)

lemma Eval_other_kept:
  assumes "other \<noteq> name"
  shows "map_option (\<lambda>reg. map_of (reg_actions reg) other) (snd (Eval r ov name))
       = map_option (\<lambda>reg. map_of (reg_actions reg) other) r"
  using assms by (auto simp: Eval_def Let_def delete_conv' update_conv' split: option.splits)

lemma Eval_err:
  "fst (Eval r ov name) = Err e \<Longrightarrow> e = Wrap (Sprintf ''%w at %s'' [AStr name]) ErrInjected"
  by (auto simp: Eval_def apply_action_def Let_def split: option.splits if_splits)

lemma eval_n_unarmed:
  assumes "Enabled (Some reg)" and "map_of (reg_actions reg) name = None"
  shows "eval_n n (Some reg) name = replicate n (Ret ())"
  by (induction n) (simp_all add: Eval_unarmed[OF assms])

lemma eval_n_counted:
  assumes "reg_enabled reg" and "map_of (reg_actions reg) name = Some act"
    and "act_kind act = ''error''" and "act_remaining act = int k"
  shows "eval_n (k + n) (Some reg) name
       = replicate k (Err (Wrap (Sprintf ''%w at %s'' [AStr name]) ErrInjected)) @ replicate n (Ret ())"
  using assms
proof (induction k arbitrary: reg act)
  case 0
  let ?reg = "reg\<lparr>reg_actions := AList.delete name (reg_actions reg)\<rparr>"
  have un: "Enabled (Some ?reg)" "map_of (reg_actions ?reg) name = None"
    using 0 by (simp_all add: Enabled_def delete_conv')
  show ?case
  proof (cases n)
    case (Suc m)
    with 0 eval_n_unarmed[OF un] show ?thesis
      by (simp add: Eval_def fromContext_def)
  qed simp
next
  case (Suc k)
  let ?act = "act\<lparr>act_remaining := int k\<rparr>"
  show ?case
  proof (cases "k = 0")
    case True
    let ?reg = "reg\<lparr>reg_actions := AList.delete name (reg_actions reg)\<rparr>"
    have un: "Enabled (Some ?reg)" "map_of (reg_actions ?reg) name = None"
      using Suc.prems by (simp_all add: Enabled_def delete_conv')
    show ?thesis
      using True Suc.prems eval_n_unarmed[OF un, of n]
      by (simp add: Eval_def fromContext_def apply_action_def Let_def)
  next
    case False
    let ?reg = "reg\<lparr>reg_actions := AList.update name ?act (reg_actions reg)\<rparr>"
    have "eval_n (k + n) (Some ?reg) name
        = replicate k (Err (Wrap (Sprintf ''%w at %s'' [AStr name]) ErrInjected)) @ replicate n (Ret ())"
      by (rule Suc.IH[of _ ?act]) (use Suc.prems in \<open>simp_all add: update_conv'\<close>)
    then show ?thesis
      using False Suc.prems
      by (simp add: Eval_def fromContext_def apply_action_def Let_def)
  qed
qed

end
