(* ===== verification/Schema.thy ===== *)
theory Schema
  imports Apperr
begin

text \<open>
  The PostgreSQL schema of \<open>migrations/0001_init.up.sql\<close>: one record per row type, the
  database as a record of tables (lists of rows in insertion order), and for every INSERT
  or UPDATE the SQL of the program performs on a table, the constraint checks the schema
  declares for it, in the order PostgreSQL evaluates them: column input, CHECK
  constraints, unique indexes, foreign keys. A violated constraint is a \<open>PgError\<close> with
  its SQLSTATE and constraint name. BIGINT arithmetic that leaves the 64-bit range is
  SQLSTATE 22003. The input function of the UUID type and the normalisation of JSONB
  documents belong to PostgreSQL and are parameters.
\<close>

text \<open>
  A JSON document: object members keep their order, \<open>JTime\<close> is the string
  \<open>time.Time\<close> marshals to. Bytes that are not a JSON document have no value here.
\<close>

datatype json =
    JNull | JBool bool | JNum int | JStr string | JTime time
  | JArr "json list" | JObj "(string \<times> json) list"

record Account =
  a_id :: string
  a_currency :: string
  a_kind :: string
  a_allow_overdraft :: bool
  a_metadata :: json
  a_created_at :: time

record balance_row =
  b_account_id :: string
  b_amount :: int
  b_allow_overdraft :: bool
  b_version :: int
  b_updated_at :: time

record tx_row =
  t_id :: string
  t_kind :: string
  t_currency :: string
  t_description :: string
  t_external_reference :: "string option"
  t_reverses :: "string option"
  t_created_at :: time

record Entry =
  e_id :: string
  e_transaction_id :: string
  e_account_id :: string
  e_amount :: int
  e_currency :: string
  e_seq :: int
  e_created_at :: time

record reversal_row =
  r_id :: string
  r_original :: string
  r_reversal :: string
  r_reason :: string
  r_created_at :: time

record idem_row =
  i_scope :: string
  i_key :: string
  i_request_hash :: string
  i_state :: string
  i_response_status :: "int option"
  i_response_body :: "json option"
  i_transaction_id :: "string option"
  i_created_at :: time
  i_updated_at :: time

record outbox_row =
  o_id :: string
  o_topic :: string
  o_event_type :: string
  o_aggregate_id :: string
  o_partition_key :: string
  o_payload :: json
  o_headers :: "(string \<times> string) list"
  o_status :: string
  o_attempts :: int
  o_last_error :: "string option"
  o_claimed_by :: "string option"
  o_claimed_at :: "time option"
  o_next_attempt_at :: time
  o_published_at :: "time option"
  o_created_at :: time

record webhook_row =
  wh_id :: string
  wh_event_id :: string
  wh_endpoint :: string
  wh_event_type :: string
  wh_transaction_id :: string
  wh_payload :: json
  wh_status :: string
  wh_attempts :: int
  wh_last_error :: "string option"
  wh_last_status_code :: "int option"
  wh_next_attempt_at :: time
  wh_delivered_at :: "time option"
  wh_created_at :: time
  wh_updated_at :: time

record database =
  accounts :: "Account list"
  balances :: "balance_row list"
  ledger_transactions :: "tx_row list"
  ledger_entries :: "Entry list"
  reversals :: "reversal_row list"
  idempotency_records :: "idem_row list"
  outbox_events :: "outbox_row list"
  webhook_deliveries :: "webhook_row list"

definition empty_database :: database where
  "empty_database = \<lparr>accounts = [], balances = [], ledger_transactions = [], ledger_entries = [],
     reversals = [], idempotency_records = [], outbox_events = [], webhook_deliveries = []\<rparr>"

subsection \<open>Errors of the server\<close>

definition unique_violation :: "string \<Rightarrow> goerr" where
  "unique_violation constraint = PgError ''23505'' constraint ''duplicate key value violates unique constraint''"

definition check_violation :: "string \<Rightarrow> goerr" where
  "check_violation constraint = PgError ''23514'' constraint ''new row violates check constraint''"

definition fk_violation :: "string \<Rightarrow> goerr" where
  "fk_violation constraint = PgError ''23503'' constraint ''violates foreign key constraint''"

definition out_of_range :: goerr where
  "out_of_range = PgError ''22003'' [] ''bigint out of range''"

definition int_out_of_range :: goerr where
  "int_out_of_range = PgError ''22003'' [] ''integer out of range''"

definition uuid_syntax :: goerr where
  "uuid_syntax = PgError ''22P02'' [] ''invalid input syntax for type uuid''"

definition cardinality_violation :: goerr where
  "cardinality_violation = PgError ''21000'' [] ''more than one row returned by a subquery used as an expression''"

lemmas pg_error_defs = unique_violation_def check_violation_def fk_violation_def
  out_of_range_def int_out_of_range_def uuid_syntax_def cardinality_violation_def

text \<open>The first constraint of a list that does not hold, if any.\<close>

fun first_violation :: "(bool \<times> goerr) list \<Rightarrow> goerr option" where
  "first_violation [] = None"
| "first_violation ((ok, e) # cs) = (if ok then first_violation cs else Some e)"

lemma first_violation_None [simp]:
  "first_violation cs = None \<longleftrightarrow> (\<forall>c \<in> set cs. fst c)"
  by (induction cs rule: first_violation.induct) auto

text \<open>A write that happens when every constraint holds.\<close>

definition checked :: "(bool \<times> goerr) list \<Rightarrow> 'a \<Rightarrow> goerr + 'a" where
  "checked cs x = (case first_violation cs of Some e \<Rightarrow> Inl e | None \<Rightarrow> Inr x)"

lemma checked_Inr: "checked cs x = Inr y \<longleftrightarrow> (\<forall>c \<in> set cs. fst c) \<and> y = x"
  by (cases "first_violation cs")
    (auto simp: checked_def first_violation_None[symmetric] simp del: first_violation_None)

text \<open>\<open>^[A-Z]{3}$\<close>, in the CHECK constraints of the schema and in Go.\<close>

definition is_upper :: "char \<Rightarrow> bool" where
  "is_upper c \<longleftrightarrow> CHR ''A'' \<le> c \<and> c \<le> CHR ''Z''"

definition currencyRe :: "string \<Rightarrow> bool" where
  "currencyRe s \<longleftrightarrow> length s = 3 \<and> list_all is_upper s"

subsection \<open>Rows by key\<close>

definition account_of :: "database \<Rightarrow> string \<Rightarrow> Account option" where
  "account_of d i = find (\<lambda>a. a_id a = i) (accounts d)"

definition balance_of :: "database \<Rightarrow> string \<Rightarrow> balance_row option" where
  "balance_of d i = find (\<lambda>b. b_account_id b = i) (balances d)"

definition tx_of :: "database \<Rightarrow> string \<Rightarrow> tx_row option" where
  "tx_of d i = find (\<lambda>t. t_id t = i) (ledger_transactions d)"

definition entries_of :: "database \<Rightarrow> string \<Rightarrow> Entry list" where
  "entries_of d i = filter (\<lambda>e. e_transaction_id e = i) (ledger_entries d)"

definition account_entries :: "database \<Rightarrow> string \<Rightarrow> Entry list" where
  "account_entries d i = filter (\<lambda>e. e_account_id e = i) (ledger_entries d)"

definition idem_of :: "database \<Rightarrow> string \<Rightarrow> string \<Rightarrow> idem_row option" where
  "idem_of d scope key = find (\<lambda>r. i_scope r = scope \<and> i_key r = key) (idempotency_records d)"

subsection \<open>Table constraints\<close>

definition accounts_constraints :: "database \<Rightarrow> Account \<Rightarrow> (bool \<times> goerr) list" where
  "accounts_constraints d a =
     [(currencyRe (a_currency a), check_violation ''accounts_currency_check''),
      (a_kind a = ''user'' \<or> a_kind a = ''system'', check_violation ''accounts_kind_check''),
      (list_all (\<lambda>a'. a_id a' \<noteq> a_id a) (accounts d), unique_violation ''accounts_pkey'')]"

definition balances_check :: "balance_row \<Rightarrow> bool" where
  "balances_check b \<longleftrightarrow> b_allow_overdraft b \<or> 0 \<le> b_amount b"

definition balances_constraints :: "database \<Rightarrow> balance_row \<Rightarrow> (bool \<times> goerr) list" where
  "balances_constraints d b =
     [(balances_check b, check_violation ''balances_non_negative''),
      (list_all (\<lambda>b'. b_account_id b' \<noteq> b_account_id b) (balances d), unique_violation ''balances_pkey''),
      (list_ex (\<lambda>a. a_id a = b_account_id b) (accounts d), fk_violation ''balances_account_id_fkey'')]"

definition tx_constraints :: "database \<Rightarrow> tx_row \<Rightarrow> (bool \<times> goerr) list" where
  "tx_constraints d t =
     [(currencyRe (t_currency t), check_violation ''ledger_transactions_currency_check''),
      (t_kind t = ''transfer'' \<or> t_kind t = ''funding'' \<or> t_kind t = ''reversal'',
         check_violation ''ledger_transactions_kind_check''),
      ((t_kind t = ''reversal'') = (t_reverses t \<noteq> None), check_violation ''reversal_points_at_original''),
      (list_all (\<lambda>t'. t_id t' \<noteq> t_id t) (ledger_transactions d), unique_violation ''ledger_transactions_pkey''),
      (t_reverses t = None \<or> list_all (\<lambda>t'. t_reverses t' \<noteq> t_reverses t) (ledger_transactions d),
         unique_violation ''ledger_transactions_one_reversal''),
      (t_reverses t = None \<or> list_ex (\<lambda>t'. Some (t_id t') = t_reverses t) (ledger_transactions d),
         fk_violation ''ledger_transactions_reverses_transaction_id_fkey'')]"

definition entry_constraints :: "database \<Rightarrow> Entry \<Rightarrow> (bool \<times> goerr) list" where
  "entry_constraints d e =
     [(e_amount e \<noteq> 0, check_violation ''ledger_entries_amount_check''),
      (0 \<le> e_seq e, check_violation ''ledger_entries_seq_check''),
      (list_all (\<lambda>e'. e_id e' \<noteq> e_id e) (ledger_entries d), unique_violation ''ledger_entries_pkey''),
      (list_all (\<lambda>e'. \<not> (e_transaction_id e' = e_transaction_id e \<and> e_seq e' = e_seq e)) (ledger_entries d),
         unique_violation ''ledger_entries_tx_seq_key''),
      (list_ex (\<lambda>t. t_id t = e_transaction_id e) (ledger_transactions d),
         fk_violation ''ledger_entries_transaction_id_fkey''),
      (list_ex (\<lambda>a. a_id a = e_account_id e) (accounts d), fk_violation ''ledger_entries_account_id_fkey''),
      (list_ex (\<lambda>t. t_id t = e_transaction_id e \<and> t_currency t = e_currency e) (ledger_transactions d),
         fk_violation ''ledger_entries_tx_currency_fk''),
      (list_ex (\<lambda>a. a_id a = e_account_id e \<and> a_currency a = e_currency e) (accounts d),
         fk_violation ''ledger_entries_account_currency_fk'')]"

definition reversal_constraints :: "database \<Rightarrow> reversal_row \<Rightarrow> (bool \<times> goerr) list" where
  "reversal_constraints d r =
     [(r_original r \<noteq> r_reversal r, check_violation ''reversal_is_not_self''),
      (list_all (\<lambda>r'. r_id r' \<noteq> r_id r) (reversals d), unique_violation ''reversals_pkey''),
      (list_all (\<lambda>r'. r_original r' \<noteq> r_original r) (reversals d),
         unique_violation ''reversals_original_transaction_id_key''),
      (list_all (\<lambda>r'. r_reversal r' \<noteq> r_reversal r) (reversals d),
         unique_violation ''reversals_reversal_transaction_id_key''),
      (list_ex (\<lambda>t. t_id t = r_original r) (ledger_transactions d),
         fk_violation ''reversals_original_transaction_id_fkey''),
      (list_ex (\<lambda>t. t_id t = r_reversal r) (ledger_transactions d),
         fk_violation ''reversals_reversal_transaction_id_fkey'')]"

definition idem_check :: "idem_row \<Rightarrow> bool" where
  "idem_check r \<longleftrightarrow>
     i_state r \<noteq> ''completed'' \<or> (i_response_status r \<noteq> None \<and> i_response_body r \<noteq> None)"

definition outbox_check :: "outbox_row \<Rightarrow> (bool \<times> goerr) list" where
  "outbox_check o' =
     [(0 \<le> o_attempts o', check_violation ''outbox_events_attempts_check''),
      (List.member [''pending'', ''publishing'', ''published'', ''dead_letter''] (o_status o'),
         check_violation ''outbox_events_status_check''),
      ((o_status o' = ''published'') = (o_published_at o' \<noteq> None), check_violation ''published_has_timestamp'')]"

definition webhook_check :: "webhook_row \<Rightarrow> (bool \<times> goerr) list" where
  "webhook_check r =
     [(0 \<le> wh_attempts r, check_violation ''webhook_deliveries_attempts_check''),
      (List.member [''pending'', ''delivered'', ''dead_letter''] (wh_status r),
         check_violation ''webhook_deliveries_status_check'')]"

text \<open>
  The deferred constraint trigger \<open>ledger_entries_balanced\<close>: at COMMIT it runs
  \<open>assert_transaction_balanced\<close> once for every entry the transaction inserted. The sum is
  computed as NUMERIC and assigned to a BIGINT variable.
\<close>

definition assert_transaction_balanced :: "database \<Rightarrow> string \<Rightarrow> goerr option" where
  "assert_transaction_balanced d txid =
     (let entry_sum = sum_list (map e_amount (entries_of d txid)); entry_count = length (entries_of d txid)
      in first_violation
        [(in64 entry_sum, out_of_range), (\<not> entry_count < 2, check_violation []),
         (\<not> entry_sum \<noteq> 0, check_violation [])])"

fun first_error :: "('a \<Rightarrow> goerr option) \<Rightarrow> 'a list \<Rightarrow> goerr option" where
  "first_error f [] = None"
| "first_error f (x # xs) = (case f x of None \<Rightarrow> first_error f xs | Some e \<Rightarrow> Some e)"

definition deferred_triggers :: "database \<Rightarrow> database \<Rightarrow> goerr option" where
  "deferred_triggers old new =
     first_error (\<lambda>e. assert_transaction_balanced new (e_transaction_id e))
       (drop (length (ledger_entries old)) (ledger_entries new))"

lemma first_error_None [simp]: "first_error f xs = None \<longleftrightarrow> (\<forall>x \<in> set xs. f x = None)"
  by (induction xs) (auto split: option.splits)

subsection \<open>Facts about rows by key\<close>

lemma find_Some_mem: "find P xs = Some x \<Longrightarrow> x \<in> set xs \<and> P x"
  by (auto simp: find_Some_iff)

lemma find_append: "find P (xs @ ys) = (case find P xs of None \<Rightarrow> find P ys | Some x \<Rightarrow> Some x)"
  by (induction xs) auto

lemma find_map_upd:
  assumes "\<And>x. P (f x) = P x"
  shows "find P (map f xs) = map_option f (find P xs)"
  using assms by (induction xs) auto

lemma account_of_id: "account_of d i = Some a \<Longrightarrow> a \<in> set (accounts d) \<and> a_id a = i"
  unfolding account_of_def by (rule find_Some_mem)

lemma balance_of_id: "balance_of d i = Some b \<Longrightarrow> b \<in> set (balances d) \<and> b_account_id b = i"
  unfolding balance_of_def by (rule find_Some_mem)

lemma tx_of_id: "tx_of d i = Some t \<Longrightarrow> t \<in> set (ledger_transactions d) \<and> t_id t = i"
  unfolding tx_of_def by (rule find_Some_mem)

lemma idem_of_id:
  "idem_of d s k = Some r \<Longrightarrow> r \<in> set (idempotency_records d) \<and> i_scope r = s \<and> i_key r = k"
  unfolding idem_of_def by (rule find_Some_mem)

end
