(* ===== verification/Storage.thy ===== *)
theory Storage
  imports Failpoint Schema
begin

text \<open>
  \<open>internal/storage/postgres.go\<close>: transactions with retries. The world of a Go call is
  the database as its session sees it, the failpoint registry of the process, the locks
  the open transaction holds, and a counter of its interactions with the outside. What
  the outside answers is the environment: at the \<open>n\<close>-th interaction a statement, a BEGIN
  or a COMMIT may fail with any error, \<open>uuid.NewString\<close>, the clocks and the random source
  return what they like. A COMMIT can fail before the server committed, or after it (the
  acknowledgement is lost); a statement that fails inside a
  transaction has no effect.

  Transactions of different sessions are taken one after the other (the database a
  transaction reads is the committed one at its BEGIN plus its own writes).
\<close>

datatype commit_fault =
    CommitFailed goerr      \<comment> \<open>the server did not commit\<close>
  | AckLost string          \<comment> \<open>the server committed, the connection broke before its answer\<close>

record env =
  fault :: "nat \<Rightarrow> goerr option"
  commit_fault :: "nat \<Rightarrow> commit_fault option"
  ctx_done :: "nat \<Rightarrow> goerr option"
  uuid_src :: "nat \<Rightarrow> string"
  go_clock :: "nat \<Rightarrow> time"
  pg_clock :: "nat \<Rightarrow> time"
  rnd :: "nat \<Rightarrow> int"
  uuid_in :: "string \<Rightarrow> string option"
  jsonb :: "json \<Rightarrow> json"
  err_text :: "goerr \<Rightarrow> string"

record world =
  db :: database
  tick :: nat
  tx_now :: time
  row_locks :: "string list"
  adv_locks :: "int list"
  fps :: "registry option"

type_synonym 'a comp = "world \<Rightarrow> 'a result \<times> world"

definition tickw :: "world \<Rightarrow> world" where
  "tickw w = w\<lparr>tick := tick w + 1\<rparr>"

text \<open>One SQL statement: it fails with the environment's error, or runs.\<close>

definition sql :: "env \<Rightarrow> (time \<Rightarrow> database \<Rightarrow> goerr + 'a \<times> database) \<Rightarrow> 'a comp" where
  "sql env stmt w =
     (case fault env (tick w) of
        Some e \<Rightarrow> (Err e, tickw w)
      | None \<Rightarrow>
          (case stmt (tx_now w) (db w) of
             Inl e \<Rightarrow> (Err e, tickw w)
           | Inr (x, d) \<Rightarrow> (Ret x, (tickw w)\<lparr>db := d\<rparr>)))"

text \<open>
  A statement on the pool is a transaction of its own, with its own \<open>now()\<close>: its commit may fail,
  or only the acknowledgement may be lost, and then the caller sees an error although the statement
  has taken effect.
\<close>

definition pool_sql :: "env \<Rightarrow> (time \<Rightarrow> database \<Rightarrow> goerr + 'a \<times> database) \<Rightarrow> 'a comp" where
  "pool_sql env stmt w =
     (case sql env stmt (w\<lparr>tx_now := pg_clock env (tick w)\<rparr>) of
        (Ret x, w1) \<Rightarrow>
          (case commit_fault env (tick w) of
             None \<Rightarrow> (Ret x, w1)
           | Some (AckLost m) \<Rightarrow> (Err (ErrOther m), w1)
           | Some (CommitFailed e) \<Rightarrow> (Err e, w1\<lparr>db := db w\<rparr>))
      | other \<Rightarrow> other)"

definition newUUID :: "env \<Rightarrow> string comp" where
  "newUUID env w = (Ret (uuid_src env (tick w)), tickw w)"

definition goNow :: "env \<Rightarrow> time comp" where
  "goNow env w = (Ret (go_clock env (tick w)), tickw w)"

text \<open>\<open>s.fp.Eval(ctx, name)\<close>.\<close>

definition fpEval :: "overrides \<Rightarrow> string \<Rightarrow> unit comp" where
  "fpEval ov name w = (let (r, reg) = Eval (fps w) ov name in (r, w\<lparr>fps := reg\<rparr>))"

subsection \<open>Classifying driver errors\<close>

definition retryReason :: "goerr \<Rightarrow> string \<times> bool" where
  "retryReason err =
     (case as_pg err of
        None \<Rightarrow> ([], False)
      | Some (state, _) \<Rightarrow>
          if state = ''40P01'' then (''deadlock'', True)
          else if state = ''40001'' then (''serialization'', True)
          else if state = ''55P03'' then (''lock_timeout'', True)
          else if state = ''57014'' then (''lock_timeout'', True)
          else ([], False))"

definition IsUniqueViolation :: "goerr \<Rightarrow> string \<Rightarrow> bool" where
  "IsUniqueViolation err constraint =
     (case as_pg err of None \<Rightarrow> False
      | Some (state, name) \<Rightarrow> state = ''23505'' \<and> (constraint = [] \<or> name = constraint))"

definition IsCheckViolation :: "goerr \<Rightarrow> string \<Rightarrow> bool" where
  "IsCheckViolation err constraint =
     (case as_pg err of None \<Rightarrow> False
      | Some (state, name) \<Rightarrow> state = ''23514'' \<and> (constraint = [] \<or> name = constraint))"

definition IsForeignKeyViolation :: "goerr \<Rightarrow> bool" where
  "IsForeignKeyViolation err =
     (case as_pg err of None \<Rightarrow> False | Some (state, name) \<Rightarrow> state = ''23503'')"

subsection \<open>Waiting\<close>

text \<open>\<open>rand.Int63n\<close> panics when its argument is not positive.\<close>

definition Int63n :: "env \<Rightarrow> int \<Rightarrow> int comp" where
  "Int63n env n w =
     (if n \<le> 0 then (Panic ''invalid argument to Int63n'', w)
      else (Ret (rnd env (tick w) mod n), tickw w))"

text \<open>
  \<open>base << attempt\<close> on int64, capped at \<open>maxDelay\<close>, then \<open>rand.Int63n(delay) + base\<close>.
\<close>

definition backoff_delay :: "nat \<Rightarrow> int" where
  "backoff_delay attempt =
     (let base = 5 * 10 ^ 6; maxDelay = 500 * 10 ^ 6; delay = wrap64 (base * 2 ^ attempt)
      in if delay > maxDelay then maxDelay else delay)"

definition backoff :: "env \<Rightarrow> nat \<Rightarrow> time comp" where
  "backoff env attempt =
     andThen (Int63n env (backoff_delay attempt)) (\<lambda>j. ret (wrap64 (j + 5 * 10 ^ 6)))"

definition sleepCtx :: "env \<Rightarrow> time \<Rightarrow> unit comp" where
  "sleepCtx env dur w =
     (case ctx_done env (tick w) of Some e \<Rightarrow> (Err e, tickw w) | None \<Rightarrow> (Ret (), tickw w))"

subsection \<open>Transactions\<close>

definition rollback :: "database \<Rightarrow> world \<Rightarrow> world" where
  "rollback d w = w\<lparr>db := d, row_locks := [], adv_locks := []\<rparr>"

definition commit :: "env \<Rightarrow> database \<Rightarrow> unit comp" where
  "commit env old w =
     (let committed = (tickw w)\<lparr>row_locks := [], adv_locks := []\<rparr>; aborted = rollback old (tickw w)
      in case commit_fault env (tick w) of
           Some (CommitFailed e) \<Rightarrow> (Err e, aborted)
         | cf \<Rightarrow>
             (case deferred_triggers old (db w) of
                Some e \<Rightarrow> (Err e, aborted)
              | None \<Rightarrow>
                  (case cf of Some (AckLost m) \<Rightarrow> (Err (ErrOther m), committed) | _ \<Rightarrow> (Ret (), committed))))"

definition begun :: "env \<Rightarrow> world \<Rightarrow> world" where
  "begun env w = (tickw w)\<lparr>tx_now := pg_clock env (tick w), row_locks := [], adv_locks := []\<rparr>"

definition runOnce :: "env \<Rightarrow> 'a comp \<Rightarrow> 'a comp" where
  "runOnce env fn w =
     (case fault env (tick w) of
        Some e \<Rightarrow> (Err (Wrap (Sprintf ''storage: begin: %w'' []) e), tickw w)
      | None \<Rightarrow>
          (case fn (begun env w) of
                (Panic p, w1) \<Rightarrow> (Panic p, rollback (db w) w1)
              | (Err e, w1) \<Rightarrow> (Err e, rollback (db w) w1)
              | (Ret x, w1) \<Rightarrow>
                  (case commit env (db w) w1 of
                     (Ret _, w2) \<Rightarrow> (Ret x, w2)
                   | (Err e, w2) \<Rightarrow> (Err (Wrap (Sprintf ''storage: commit: %w'' []) e), w2)
                   | (Panic p, w2) \<Rightarrow> (Panic p, w2))))"

definition wait_before :: "env \<Rightarrow> nat \<Rightarrow> unit comp" where
  "wait_before env attempt =
     (if attempt > 0 then andThen (backoff env attempt) (sleepCtx env) else ret ())"

fun inTxLoop :: "env \<Rightarrow> int \<Rightarrow> 'a comp \<Rightarrow> nat \<Rightarrow> nat \<Rightarrow> goerr option \<Rightarrow> 'a comp" where
  "inTxLoop env maxRetries fn 0 attempt lastErr =
     throw (case lastErr of
        None \<Rightarrow> ErrOther ''storage: transaction failed''
      | Some e \<Rightarrow> Wrap (Sprintf ''storage: transaction failed after %d attempts: %w'' [AInt maxRetries]) e)"
| "inTxLoop env maxRetries fn (Suc n) attempt lastErr =
     andThen (wait_before env attempt) (\<lambda>_ w.
       case runOnce env fn w of
         (Ret x, w') \<Rightarrow> (Ret x, w')
       | (Panic p, w') \<Rightarrow> (Panic p, w')
       | (Err e, w') \<Rightarrow>
           if snd (retryReason e) then inTxLoop env maxRetries fn n (Suc attempt) (Some e) w'
           else (Err e, w'))"

definition InTx :: "env \<Rightarrow> int \<Rightarrow> 'a comp \<Rightarrow> 'a comp" where
  "InTx env maxRetries fn = inTxLoop env maxRetries fn (nat maxRetries) 0 None"

subsection \<open>Frame facts of the primitive steps\<close>

lemma tickw_fields [simp]:
  "db (tickw w) = db w" "tx_now (tickw w) = tx_now w" "row_locks (tickw w) = row_locks w"
  "adv_locks (tickw w) = adv_locks w" "fps (tickw w) = fps w" "tick (tickw w) = tick w + 1"
  by (simp_all add: tickw_def)

lemma begun_fields [simp]:
  "db (begun env w) = db w" "fps (begun env w) = fps w" "row_locks (begun env w) = []"
  "adv_locks (begun env w) = []" "tick (begun env w) = tick w + 1"
  "tx_now (begun env w) = pg_clock env (tick w)"
  by (simp_all add: begun_def)

lemma rollback_fields [simp]:
  "db (rollback d w) = d" "fps (rollback d w) = fps w" "tick (rollback d w) = tick w"
  by (simp_all add: rollback_def)

lemma sql_Ret [ret_inv]:
  "sql env stmt w = (Ret x, w') \<longleftrightarrow>
     fault env (tick w) = None \<and> (\<exists>d. stmt (tx_now w) (db w) = Inr (x, d) \<and> w' = (tickw w)\<lparr>db := d\<rparr>)"
  by (auto simp: sql_def split: option.splits sum.splits)

lemma sql_run [run_simps]:
  "fault env (tick w) = None \<Longrightarrow> stmt (tx_now w) (db w) = Inr (x, d) \<Longrightarrow>
     sql env stmt w = (Ret x, (tickw w)\<lparr>db := d\<rparr>)"
  "fault env (tick w) = None \<Longrightarrow> stmt (tx_now w) (db w) = Inl e \<Longrightarrow> sql env stmt w = (Err e, tickw w)"
  by (simp_all add: sql_def)

lemma pool_sql_Ret [ret_inv]:
  "pool_sql env stmt w = (Ret x, w') \<longleftrightarrow>
     fault env (tick w) = None \<and> commit_fault env (tick w) = None \<and> (\<exists>d. stmt (pg_clock env (tick w)) (db w) = Inr (x, d) \<and>
       w' = (tickw (w\<lparr>tx_now := pg_clock env (tick w)\<rparr>))\<lparr>db := d\<rparr>)"
  by (auto simp: pool_sql_def sql_def split: option.splits sum.splits commit_fault.splits)

text \<open>What a statement on the pool has done, whatever its caller sees.\<close>

lemma pool_sql_effect:
  assumes "pool_sql env stmt w = (r, w')"
  shows "fps w' = fps w \<and> tick w' = tick w + 1 \<and> (\<forall>p. r \<noteq> Panic p) \<and>
    (db w' = db w \<and> (\<forall>x. r \<noteq> Ret x) \<or>
     (\<exists>x d. stmt (pg_clock env (tick w)) (db w) = Inr (x, d) \<and> db w' = d \<and> (\<forall>y. r = Ret y \<longrightarrow> y = x)))"
  using assms by (auto simp: pool_sql_def sql_def split: option.splits sum.splits commit_fault.splits)

text \<open>A statement of a transaction that does not return a value has not changed the database.\<close>

lemma sql_not_Ret: "sql env stmt w = (r, w') \<Longrightarrow> (\<forall>x. r \<noteq> Ret x) \<Longrightarrow> db w' = db w"
  by (auto simp: sql_def split: option.splits sum.splits)

lemma newUUID_Ret [ret_inv]:
  "newUUID env w = (Ret x, w') \<longleftrightarrow> x = uuid_src env (tick w) \<and> w' = tickw w"
  by (auto simp: newUUID_def)

lemma goNow_Ret [ret_inv]:
  "goNow env w = (Ret x, w') \<longleftrightarrow> x = go_clock env (tick w) \<and> w' = tickw w"
  by (auto simp: goNow_def)

lemma fpEval_Ret [ret_inv]:
  "fpEval ov name w = (Ret u, w') \<longleftrightarrow>
     fst (Eval (fps w) ov name) = Ret () \<and> w' = w\<lparr>fps := snd (Eval (fps w) ov name)\<rparr>"
  by (auto simp: fpEval_def split: prod.splits)

lemma fpEval_db: "fpEval ov name w = (r, w') \<Longrightarrow> db w' = db w"
  by (auto simp: fpEval_def split: prod.splits)

lemma wait_before_db: "wait_before env n w = (r, w') \<Longrightarrow> db w' = db w"
  by (auto simp: wait_before_def ret_def andThen_def backoff_def Int63n_def sleepCtx_def
      split: if_splits prod.splits res.splits option.splits)

subsection \<open>What a transaction leaves behind\<close>

text \<open>
  The attempt of \<open>fn\<close> that took effect: it started from the committed database \<open>d\<close>, returned
  \<open>x\<close>, passed the deferred triggers and left \<open>d'\<close>.
\<close>

definition committed :: "'a comp \<Rightarrow> database \<Rightarrow> 'a \<Rightarrow> database \<Rightarrow> bool" where
  "committed fn d x d' \<longleftrightarrow>
     (\<exists>w0 w1. db w0 = d \<and> row_locks w0 = [] \<and> adv_locks w0 = [] \<and> fn w0 = (Ret x, w1) \<and>
       deferred_triggers d (db w1) = None \<and> d' = db w1)"

definition ack_lost :: "goerr \<Rightarrow> bool" where
  "ack_lost e \<longleftrightarrow> (\<exists>m. e = Wrap (Sprintf ''storage: commit: %w'' []) (ErrOther m))"

lemma ack_lost_not_retryable: "ack_lost e \<Longrightarrow> \<not> snd (retryReason e)"
  by (auto simp: ack_lost_def retryReason_def)

lemma commit_outcome:
  assumes "commit env old w = (r, w')"
  shows "(\<exists>e. r = Err e) \<and> db w' = old
    \<or> deferred_triggers old (db w) = None \<and> db w' = db w \<and> (r = Ret () \<or> (\<exists>m. r = Err (ErrOther m)))"
  using assms by (auto simp: commit_def Let_def split: option.splits commit_fault.splits)

lemma runOnce_outcome:
  assumes "runOnce env fn w = (r, w')"
  shows "(\<forall>x. r \<noteq> Ret x) \<and> db w' = db w
    \<or> (\<exists>x. committed fn (db w) x (db w') \<and> (r = Ret x \<or> (\<exists>e. r = Err e \<and> ack_lost e)))"
proof (cases "fault env (tick w)")
  case (Some e)
  with assms show ?thesis by (auto simp: runOnce_def)
next
  case None
  let ?b = "begun env w"
  obtain r1 w1 where fn: "fn ?b = (r1, w1)" by fastforce
  show ?thesis
  proof (cases r1)
    case (Ret x)
    obtain rc wc where c: "commit env (db w) w1 = (rc, wc)" by fastforce
    have comm: "committed fn (db w) x (db wc)"
      if "deferred_triggers (db w) (db w1) = None" "db wc = db w1"
      unfolding committed_def by (rule exI[of _ ?b], rule exI[of _ w1]) (use fn Ret that in simp)
    from commit_outcome[OF c] show ?thesis
    proof (elim disjE conjE exE)
      fix e assume "rc = Err e" "db wc = db w"
      with assms None fn Ret c show ?thesis by (auto simp: runOnce_def)
    next
      assume "deferred_triggers (db w) (db w1) = None" "db wc = db w1" "rc = Ret ()"
      with assms None fn Ret c comm show ?thesis by (auto simp: runOnce_def Let_def)
    next
      fix m assume "deferred_triggers (db w) (db w1) = None" "db wc = db w1" "rc = Err (ErrOther m)"
      with assms None fn Ret c comm show ?thesis by (auto simp: runOnce_def Let_def ack_lost_def)
    qed
  qed (use assms None fn in \<open>auto simp: runOnce_def Let_def\<close>)
qed

lemma inTxLoop_outcome:
  assumes "inTxLoop env k fn n attempt lastErr w = (r, w')"
  shows "(\<forall>x. r \<noteq> Ret x) \<and> db w' = db w
    \<or> (\<exists>x. committed fn (db w) x (db w') \<and> (r = Ret x \<or> (\<exists>e. r = Err e \<and> ack_lost e)))"
  using assms
proof (induction n arbitrary: attempt lastErr w)
  case 0
  then show ?case by (auto simp: throw_def)
next
  case (Suc n)
  obtain rw ww where wb: "wait_before env attempt w = (rw, ww)" by fastforce
  then have dw: "db ww = db w" by (rule wait_before_db)
  show ?case
  proof (cases rw)
    case (Ret u)
    obtain r1 w1 where ro: "runOnce env fn ww = (r1, w1)" by fastforce
    note out = runOnce_outcome[OF ro, unfolded dw]
    show ?thesis
    proof (cases "\<exists>e. r1 = Err e \<and> snd (retryReason e)")
      case True
      then obtain e where e: "r1 = Err e" "snd (retryReason e)" by blast
      with out have "db w1 = db w" by (auto dest: ack_lost_not_retryable)
      moreover from Suc.prems wb Ret ro e
      have "inTxLoop env k fn n (Suc attempt) (Some e) w1 = (r, w')" by (simp add: andThen_def)
      ultimately show ?thesis using Suc.IH by metis
    next
      case False
      with Suc.prems wb Ret ro have "r = r1 \<and> w' = w1"
        by (cases r1) (auto simp: andThen_def)
      with out show ?thesis by simp
    qed
  qed (use Suc.prems wb dw in \<open>auto simp: andThen_def\<close>)
qed

lemma InTx_outcome:
  assumes "InTx env k fn w = (r, w')"
  shows "(\<forall>x. r \<noteq> Ret x) \<and> db w' = db w
    \<or> (\<exists>x. committed fn (db w) x (db w') \<and> (r = Ret x \<or> (\<exists>e. r = Err e \<and> ack_lost e)))"
  using assms unfolding InTx_def by (rule inTxLoop_outcome)

lemma InTx_Ret: "InTx env k fn w = (Ret x, w') \<Longrightarrow> committed fn (db w) x (db w')"
  using InTx_outcome[of env k fn w "Ret x" w'] by auto

text \<open>An environment in which no statement, BEGIN or COMMIT fails.\<close>

definition healthy :: "env \<Rightarrow> bool" where
  "healthy env \<longleftrightarrow> (\<forall>n. fault env n = None) \<and> (\<forall>n. commit_fault env n = None)"

lemma InTx_healthy_Ret:
  assumes "healthy env" and "1 \<le> k" and "fn (begun env w) = (Ret x, w1)"
    and "deferred_triggers (db w) (db w1) = None"
  shows "InTx env k fn w = (Ret x, (tickw w1)\<lparr>row_locks := [], adv_locks := []\<rparr>)"
proof -
  obtain n where n: "nat k = Suc n" using assms(2) by (cases "nat k") auto
  have ro: "runOnce env fn w = (Ret x, (tickw w1)\<lparr>row_locks := [], adv_locks := []\<rparr>)"
    using assms by (simp add: runOnce_def healthy_def commit_def Let_def)
  show ?thesis by (simp add: InTx_def n wait_before_def andThen_def ret_def ro)
qed

lemma InTx_healthy_Err:
  assumes "healthy env" and "1 \<le> k" and "fn (begun env w) = (Err e, w1)" and "\<not> snd (retryReason e)"
  shows "InTx env k fn w = (Err e, rollback (db w) w1)"
proof -
  obtain n where n: "nat k = Suc n" using assms(2) by (cases "nat k") auto
  have ro: "runOnce env fn w = (Err e, rollback (db w) w1)"
    using assms by (simp add: runOnce_def healthy_def)
  show ?thesis using assms(4) by (simp add: InTx_def n wait_before_def andThen_def ret_def ro)
qed

subsection \<open>The contract of a transaction body\<close>

text \<open>
  What \<open>InTx\<close> promises its callers: a body that takes the database from one consistent
  state to another, wherever the deferred triggers let it commit, keeps every run of the
  transaction consistent, whatever fails.
\<close>

locale tx_body =
  fixes body :: "'a comp" and I :: "database \<Rightarrow> bool"
  assumes commits: "\<And>w x w1. I (db w) \<Longrightarrow> body w = (Ret x, w1) \<Longrightarrow>
    deferred_triggers (db w) (db w1) = None \<Longrightarrow> I (db w1)"
begin

lemma committed_keeps: "I d \<Longrightarrow> committed body d x d' \<Longrightarrow> I d'"
  unfolding committed_def using commits by blast

lemma InTx_keeps: "I (db w) \<Longrightarrow> InTx env k body w = (r, w') \<Longrightarrow> I (db w')"
  using InTx_outcome[of env k body w r w'] committed_keeps by auto

end

end
