(* ===== verification/Idempotency.thy ===== *)
theory Idempotency
  imports Storage
begin

unbundle bit_operations_syntax

text \<open>
  \<open>internal/idempotency/record.go\<close>: the durable idempotency record. Each Go function is a
  call on the world; the SQL it runs is the statement beside it. The interface its clients
  rely on is the locale \<open>idem_store\<close>: a store of records by (scope, key) in which a claim
  never replaces a record, a completion changes the one record it names, and a discard
  removes nothing that is completed.
\<close>

definition StateInProgress :: string where "StateInProgress = ''in_progress''"
definition StateCompleted :: string where "StateCompleted = ''completed''"

record idem_record =
  rec_Scope :: string
  rec_Key :: string
  rec_RequestHash :: string
  rec_State :: string
  rec_ResponseStatus :: int
  rec_ResponseBody :: "json option"
  rec_TransactionID :: "string option"
  rec_CreatedAt :: time

subsection \<open>LockKey\<close>

text \<open>FNV-1a over 64-bit words (\<open>hash/fnv\<close>).\<close>

definition fnv64a :: "string \<Rightarrow> 64 word" where
  "fnv64a bs = fold (\<lambda>c h. (h XOR of_nat (of_char c)) * 1099511628211) bs 14695981039346656037"

definition lock_id :: "string \<Rightarrow> string \<Rightarrow> int" where
  "lock_id scope key = sint (fnv64a (scope @ [char_of (0::nat)] @ key))"

definition LockKey :: "env \<Rightarrow> string \<Rightarrow> string \<Rightarrow> unit comp" where
  "LockKey env scope key w =
     (case mapErr (Wrap (Sprintf ''idempotency: advisory lock: %w'' [])) (sql env (\<lambda>now d. Inr ((), d))) w of
        (Ret u, w') \<Rightarrow> (Ret u, w'\<lparr>adv_locks := adv_locks w' @ [lock_id scope key]\<rparr>)
      | other \<Rightarrow> other)"

subsection \<open>Statements\<close>

definition idem_record_of :: "idem_row \<Rightarrow> idem_record" where
  "idem_record_of r = \<lparr>rec_Scope = i_scope r, rec_Key = i_key r, rec_RequestHash = i_request_hash r,
     rec_State = i_state r,
     rec_ResponseStatus = (case i_response_status r of None \<Rightarrow> 0 | Some s \<Rightarrow> s),
     rec_ResponseBody = i_response_body r, rec_TransactionID = i_transaction_id r,
     rec_CreatedAt = i_created_at r\<rparr>"

definition fetch_stmt :: "string \<Rightarrow> string \<Rightarrow> time \<Rightarrow> database \<Rightarrow> goerr + idem_record \<times> database" where
  "fetch_stmt scope key now d =
     (case idem_of d scope key of None \<Rightarrow> Inl ErrNoRows | Some r \<Rightarrow> Inr (idem_record_of r, d))"

definition claim_stmt ::
  "string \<Rightarrow> string \<Rightarrow> string \<Rightarrow> time \<Rightarrow> database \<Rightarrow> goerr + nat \<times> database" where
  "claim_stmt scope key requestHash now d =
     (case idem_of d scope key of
        Some _ \<Rightarrow> Inr (0, d)
      | None \<Rightarrow>
          Inr (1, d\<lparr>idempotency_records := idempotency_records d @
            [\<lparr>i_scope = scope, i_key = key, i_request_hash = requestHash, i_state = StateInProgress,
              i_response_status = None, i_response_body = None, i_transaction_id = None,
              i_created_at = now, i_updated_at = now\<rparr>]\<rparr>))"

definition complete_row ::
  "int \<Rightarrow> json \<Rightarrow> string option \<Rightarrow> time \<Rightarrow> idem_row \<Rightarrow> idem_row" where
  "complete_row status body txid now r =
     r\<lparr>i_state := StateCompleted, i_response_status := Some status, i_response_body := Some body,
       i_transaction_id := txid, i_updated_at := now\<rparr>"

definition uuid_param :: "env \<Rightarrow> string option \<Rightarrow> goerr + string option" where
  "uuid_param env s =
     (case s of None \<Rightarrow> Inr None
      | Some t \<Rightarrow> (case uuid_in env t of None \<Rightarrow> Inl uuid_syntax | Some u \<Rightarrow> Inr (Some u)))"

definition complete_stmt ::
  "env \<Rightarrow> string \<Rightarrow> string \<Rightarrow> int \<Rightarrow> json \<Rightarrow> string option \<Rightarrow> time \<Rightarrow> database \<Rightarrow> goerr + unit \<times> database" where
  "complete_stmt env scope key status body txid now d =
     (case uuid_param env txid of
        Inl e \<Rightarrow> Inl e
      | Inr t \<Rightarrow>
          (case idem_of d scope key of
             None \<Rightarrow> Inr ((), d)
           | Some r \<Rightarrow>
               checked
                 [(idem_check (complete_row status body t now r), check_violation ''completed_has_response''),
                  (t = None \<or> list_ex (\<lambda>x. Some (t_id x) = t) (ledger_transactions d),
                     fk_violation ''idempotency_records_transaction_id_fkey'')]
                 ((), d\<lparr>idempotency_records :=
                    map (\<lambda>x. if i_scope x = scope \<and> i_key x = key
                             then complete_row status body t now x else x)
                      (idempotency_records d)\<rparr>)))"

definition discard_stmt :: "string \<Rightarrow> string \<Rightarrow> time \<Rightarrow> database \<Rightarrow> goerr + unit \<times> database" where
  "discard_stmt scope key now d =
     Inr ((), d\<lparr>idempotency_records :=
       filter (\<lambda>r. \<not> (i_scope r = scope \<and> i_key r = key \<and> i_state r = StateInProgress))
         (idempotency_records d)\<rparr>)"

subsection \<open>Operations\<close>

definition Fetch :: "env \<Rightarrow> string \<Rightarrow> string \<Rightarrow> idem_record comp" where
  "Fetch env scope key =
     mapErr (\<lambda>e. if errIs e ErrNoRows then ErrNotFound else Wrap (Sprintf ''idempotency: fetch: %w'' []) e)
       (sql env (fetch_stmt scope key))"

definition Claim :: "env \<Rightarrow> string \<Rightarrow> string \<Rightarrow> string \<Rightarrow> idem_record option comp" where
  "Claim env scope key requestHash =
     andThen (mapErr (Wrap (Sprintf ''idempotency: claim: %w'' [])) (sql env (claim_stmt scope key requestHash)))
       (\<lambda>affected. if affected = 1 then ret None
          else andThen (Fetch env scope key) (\<lambda>rec. ret (Some rec)))"

definition Complete ::
  "env \<Rightarrow> string \<Rightarrow> string \<Rightarrow> int \<Rightarrow> json \<Rightarrow> string option \<Rightarrow> unit comp" where
  "Complete env scope key status body transactionID =
     mapErr (Wrap (Sprintf ''idempotency: complete: %w'' []))
       (sql env (complete_stmt env scope key status body transactionID))"

definition Discard :: "env \<Rightarrow> string \<Rightarrow> string \<Rightarrow> unit comp" where
  "Discard env scope key =
     mapErr (Wrap (Sprintf ''idempotency: discard: %w'' [])) (pool_sql env (discard_stmt scope key))"

definition Conflict :: "string \<Rightarrow> goerr" where
  "Conflict key =
     WithDetail (New CodeIdempotencyConflict
       ''idempotency key %q was already used with a different request payload'' [AStr key])
       ''idempotency_key'' (AStr key)"

definition InProgress :: "string \<Rightarrow> goerr" where
  "InProgress key =
     WithDetail (New CodeIdempotencyInProgress
       ''a request with idempotency key %q is already in progress'' [AStr key])
       ''idempotency_key'' (AStr key)"

subsection \<open>The interface\<close>

text \<open>
  \<open>look\<close> reads a record, \<open>claim\<close> reports how many rows it inserted. The laws are what the
  callers of the package rely on.
\<close>

locale idem_store =
  fixes look :: "'d \<Rightarrow> string \<Rightarrow> string \<Rightarrow> idem_row option"
    and claim :: "string \<Rightarrow> string \<Rightarrow> string \<Rightarrow> time \<Rightarrow> 'd \<Rightarrow> goerr + nat \<times> 'd"
    and complete :: "string \<Rightarrow> string \<Rightarrow> int \<Rightarrow> json \<Rightarrow> string option \<Rightarrow> time \<Rightarrow> 'd \<Rightarrow> goerr + unit \<times> 'd"
    and discard :: "string \<Rightarrow> string \<Rightarrow> time \<Rightarrow> 'd \<Rightarrow> goerr + unit \<times> 'd"
  assumes claim_new: "look d s k = None \<Longrightarrow> \<exists>d' r. claim s k h now d = Inr (1, d') \<and>
      look d' s k = Some r \<and> i_request_hash r = h \<and> i_state r = StateInProgress"
    and claim_taken: "look d s k = Some r \<Longrightarrow> claim s k h now d = Inr (0, d)"
    and claim_other: "claim s k h now d = Inr (n, d') \<Longrightarrow> (s', k') \<noteq> (s, k) \<Longrightarrow>
      look d' s' k' = look d s' k'"
    and complete_same: "complete s k st b t now d = Inr (u, d') \<Longrightarrow> look d s k = Some r \<Longrightarrow>
      \<exists>r'. look d' s k = Some r' \<and> i_request_hash r' = i_request_hash r \<and> i_state r' = StateCompleted
        \<and> i_response_status r' = Some st \<and> i_response_body r' = Some b"
    and complete_other: "complete s k st b t now d = Inr (u, d') \<Longrightarrow> (s', k') \<noteq> (s, k) \<Longrightarrow>
      look d' s' k' = look d s' k'"
    and discard_done: "look d s k = Some r \<Longrightarrow> i_state r \<noteq> StateInProgress \<Longrightarrow>
      discard s' k' now d = Inr (u, d') \<Longrightarrow> look d' s k = Some r"
begin

text \<open>A record that exists survives every later claim, of any key and with any hash.\<close>

lemma claim_stable:
  assumes "look d s k = Some r" and "claim s' k' h now d = Inr (n, d')"
  shows "look d' s k = Some r"
proof (cases "(s', k') = (s, k)")
  case True
  with assms claim_taken[OF assms(1)] show ?thesis by auto
next
  case False
  with assms claim_other[OF assms(2), of s k] show ?thesis by auto
qed

text \<open>
  The whole life of a key: claimed while absent and then completed, it holds the
  completed record, no later claim creates another, and no discard removes it.
\<close>

lemma claimed_once:
  assumes "look d s k = None" and "claim s k h now d = Inr (n, d1)"
    and "complete s k st b t now d1 = Inr (u, d2)"
  shows "\<exists>r. look d2 s k = Some r \<and> i_request_hash r = h \<and> i_state r = StateCompleted
    \<and> i_response_status r = Some st \<and> i_response_body r = Some b
    \<and> (\<forall>h' now'. claim s k h' now' d2 = Inr (0, d2))
    \<and> (\<forall>s' k' now' u' d3. discard s' k' now' d2 = Inr (u', d3) \<longrightarrow> look d3 s k = Some r)"
proof -
  obtain r where r: "look d1 s k = Some r" "i_request_hash r = h"
    using claim_new[OF assms(1), of h now] assms(2) by auto
  obtain r' where r': "look d2 s k = Some r'" "i_request_hash r' = h" "i_state r' = StateCompleted"
      "i_response_status r' = Some st" "i_response_body r' = Some b"
    using complete_same[OF assms(3) r(1)] r(2) by auto
  have "StateCompleted \<noteq> StateInProgress" by (simp add: StateCompleted_def StateInProgress_def)
  with r' show ?thesis
    using claim_taken[OF r'(1)] discard_done[OF r'(1)] by auto
qed

end

subsection \<open>The table implements the interface\<close>

lemma idem_of_update:
  assumes "idem_of d s k = Some r" and "\<And>x. i_scope (f x) = i_scope x" and "\<And>x. i_key (f x) = i_key x"
  shows "idem_of (d\<lparr>idempotency_records := map (\<lambda>x. if i_scope x = s \<and> i_key x = k then f x else x)
           (idempotency_records d)\<rparr>) s' k'
       = (if s' = s \<and> k' = k then Some (f r) else idem_of d s' k')"
proof -
  let ?g = "\<lambda>x. if i_scope x = s \<and> i_key x = k then f x else x"
  have "idem_of (d\<lparr>idempotency_records := map ?g (idempotency_records d)\<rparr>) s' k' = map_option ?g (idem_of d s' k')"
    using find_map_upd[of "\<lambda>r. i_scope r = s' \<and> i_key r = k'" ?g "idempotency_records d"]
    by (simp add: idem_of_def assms(2,3))
  moreover have "map_option ?g (idem_of d s' k') = (if s' = s \<and> k' = k then Some (f r) else idem_of d s' k')"
  proof (cases "idem_of d s' k'")
    case None
    with assms(1) show ?thesis by auto
  next
    case (Some x)
    then have "i_scope x = s' \<and> i_key x = k'" using idem_of_id by blast
    with Some assms(1) show ?thesis by auto
  qed
  ultimately show ?thesis by simp
qed

lemma complete_row_key [simp]:
  "i_scope (complete_row st b t now r) = i_scope r" "i_key (complete_row st b t now r) = i_key r"
  "i_request_hash (complete_row st b t now r) = i_request_hash r"
  "i_state (complete_row st b t now r) = StateCompleted"
  "i_response_status (complete_row st b t now r) = Some st"
  "i_response_body (complete_row st b t now r) = Some b"
  "i_transaction_id (complete_row st b t now r) = t"
  "i_created_at (complete_row st b t now r) = i_created_at r"
  by (simp_all add: complete_row_def)

lemma complete_stmt_Inr:
  assumes "complete_stmt env s k st b t now d = Inr (u, d')" and "idem_of d s k = Some r"
  shows "\<exists>t'. uuid_param env t = Inr t' \<and> (t' = None \<or> (\<exists>x \<in> set (ledger_transactions d). Some (t_id x) = t'))
    \<and> d' = d\<lparr>idempotency_records := map (\<lambda>x. if i_scope x = s \<and> i_key x = k
           then complete_row st b t' now x else x) (idempotency_records d)\<rparr>"
  using assms
  by (auto simp: complete_stmt_def list_ex_iff checked_Inr split: sum.splits)

lemma claim_stmt_new:
  assumes "idem_of d s k = None"
  shows "claim_stmt s k h now d = Inr (1, d\<lparr>idempotency_records := idempotency_records d @
      [\<lparr>i_scope = s, i_key = k, i_request_hash = h, i_state = StateInProgress, i_response_status = None,
        i_response_body = None, i_transaction_id = None, i_created_at = now, i_updated_at = now\<rparr>]\<rparr>)"
  using assms by (simp add: claim_stmt_def)

lemma claim_stmt_taken: "idem_of d s k = Some r \<Longrightarrow> claim_stmt s k h now d = Inr (0, d)"
  by (simp add: claim_stmt_def)

lemma idem_of_append:
  "idem_of (d\<lparr>idempotency_records := idempotency_records d @ [r]\<rparr>) s k =
     (case idem_of d s k of Some x \<Rightarrow> Some x
      | None \<Rightarrow> if i_scope r = s \<and> i_key r = k then Some r else None)"
  by (simp add: idem_of_def find_append split: option.splits)

lemma find_filter_first:
  "find P xs = Some x \<Longrightarrow> Q x \<Longrightarrow> find P (filter Q xs) = Some x"
  by (induction xs) (auto split: if_splits)

interpretation records: idem_store idem_of claim_stmt "complete_stmt env" discard_stmt for env
proof (unfold_locales, goal_cases)
  case (1 d s k h now)
  then show ?case by (simp add: claim_stmt_new idem_of_append)
next
  case (2 d s k r h now)
  then show ?case by (rule claim_stmt_taken)
next
  case (3 s k h now d n d' s' k')
  then show ?case
    by (cases "idem_of d s k") (auto simp: claim_stmt_def idem_of_append split: option.splits)
next
  case (4 s k st b t now d u d' r)
  then show ?case by (auto dest!: complete_stmt_Inr simp: idem_of_update)
next
  case (5 s k st b t now d u d' s' k')
  show ?case
  proof (cases "idem_of d s k")
    case None
    with 5 show ?thesis by (auto simp: complete_stmt_def split: sum.splits)
  next
    case (Some r)
    with 5 complete_stmt_Inr[OF 5(1) Some] show ?thesis by (auto simp: idem_of_update)
  qed
next
  case (6 d s k r s' k' now u d')
  then show ?case by (auto simp: discard_stmt_def idem_of_def intro!: find_filter_first)
qed

end
