(* ===== verification/Config.thy ===== *)
theory Config
  imports Prelude
begin

text \<open>
  \<open>internal/config/config.go\<close>: the configuration record and the topic of an event type.
\<close>

record Config =
  ServiceName :: string
  LogLevel :: string
  HTTPAddr :: string
  DatabaseURL :: string
  DBMaxConns :: int
  DBMinConns :: int
  DBLockTimeout :: time
  DBStatementTime :: time
  DBMaxTxRetries :: int
  RedisAddr :: string
  RedisPassword :: string
  RedisDB :: int
  RedisEnabled :: bool
  RedisTimeout :: time
  IdempotencyCacheTTL :: time
  RateLimitEnabled :: bool
  RateLimitRPS :: int
  RateLimitBurst :: int
  KafkaBrokers :: "string list"
  KafkaEnabled :: bool
  KafkaClientID :: string
  KafkaTimeout :: time
  TopicPaymentsCreated :: string
  TopicPaymentsReversed :: string
  TopicPaymentsFailed :: string
  TopicPaymentsDLQ :: string
  OutboxBatchSize :: int
  OutboxPollInterval :: time
  OutboxMaxAttempts :: int
  OutboxBaseBackoff :: time
  OutboxMaxBackoff :: time
  OutboxClaimTTL :: time
  OutboxWorkerID :: string
  WebhookEndpoints :: "string list"
  WebhookConsumerGroup :: string
  WebhookMaxAttempts :: int
  WebhookBaseBackoff :: time
  WebhookMaxBackoff :: time
  WebhookTimeout :: time
  WebhookPollInterval :: time
  WebhookBatchSize :: int
  WebhookSigningSecret :: string
  FailpointsEnabled :: bool
  Failpoints :: string

definition TopicForEvent :: "Config \<Rightarrow> string \<Rightarrow> string" where
  "TopicForEvent c eventType =
     (if eventType = ''payment.reversed'' then TopicPaymentsReversed c
      else if eventType = ''payment.failed'' then TopicPaymentsFailed c
      else TopicPaymentsCreated c)"

definition AllTopics :: "Config \<Rightarrow> string list" where
  "AllTopics c = [TopicPaymentsCreated c, TopicPaymentsReversed c, TopicPaymentsFailed c, TopicPaymentsDLQ c]"

lemma TopicForEvent_known: "TopicForEvent c e \<in> set (AllTopics c)"
  by (simp add: TopicForEvent_def AllTopics_def)

end
