(* ===== verification/Outbox.thy ===== *)
theory Outbox
  imports Storage Config "HOL-Library.Product_Lexorder"
begin

text \<open>
  \<open>internal/outbox/event.go\<close> and \<open>internal/outbox/repo.go\<close>: the event envelope and its
  JSON, and the operations on the table \<open>outbox_events\<close>. The rows another session holds
  locked at the moment of a claim, which \<open>SKIP LOCKED\<close> passes over, are a parameter.
\<close>

definition StatusPending :: string where "StatusPending = ''pending''"
definition StatusPublishing :: string where "StatusPublishing = ''publishing''"
definition StatusPublished :: string where "StatusPublished = ''published''"
definition StatusDeadLetter :: string where "StatusDeadLetter = ''dead_letter''"

lemmas outbox_status_defs = StatusPending_def StatusPublishing_def StatusPublished_def StatusDeadLetter_def

definition SchemaVersion :: int where "SchemaVersion = 1"

record ReplayMeta =
  rm_IsReplay :: bool
  rm_ReplayID :: string
  rm_ReplayedAt :: time
  rm_ReplayedBy :: string
  rm_OriginalSeq :: int

record Envelope =
  ev_EventID :: string
  ev_EventType :: string
  ev_SchemaVersion :: int
  ev_TransactionID :: string
  ev_OccurredAt :: time
  ev_CorrelationID :: string
  ev_Replay :: "ReplayMeta option"
  ev_Data :: json

record EntryData =
  ed_EntryID :: string
  ed_AccountID :: string
  ed_Amount :: int
  ed_Currency :: string
  ed_Seq :: int

record PaymentData =
  pd_TransactionID :: string
  pd_Kind :: string
  pd_Currency :: string
  pd_Amount :: int
  pd_SourceAccountID :: string
  pd_DestinationAccountID :: string
  pd_Description :: string
  pd_ExternalReference :: string
  pd_ReversesTransactionID :: string
  pd_Reason :: string
  pd_CreatedAt :: time
  pd_Entries :: "EntryData list"

record outbox_record =
  or_ID :: string
  or_Topic :: string
  or_EventType :: string
  or_AggregateID :: string
  or_PartitionKey :: string
  or_Payload :: json
  or_Headers :: "(string \<times> string) list"
  or_Status :: string
  or_Attempts :: int
  or_LastError :: string
  or_NextAttemptAt :: time
  or_CreatedAt :: time

subsection \<open>JSON of the event\<close>

text \<open>A member with \<open>omitempty\<close> on a string.\<close>

definition omit_str :: "string \<Rightarrow> string \<Rightarrow> (string \<times> json) list" where
  "omit_str k s = (if s = [] then [] else [(k, JStr s)])"

definition marshalReplayMeta :: "ReplayMeta \<Rightarrow> json" where
  "marshalReplayMeta m = JObj (
     [(''is_replay'', JBool (rm_IsReplay m)), (''replay_id'', JStr (rm_ReplayID m)),
      (''replayed_at'', JTime (rm_ReplayedAt m))]
     @ omit_str ''replayed_by'' (rm_ReplayedBy m)
     @ (if rm_OriginalSeq m = 0 then [] else [(''original_seq'', JNum (rm_OriginalSeq m))]))"

definition marshalEnvelope :: "Envelope \<Rightarrow> json" where
  "marshalEnvelope e = JObj (
     [(''event_id'', JStr (ev_EventID e)), (''event_type'', JStr (ev_EventType e)),
      (''schema_version'', JNum (ev_SchemaVersion e)), (''transaction_id'', JStr (ev_TransactionID e)),
      (''occurred_at'', JTime (ev_OccurredAt e))]
     @ omit_str ''correlation_id'' (ev_CorrelationID e)
     @ (case ev_Replay e of None \<Rightarrow> [] | Some m \<Rightarrow> [(''replay'', marshalReplayMeta m)])
     @ [(''data'', ev_Data e)])"

definition marshalEntryData :: "EntryData \<Rightarrow> json" where
  "marshalEntryData e = JObj
     [(''entry_id'', JStr (ed_EntryID e)), (''account_id'', JStr (ed_AccountID e)),
      (''amount'', JNum (ed_Amount e)), (''currency'', JStr (ed_Currency e)), (''seq'', JNum (ed_Seq e))]"

definition marshalPaymentData :: "PaymentData \<Rightarrow> json" where
  "marshalPaymentData p = JObj (
     [(''transaction_id'', JStr (pd_TransactionID p)), (''kind'', JStr (pd_Kind p)),
      (''currency'', JStr (pd_Currency p)), (''amount'', JNum (pd_Amount p))]
     @ omit_str ''source_account_id'' (pd_SourceAccountID p)
     @ omit_str ''destination_account_id'' (pd_DestinationAccountID p)
     @ omit_str ''description'' (pd_Description p)
     @ omit_str ''external_reference'' (pd_ExternalReference p)
     @ omit_str ''reverses_transaction_id'' (pd_ReversesTransactionID p)
     @ omit_str ''reason'' (pd_Reason p)
     @ [(''created_at'', JTime (pd_CreatedAt p)), (''entries'', JArr (map marshalEntryData (pd_Entries p)))])"

subsection \<open>Statements\<close>

definition outbox_of :: "database \<Rightarrow> string \<Rightarrow> outbox_row option" where
  "outbox_of d i = find (\<lambda>r. o_id r = i) (outbox_events d)"

definition outbox_record_of :: "outbox_row \<Rightarrow> outbox_record" where
  "outbox_record_of r = \<lparr>or_ID = o_id r, or_Topic = o_topic r, or_EventType = o_event_type r,
     or_AggregateID = o_aggregate_id r, or_PartitionKey = o_partition_key r, or_Payload = o_payload r,
     or_Headers = o_headers r, or_Status = o_status r, or_Attempts = o_attempts r,
     or_LastError = (case o_last_error r of None \<Rightarrow> [] | Some s \<Rightarrow> s),
     or_NextAttemptAt = o_next_attempt_at r, or_CreatedAt = o_created_at r\<rparr>"

definition new_outbox_row :: "env \<Rightarrow> string \<Rightarrow> outbox_record \<Rightarrow> time \<Rightarrow> outbox_row" where
  "new_outbox_row env i rec now = \<lparr>o_id = i, o_topic = or_Topic rec, o_event_type = or_EventType rec,
     o_aggregate_id = or_AggregateID rec, o_partition_key = or_PartitionKey rec,
     o_payload = jsonb env (or_Payload rec), o_headers = or_Headers rec, o_status = StatusPending,
     o_attempts = 0, o_last_error = None, o_claimed_by = None, o_claimed_at = None,
     o_next_attempt_at = now, o_published_at = None, o_created_at = now\<rparr>"

definition insert_outbox_stmt ::
  "env \<Rightarrow> outbox_record \<Rightarrow> time \<Rightarrow> database \<Rightarrow> goerr + unit \<times> database" where
  "insert_outbox_stmt env rec now d =
     (case uuid_in env (or_ID rec) of
        None \<Rightarrow> Inl uuid_syntax
      | Some i \<Rightarrow>
          (let row = new_outbox_row env i rec now
           in checked (outbox_check row @
                [(list_all (\<lambda>r. o_id r \<noteq> i) (outbox_events d), unique_violation ''outbox_events_pkey'')])
                ((), d\<lparr>outbox_events := outbox_events d @ [row]\<rparr>)))"

definition truncate :: "string \<Rightarrow> nat \<Rightarrow> string" where
  "truncate s n = (if length s \<le> n then s else take n s)"

text \<open>The rows a claim may take, oldest first.\<close>

definition claimable :: "time \<Rightarrow> time \<Rightarrow> outbox_row \<Rightarrow> bool" where
  "claimable ttl now r \<longleftrightarrow>
     (o_status r = StatusPending \<or> o_status r = StatusPublishing) \<and> o_next_attempt_at r \<le> now \<and>
     (o_status r = StatusPending \<or>
       (case o_claimed_at r of None \<Rightarrow> True | Some c \<Rightarrow> c < now - ttl))"

definition claim_outbox_stmt ::
  "string \<Rightarrow> int \<Rightarrow> time \<Rightarrow> (string \<Rightarrow> bool) \<Rightarrow> time \<Rightarrow> database \<Rightarrow> goerr + outbox_record list \<times> database" where
  "claim_outbox_stmt workerID limit ttl locked now d =
     (if limit < 0 then Inl (PgError ''2201W'' [] ''LIMIT must not be negative'')
      else
        let due = sort_key (\<lambda>r. (o_created_at r, o_id r)) (filter (claimable ttl now) (outbox_events d));
            ids = map o_id (take (nat limit) (filter (\<lambda>r. \<not> locked (o_id r)) due));
            upd = (\<lambda>r. r\<lparr>o_status := StatusPublishing, o_claimed_by := Some workerID, o_claimed_at := Some now\<rparr>);
            rows = map (\<lambda>r. if List.member ids (o_id r) then upd r else r) (outbox_events d)
        in Inr (map outbox_record_of (filter (\<lambda>r. List.member ids (o_id r)) rows),
                d\<lparr>outbox_events := rows\<rparr>))"

definition published_row :: "time \<Rightarrow> outbox_row \<Rightarrow> outbox_row" where
  "published_row now r = r\<lparr>o_status := StatusPublished, o_published_at := Some now,
     o_attempts := o_attempts r + 1, o_last_error := None, o_claimed_by := None, o_claimed_at := None\<rparr>"

definition in32 :: "int \<Rightarrow> bool" where
  "in32 x \<longleftrightarrow> - (2 ^ 31) \<le> x \<and> x < 2 ^ 31"

definition mark_published_stmt :: "env \<Rightarrow> string \<Rightarrow> time \<Rightarrow> database \<Rightarrow> goerr + unit \<times> database" where
  "mark_published_stmt env i now d =
     (case uuid_in env i of
        None \<Rightarrow> Inl uuid_syntax
      | Some u \<Rightarrow>
          (case outbox_of d u of
             None \<Rightarrow> Inr ((), d)
           | Some r \<Rightarrow>
               if o_status r = StatusPublished then Inr ((), d)
               else checked ((in32 (o_attempts r + 1), int_out_of_range) # outbox_check (published_row now r))
                 ((), d\<lparr>outbox_events := map (\<lambda>x. if o_id x = u then published_row now x else x) (outbox_events d)\<rparr>)))"

definition failed_row :: "string \<Rightarrow> time \<Rightarrow> int \<Rightarrow> time \<Rightarrow> outbox_row \<Rightarrow> outbox_row" where
  "failed_row cause delay maxAttempts now r = r\<lparr>o_attempts := o_attempts r + 1, o_last_error := Some cause,
     o_claimed_by := None, o_claimed_at := None,
     o_status := (if o_attempts r + 1 \<ge> maxAttempts then StatusDeadLetter else StatusPending),
     o_next_attempt_at := now + delay\<rparr>"

definition mark_failed_stmt ::
  "env \<Rightarrow> string \<Rightarrow> string \<Rightarrow> time \<Rightarrow> int \<Rightarrow> time \<Rightarrow> database \<Rightarrow> goerr + (int \<times> string) \<times> database" where
  "mark_failed_stmt env i cause delay maxAttempts now d =
     (case uuid_in env i of
        None \<Rightarrow> Inl uuid_syntax
      | Some u \<Rightarrow>
          (case outbox_of d u of
             None \<Rightarrow> Inl ErrNoRows
           | Some r \<Rightarrow>
               (let f = failed_row cause delay maxAttempts now
                in checked ((in32 (o_attempts r + 1), int_out_of_range) # outbox_check (f r))
                  ((o_attempts (f r), o_status (f r)),
                   d\<lparr>outbox_events := map (\<lambda>x. if o_id x = u then f x else x) (outbox_events d)\<rparr>))))"

definition backlog_stmt :: "time \<Rightarrow> database \<Rightarrow> goerr + int \<times> database" where
  "backlog_stmt now d =
     Inr (int (length (filter (\<lambda>r. o_status r = StatusPending \<or> o_status r = StatusPublishing) (outbox_events d))), d)"

definition get_outbox_stmt :: "env \<Rightarrow> string \<Rightarrow> time \<Rightarrow> database \<Rightarrow> goerr + outbox_record \<times> database" where
  "get_outbox_stmt env i now d =
     (case uuid_in env i of
        None \<Rightarrow> Inl uuid_syntax
      | Some u \<Rightarrow> (case outbox_of d u of None \<Rightarrow> Inl ErrNoRows | Some r \<Rightarrow> Inr (outbox_record_of r, d)))"

definition replay_filter :: "string \<Rightarrow> time option \<Rightarrow> time option \<Rightarrow> outbox_row \<Rightarrow> bool" where
  "replay_filter transactionID from_t to_t r \<longleftrightarrow>
     (transactionID = [] \<or> o_aggregate_id r = transactionID) \<and>
     (case from_t of None \<Rightarrow> True | Some t \<Rightarrow> o_created_at r \<ge> t) \<and>
     (case to_t of None \<Rightarrow> True | Some t \<Rightarrow> o_created_at r \<le> t)"

definition list_for_replay_stmt ::
  "string \<Rightarrow> time option \<Rightarrow> time option \<Rightarrow> int \<Rightarrow> time \<Rightarrow> database \<Rightarrow> goerr + outbox_record list \<times> database" where
  "list_for_replay_stmt transactionID from_t to_t limit now d =
     (if limit < 0 then Inl (PgError ''2201W'' [] ''LIMIT must not be negative'')
      else Inr (map outbox_record_of (take (nat limit)
        (sort_key (\<lambda>r. (o_created_at r, o_id r)) (filter (replay_filter transactionID from_t to_t) (outbox_events d)))), d))"

subsection \<open>Operations\<close>

definition Insert :: "env \<Rightarrow> outbox_record \<Rightarrow> unit comp" where
  "Insert env rec = mapErr (Wrap (Sprintf ''outbox: insert: %w'' [])) (sql env (insert_outbox_stmt env rec))"

definition ClaimOutbox :: "env \<Rightarrow> string \<Rightarrow> int \<Rightarrow> time \<Rightarrow> (string \<Rightarrow> bool) \<Rightarrow> outbox_record list comp" where
  "ClaimOutbox env workerID limit claimTTL locked =
     mapErr (Wrap (Sprintf ''outbox: claim: %w'' [])) (pool_sql env (claim_outbox_stmt workerID limit claimTTL locked))"

definition MarkPublished :: "env \<Rightarrow> string \<Rightarrow> unit comp" where
  "MarkPublished env i =
     mapErr (Wrap (Sprintf ''outbox: mark published: %w'' [])) (pool_sql env (mark_published_stmt env i))"

definition MarkFailed :: "env \<Rightarrow> string \<Rightarrow> string \<Rightarrow> time \<Rightarrow> int \<Rightarrow> (int \<times> bool) comp" where
  "MarkFailed env i cause delay maxAttempts =
     andThen (mapErr (Wrap (Sprintf ''outbox: mark failed: %w'' []))
         (pool_sql env (mark_failed_stmt env i (truncate cause 2000) delay maxAttempts)))
       (\<lambda>(attempts, status). ret (attempts, status = StatusDeadLetter))"

definition Backlog :: "env \<Rightarrow> int comp" where
  "Backlog env = mapErr (Wrap (Sprintf ''outbox: backlog: %w'' [])) (pool_sql env backlog_stmt)"

definition GetOutbox :: "env \<Rightarrow> string \<Rightarrow> outbox_record comp" where
  "GetOutbox env i =
     mapErr (\<lambda>e. if e = ErrNoRows then ErrNoRows else Wrap (Sprintf ''outbox: get: %w'' []) e)
       (pool_sql env (get_outbox_stmt env i))"

definition ListForReplay ::
  "env \<Rightarrow> string \<Rightarrow> time option \<Rightarrow> time option \<Rightarrow> int \<Rightarrow> outbox_record list comp" where
  "ListForReplay env transactionID from_t to_t limit =
     mapErr (Wrap (Sprintf ''outbox: list for replay: %w'' []))
       (pool_sql env (list_for_replay_stmt transactionID from_t to_t limit))"

end
