(* ===== verification/Ledger_Model.thy ===== *)
theory Ledger_Model
  imports Idempotency Outbox
begin

text \<open>
  \<open>internal/ledger/model.go\<close>: commands, the transaction with its entries, and the
  validation of commands. \<open>Account\<close> and \<open>Entry\<close> are the row types of the schema.
\<close>

definition KindUser :: string where "KindUser = ''user''"
definition KindSystem :: string where "KindSystem = ''system''"
definition TxKindTransfer :: string where "TxKindTransfer = ''transfer''"
definition TxKindFunding :: string where "TxKindFunding = ''funding''"
definition TxKindReversal :: string where "TxKindReversal = ''reversal''"
definition EventPaymentCreated :: string where "EventPaymentCreated = ''payment.created''"
definition EventPaymentReversed :: string where "EventPaymentReversed = ''payment.reversed''"
definition EventPaymentFailed :: string where "EventPaymentFailed = ''payment.failed''"

lemmas ledger_kind_defs = KindUser_def KindSystem_def TxKindTransfer_def TxKindFunding_def TxKindReversal_def
lemmas ledger_event_defs = EventPaymentCreated_def EventPaymentReversed_def EventPaymentFailed_def

record Balance =
  bal_AccountID :: string
  bal_Amount :: int
  bal_Currency :: string
  bal_Version :: int
  bal_UpdatedAt :: time

record Transaction =
  tx_ID :: string
  tx_Kind :: string
  tx_Currency :: string
  tx_Description :: string
  tx_ExternalReference :: "string option"
  tx_ReversesTransactionID :: "string option"
  tx_ReversedByTransactionID :: "string option"
  tx_CreatedAt :: time
  tx_Entries :: "Entry list"

fun sum_loop :: "int \<Rightarrow> Entry list \<Rightarrow> int" where
  "sum_loop acc [] = acc"
| "sum_loop acc (e # es) = sum_loop (wrap64 (acc + e_amount e)) es"

definition Sum :: "Transaction \<Rightarrow> int" where
  "Sum t = sum_loop 0 (tx_Entries t)"

record CreateAccountCommand =
  ca_ID :: string
  ca_Currency :: string
  ca_Kind :: string
  ca_AllowOverdraft :: bool
  ca_Metadata :: "json option"
  ca_IdempotencyScope :: string
  ca_IdempotencyKey :: string
  ca_RequestHash :: string

record TransferCommand =
  tc_SourceAccountID :: string
  tc_DestinationAccountID :: string
  tc_Amount :: int
  tc_Currency :: string
  tc_Description :: string
  tc_ExternalReference :: string
  tc_IdempotencyScope :: string
  tc_IdempotencyKey :: string
  tc_RequestHash :: string

record ReverseCommand =
  rc_TransactionID :: string
  rc_Reason :: string
  rc_IdempotencyScope :: string
  rc_IdempotencyKey :: string
  rc_RequestHash :: string

record EntryPage =
  page_Entries :: "Entry list"
  page_NextCursor :: string

record Result =
  res_Transaction :: "Transaction option"
  res_ResponseStatus :: int
  res_ResponseBody :: "json option"
  res_Replayed :: bool

subsection \<open>Validation\<close>

definition is_alnum :: "char \<Rightarrow> bool" where
  "is_alnum c \<longleftrightarrow> is_upper c \<or> (CHR ''a'' \<le> c \<and> c \<le> CHR ''z'') \<or> (CHR ''0'' \<le> c \<and> c \<le> CHR ''9'')"

text \<open>\<open>^[A-Za-z0-9][A-Za-z0-9._:-]{0,127}$\<close>\<close>

definition accountIDRe :: "string \<Rightarrow> bool" where
  "accountIDRe s =
     (case s of [] \<Rightarrow> False
      | c # cs \<Rightarrow> is_alnum c \<and> length cs \<le> 127 \<and> list_all (\<lambda>x. is_alnum x \<or> List.member ''._:-'' x) cs)"

definition ValidateCreateAccount :: "CreateAccountCommand \<Rightarrow> goerr option" where
  "ValidateCreateAccount c =
     (if \<not> accountIDRe (ca_ID c) then
        Some (InvalidRequest ''id must match %s'' [AStr ''^[A-Za-z0-9][A-Za-z0-9._:-]{0,127}$''])
      else if \<not> currencyRe (ca_Currency c) then
        Some (InvalidRequest ''currency must be a 3-letter uppercase ISO 4217 code'' [])
      else if ca_Kind c \<noteq> KindUser \<and> ca_Kind c \<noteq> KindSystem then
        Some (InvalidRequest ''kind must be %q or %q'' [AStr KindUser, AStr KindSystem])
      else if ca_AllowOverdraft c \<and> ca_Kind c \<noteq> KindSystem then
        Some (InvalidRequest ''only system accounts may allow overdraft'' [])
      else None)"

definition ValidateTransfer :: "TransferCommand \<Rightarrow> goerr option" where
  "ValidateTransfer c =
     (if tc_SourceAccountID c = [] \<or> tc_DestinationAccountID c = [] then
        Some (InvalidRequest ''source_account_id and destination_account_id are required'' [])
      else if tc_SourceAccountID c = tc_DestinationAccountID c then
        Some (InvalidRequest ''source_account_id and destination_account_id must differ'' [])
      else if tc_Amount c \<le> 0 then
        Some (InvalidRequest ''amount must be a positive integer in minor units'' [])
      else if \<not> currencyRe (tc_Currency c) then
        Some (InvalidRequest ''currency must be a 3-letter uppercase ISO 4217 code'' [])
      else if length (tc_Description c) > 512 then
        Some (InvalidRequest ''description must be at most 512 characters'' [])
      else if length (tc_ExternalReference c) > 256 then
        Some (InvalidRequest ''external_reference must be at most 256 characters'' [])
      else None)"

subsection \<open>JSON of the responses\<close>

definition opt_str :: "string \<Rightarrow> string option \<Rightarrow> (string \<times> json) list" where
  "opt_str k s = (case s of None \<Rightarrow> [] | Some v \<Rightarrow> [(k, JStr v)])"

definition marshalEntry :: "Entry \<Rightarrow> json" where
  "marshalEntry e = JObj
     [(''id'', JStr (e_id e)), (''transaction_id'', JStr (e_transaction_id e)),
      (''account_id'', JStr (e_account_id e)), (''amount'', JNum (e_amount e)),
      (''currency'', JStr (e_currency e)), (''seq'', JNum (e_seq e)), (''created_at'', JTime (e_created_at e))]"

definition marshalTransaction :: "Transaction \<Rightarrow> json" where
  "marshalTransaction t = JObj (
     [(''id'', JStr (tx_ID t)), (''kind'', JStr (tx_Kind t)), (''currency'', JStr (tx_Currency t)),
      (''description'', JStr (tx_Description t))]
     @ opt_str ''external_reference'' (tx_ExternalReference t)
     @ opt_str ''reverses_transaction_id'' (tx_ReversesTransactionID t)
     @ opt_str ''reversed_by_transaction_id'' (tx_ReversedByTransactionID t)
     @ [(''created_at'', JTime (tx_CreatedAt t)),
        (''entries'', if tx_Entries t = [] then JNull else JArr (map marshalEntry (tx_Entries t)))])"

definition marshalAccount :: "Account \<Rightarrow> json" where
  "marshalAccount a = JObj
     [(''id'', JStr (a_id a)), (''currency'', JStr (a_currency a)), (''kind'', JStr (a_kind a)),
      (''allow_overdraft'', JBool (a_allow_overdraft a)), (''metadata'', a_metadata a),
      (''created_at'', JTime (a_created_at a))]"

subsection \<open>Facts\<close>

lemma sum_loop_wrap: "sum_loop (wrap64 a) es = wrap64 (a + sum_list (map e_amount es))"
proof (induction es arbitrary: a)
  case (Cons e es)
  show ?case by (simp add: wrap64_add_left Cons.IH add.assoc)
qed simp

lemma Sum_eq: "Sum t = wrap64 (sum_list (map e_amount (tx_Entries t)))"
  using sum_loop_wrap[of 0 "tx_Entries t"] by (simp add: Sum_def wrap64_def)

lemma ValidateTransfer_None:
  "ValidateTransfer c = None \<longleftrightarrow>
     tc_SourceAccountID c \<noteq> [] \<and> tc_DestinationAccountID c \<noteq> [] \<and>
     tc_SourceAccountID c \<noteq> tc_DestinationAccountID c \<and> 0 < tc_Amount c \<and> currencyRe (tc_Currency c) \<and>
     length (tc_Description c) \<le> 512 \<and> length (tc_ExternalReference c) \<le> 256"
  by (auto simp: ValidateTransfer_def)

lemma ValidateCreateAccount_None:
  "ValidateCreateAccount c = None \<longleftrightarrow>
     accountIDRe (ca_ID c) \<and> currencyRe (ca_Currency c) \<and> (ca_Kind c = KindUser \<or> ca_Kind c = KindSystem) \<and>
     (ca_AllowOverdraft c \<longrightarrow> ca_Kind c = KindSystem)"
  by (auto simp: ValidateCreateAccount_def)

lemma Validate_app:
  "ValidateTransfer c = Some e \<Longrightarrow> err_code e = CodeInvalidRequest"
  "ValidateCreateAccount ca = Some e \<Longrightarrow> err_code e = CodeInvalidRequest"
  by (auto simp: ValidateTransfer_def ValidateCreateAccount_def apperr_defs split: if_splits)

end
