(* ===== verification/Ledger_Repo.thy ===== *)
theory Ledger_Repo
  imports Ledger_Model
begin

text \<open>
  \<open>internal/ledger/repo.go\<close>: the SQL of the ledger. Every Go function is a call on the
  world; the statement it runs is defined beside it over the tables of the schema.
\<close>

record lockedAccount =
  la_ID :: string
  la_Currency :: string
  la_Kind :: string
  la_AllowOverdraft :: bool
  la_Balance :: int
  la_Version :: int

subsection \<open>Statements\<close>

text \<open>The join of a balance with its account.\<close>

definition lock_stmt :: "string \<Rightarrow> time \<Rightarrow> database \<Rightarrow> goerr + lockedAccount \<times> database" where
  "lock_stmt i now d =
     (case (balance_of d i, account_of d i) of
        (Some b, Some a) \<Rightarrow>
          Inr (\<lparr>la_ID = a_id a, la_Currency = a_currency a, la_Kind = a_kind a,
                la_AllowOverdraft = b_allow_overdraft b, la_Balance = b_amount b, la_Version = b_version b\<rparr>, d)
      | _ \<Rightarrow> Inl ErrNoRows)"

definition moved :: "int \<Rightarrow> time \<Rightarrow> balance_row \<Rightarrow> balance_row" where
  "moved delta now b = b\<lparr>b_amount := b_amount b + delta, b_version := b_version b + 1, b_updated_at := now\<rparr>"

definition update_balance_stmt :: "string \<Rightarrow> int \<Rightarrow> time \<Rightarrow> database \<Rightarrow> goerr + int \<times> database" where
  "update_balance_stmt i delta now d =
     (case balance_of d i of
        None \<Rightarrow> Inl ErrNoRows
      | Some b \<Rightarrow>
          checked
            [(in64 (b_amount b + delta), out_of_range), (in64 (b_version b + 1), out_of_range),
             (balances_check (moved delta now b), check_violation ''balances_non_negative'')]
            (b_amount b + delta,
             d\<lparr>balances := map (\<lambda>x. if b_account_id x = i then moved delta now x else x) (balances d)\<rparr>))"

definition insert_transaction_stmt :: "env \<Rightarrow> Transaction \<Rightarrow> time \<Rightarrow> database \<Rightarrow> goerr + unit \<times> database" where
  "insert_transaction_stmt env t now d =
     (case (uuid_in env (tx_ID t), uuid_param env (tx_ReversesTransactionID t)) of
        (Some i, Inr rv) \<Rightarrow>
          (let row = \<lparr>t_id = i, t_kind = tx_Kind t, t_currency = tx_Currency t, t_description = tx_Description t,
                      t_external_reference = tx_ExternalReference t, t_reverses = rv, t_created_at = now\<rparr>
           in checked (tx_constraints d row) ((), d\<lparr>ledger_transactions := ledger_transactions d @ [row]\<rparr>))
      | _ \<Rightarrow> Inl uuid_syntax)"

definition insert_entry_stmt :: "env \<Rightarrow> Entry \<Rightarrow> time \<Rightarrow> database \<Rightarrow> goerr + unit \<times> database" where
  "insert_entry_stmt env e now d =
     (case (uuid_in env (e_id e), uuid_in env (e_transaction_id e)) of
        (Some i, Some t) \<Rightarrow>
          (let row = e\<lparr>e_id := i, e_transaction_id := t, e_created_at := now\<rparr>
           in checked (entry_constraints d row) ((), d\<lparr>ledger_entries := ledger_entries d @ [row]\<rparr>))
      | _ \<Rightarrow> Inl uuid_syntax)"

definition insert_reversal_stmt ::
  "env \<Rightarrow> string \<Rightarrow> string \<Rightarrow> string \<Rightarrow> string \<Rightarrow> time \<Rightarrow> database \<Rightarrow> goerr + unit \<times> database" where
  "insert_reversal_stmt env i originalID reversalID reason now d =
     (case (uuid_in env i, uuid_in env originalID, uuid_in env reversalID) of
        (Some i', Some o', Some r') \<Rightarrow>
          (let row = \<lparr>r_id = i', r_original = o', r_reversal = r', r_reason = reason, r_created_at = now\<rparr>
           in checked (reversal_constraints d row) ((), d\<lparr>reversals := reversals d @ [row]\<rparr>))
      | _ \<Rightarrow> Inl uuid_syntax)"

definition insert_account_stmt ::
  "env \<Rightarrow> CreateAccountCommand \<Rightarrow> json \<Rightarrow> time \<Rightarrow> database \<Rightarrow> goerr + Account \<times> database" where
  "insert_account_stmt env cmd metaJSON now d =
     (let row = \<lparr>a_id = ca_ID cmd, a_currency = ca_Currency cmd, a_kind = ca_Kind cmd,
                 a_allow_overdraft = ca_AllowOverdraft cmd, a_metadata = jsonb env metaJSON, a_created_at = now\<rparr>
      in checked (accounts_constraints d row) (row, d\<lparr>accounts := accounts d @ [row]\<rparr>))"

definition insert_balance_stmt :: "string \<Rightarrow> bool \<Rightarrow> time \<Rightarrow> database \<Rightarrow> goerr + unit \<times> database" where
  "insert_balance_stmt i allowOverdraft now d =
     (let row = \<lparr>b_account_id = i, b_amount = 0, b_allow_overdraft = allowOverdraft, b_version = 0, b_updated_at = now\<rparr>
      in checked (balances_constraints d row) ((), d\<lparr>balances := balances d @ [row]\<rparr>))"

definition select_account_stmt :: "string \<Rightarrow> time \<Rightarrow> database \<Rightarrow> goerr + Account \<times> database" where
  "select_account_stmt i now d = (case account_of d i of None \<Rightarrow> Inl ErrNoRows | Some a \<Rightarrow> Inr (a, d))"

definition select_balance_stmt :: "string \<Rightarrow> time \<Rightarrow> database \<Rightarrow> goerr + Balance \<times> database" where
  "select_balance_stmt i now d =
     (case (balance_of d i, account_of d i) of
        (Some b, Some a) \<Rightarrow>
          Inr (\<lparr>bal_AccountID = b_account_id b, bal_Amount = b_amount b, bal_Currency = a_currency a,
                bal_Version = b_version b, bal_UpdatedAt = b_updated_at b\<rparr>, d)
      | _ \<Rightarrow> Inl ErrNoRows)"

text \<open>
  The scalar subquery \<open>reversed_by\<close> is an error when more than one row matches.
\<close>

definition reversed_by :: "database \<Rightarrow> string \<Rightarrow> goerr + string option" where
  "reversed_by d i =
     (case filter (\<lambda>r. t_reverses r = Some i) (ledger_transactions d) of
        [] \<Rightarrow> Inr None | [r] \<Rightarrow> Inr (Some (t_id r)) | _ \<Rightarrow> Inl cardinality_violation)"

definition select_transaction_stmt :: "env \<Rightarrow> string \<Rightarrow> time \<Rightarrow> database \<Rightarrow> goerr + Transaction \<times> database" where
  "select_transaction_stmt env i now d =
     (case uuid_in env i of
        None \<Rightarrow> Inl uuid_syntax
      | Some u \<Rightarrow>
          (case tx_of d u of
             None \<Rightarrow> Inl ErrNoRows
           | Some t \<Rightarrow>
               (case reversed_by d (t_id t) of
                  Inl e \<Rightarrow> Inl e
                | Inr rb \<Rightarrow>
                    Inr (\<lparr>tx_ID = t_id t, tx_Kind = t_kind t, tx_Currency = t_currency t,
                          tx_Description = t_description t, tx_ExternalReference = t_external_reference t,
                          tx_ReversesTransactionID = t_reverses t, tx_ReversedByTransactionID = rb,
                          tx_CreatedAt = t_created_at t, tx_Entries = []\<rparr>, d))))"

definition select_entries_stmt :: "env \<Rightarrow> string \<Rightarrow> time \<Rightarrow> database \<Rightarrow> goerr + Entry list \<times> database" where
  "select_entries_stmt env i now d =
     (case uuid_in env i of None \<Rightarrow> Inl uuid_syntax | Some u \<Rightarrow> Inr (sort_key e_seq (entries_of d u), d))"

definition distinct_accounts_stmt :: "env \<Rightarrow> string \<Rightarrow> time \<Rightarrow> database \<Rightarrow> goerr + string list \<times> database" where
  "distinct_accounts_stmt env i now d =
     (case uuid_in env i of
        None \<Rightarrow> Inl uuid_syntax | Some u \<Rightarrow> Inr (remdups (map e_account_id (entries_of d u)), d))"

subsection \<open>Operations\<close>

definition lockRow :: "env \<Rightarrow> string \<Rightarrow> lockedAccount comp" where
  "lockRow env i w =
     (case sql env (lock_stmt i) w of
        (Ret a, w') \<Rightarrow> (Ret a, w'\<lparr>row_locks := row_locks w' @ [i]\<rparr>)
      | other \<Rightarrow> other)"

fun lockLoop :: "env \<Rightarrow> string list \<Rightarrow> (string \<rightharpoonup> lockedAccount) \<Rightarrow> (string \<rightharpoonup> lockedAccount) comp" where
  "lockLoop env [] out = ret out"
| "lockLoop env (i # ordered) out =
     (if out i \<noteq> None then lockLoop env ordered out
      else andThen
        (mapErr (\<lambda>e. if errIs e ErrNoRows then UnknownAccount i
                     else Wrap (Sprintf ''ledger: lock balance %q: %w'' [AStr i]) e) (lockRow env i))
        (\<lambda>acct. lockLoop env ordered (out(i \<mapsto> acct))))"

definition lockBalances :: "env \<Rightarrow> string list \<Rightarrow> (string \<rightharpoonup> lockedAccount) comp" where
  "lockBalances env accountIDs = lockLoop env (sort accountIDs) Map.empty"

definition applyBalanceDelta :: "env \<Rightarrow> string \<Rightarrow> int \<Rightarrow> int comp" where
  "applyBalanceDelta env accountID delta =
     mapErr (\<lambda>e. if IsCheckViolation e ''balances_non_negative'' then InsufficientFunds accountID
                 else if errIs e ErrNoRows then UnknownAccount accountID
                 else Wrap (Sprintf ''ledger: update balance %q: %w'' [AStr accountID]) e)
       (sql env (update_balance_stmt accountID delta))"

definition derefString :: "string option \<Rightarrow> string" where
  "derefString s = (case s of None \<Rightarrow> [] | Some v \<Rightarrow> v)"

definition alreadyReversed :: "string \<Rightarrow> goerr" where
  "alreadyReversed i =
     WithDetail (New CodeTransactionAlreadyReversed ''transaction %q has already been reversed'' [AStr i])
       ''transaction_id'' (AStr i)"

definition insertTransaction :: "env \<Rightarrow> Transaction \<Rightarrow> unit comp" where
  "insertTransaction env t =
     mapErr (\<lambda>e. if IsUniqueViolation e ''ledger_transactions_one_reversal''
                 then alreadyReversed (derefString (tx_ReversesTransactionID t))
                 else Wrap (Sprintf ''ledger: insert transaction: %w'' []) e)
       (sql env (insert_transaction_stmt env t))"

fun insertEntries :: "env \<Rightarrow> Entry list \<Rightarrow> unit comp" where
  "insertEntries env [] = ret ()"
| "insertEntries env (e # es) =
     andThen
       (mapErr (\<lambda>err. if IsForeignKeyViolation err
                      then CurrencyMismatch ''entry for account %q does not match the transaction currency %s''
                        [AStr (e_account_id e), AStr (e_currency e)]
                      else Wrap (Sprintf ''ledger: insert entry: %w'' []) err)
         (sql env (insert_entry_stmt env e)))
       (\<lambda>_. insertEntries env es)"

definition insertReversalRecord :: "env \<Rightarrow> string \<Rightarrow> string \<Rightarrow> string \<Rightarrow> string \<Rightarrow> unit comp" where
  "insertReversalRecord env i originalID reversalID reason =
     mapErr (\<lambda>e. if IsUniqueViolation e [] then alreadyReversed originalID
                 else Wrap (Sprintf ''ledger: insert reversal: %w'' []) e)
       (sql env (insert_reversal_stmt env i originalID reversalID reason))"

fun str_contains :: "string \<Rightarrow> string \<Rightarrow> bool" where
  "str_contains [] sub = (sub = [])"
| "str_contains (c # cs) sub = (take (length sub) (c # cs) = sub \<or> str_contains cs sub)"

definition loadTransaction :: "env \<Rightarrow> string \<Rightarrow> Transaction comp" where
  "loadTransaction env i =
     andThen
       (mapErr (\<lambda>e. if errIs e ErrNoRows then
                      WithDetail (New CodeTransactionNotFound ''transaction %q does not exist'' [AStr i])
                        ''transaction_id'' (AStr i)
                    else if str_contains (err_text env e) ''invalid input syntax for type uuid'' then
                      InvalidRequest ''transaction id must be a UUID'' []
                    else Wrap (Sprintf ''ledger: get transaction: %w'' []) e)
         (sql env (select_transaction_stmt env i)))
       (\<lambda>t. andThen (mapErr (Wrap (Sprintf ''ledger: get entries: %w'' [])) (sql env (select_entries_stmt env i)))
         (\<lambda>es. ret (t\<lparr>tx_Entries := es\<rparr>)))"

definition listAccountsForTransaction :: "env \<Rightarrow> string \<Rightarrow> string list comp" where
  "listAccountsForTransaction env transactionID =
     mapErr (Wrap (Sprintf ''ledger: list transaction accounts: %w'' []))
       (sql env (distinct_accounts_stmt env transactionID))"

text \<open>
  \<open>json.Unmarshal\<close> of the metadata column into a map: anything but an object or null is an
  error, and the metadata is then the empty map.
\<close>

definition unmarshalMetadata :: "json \<Rightarrow> json" where
  "unmarshalMetadata raw = (case raw of JObj ms \<Rightarrow> JObj ms | JNull \<Rightarrow> JNull | _ \<Rightarrow> JObj [])"

definition GetAccount :: "env \<Rightarrow> string \<Rightarrow> Account comp" where
  "GetAccount env i =
     mapErr (\<lambda>e. if errIs e ErrNoRows then UnknownAccount i else Wrap (Sprintf ''ledger: get account: %w'' []) e)
       (andThen (pool_sql env (select_account_stmt i))
         (\<lambda>acct. ret (acct\<lparr>a_metadata := unmarshalMetadata (a_metadata acct)\<rparr>)))"

definition GetBalance :: "env \<Rightarrow> string \<Rightarrow> Balance comp" where
  "GetBalance env i =
     mapErr (\<lambda>e. if errIs e ErrNoRows then UnknownAccount i else Wrap (Sprintf ''ledger: get balance: %w'' []) e)
       (pool_sql env (select_balance_stmt i))"

definition GetTransaction :: "env \<Rightarrow> string \<Rightarrow> Transaction comp" where
  "GetTransaction env i = loadTransaction env i"

end
