(* ===== verification/Observability.thy ===== *)
theory Observability
  imports Failpoint
begin

text \<open>
  The context of a request: the identifiers of \<open>internal/observability/logging.go\<close> and the
  failpoint overrides. Log records have no effect on the program's state; the loggers themselves are
  in \<open>Process\<close>, the metrics in \<open>Metrics\<close>.
\<close>

record ctx =
  cx_request_id :: "string option"
  cx_correlation_id :: "string option"
  cx_transaction_id :: "string option"
  cx_failpoints :: overrides

definition Background :: ctx where
  "Background = \<lparr>cx_request_id = None, cx_correlation_id = None, cx_transaction_id = None, cx_failpoints = None\<rparr>"

definition WithRequestID :: "ctx \<Rightarrow> string \<Rightarrow> ctx" where
  "WithRequestID c i = c\<lparr>cx_request_id := Some i\<rparr>"

definition WithCorrelationID :: "ctx \<Rightarrow> string \<Rightarrow> ctx" where
  "WithCorrelationID c i = c\<lparr>cx_correlation_id := Some i\<rparr>"

definition WithTransactionID :: "ctx \<Rightarrow> string \<Rightarrow> ctx" where
  "WithTransactionID c i = c\<lparr>cx_transaction_id := Some i\<rparr>"

definition stringValue :: "string option \<Rightarrow> string" where
  "stringValue v = (case v of Some s \<Rightarrow> s | None \<Rightarrow> [])"

definition RequestID :: "ctx \<Rightarrow> string" where
  "RequestID c = stringValue (cx_request_id c)"

definition CorrelationID :: "ctx \<Rightarrow> string" where
  "CorrelationID c = stringValue (cx_correlation_id c)"

definition TransactionIDOf :: "ctx \<Rightarrow> string" where
  "TransactionIDOf c = stringValue (cx_transaction_id c)"

end
