(* ===== verification/Ledger_Service.thy ===== *)
theory Ledger_Service
  imports Ledger_Repo Observability
begin

text \<open>
  \<open>internal/ledger/service.go\<close> (and \<open>CreateAccount\<close> of \<open>repo.go\<close>): the use cases, each one
  transaction. The opening steps the three transaction bodies share (lock the key, claim
  it, replay an existing record) are \<open>withKey\<close>.
\<close>

subsection \<open>Helpers\<close>

text \<open>The insertion sort of \<open>sortedEntriesByAccount\<close>, with its two loops on indices.\<close>

fun sift :: "Entry list \<Rightarrow> nat \<Rightarrow> Entry list" where
  "sift out 0 = out"
| "sift out (Suc j) =
     (if e_account_id (out ! Suc j) < e_account_id (out ! j)
      then sift (out[Suc j := out ! j, j := out ! Suc j]) j
      else out)"

definition sortedEntriesByAccount :: "Entry list \<Rightarrow> Entry list" where
  "sortedEntriesByAccount entries = fold (\<lambda>i out. sift out i) [1..<length entries] entries"

definition entryData :: "Entry list \<Rightarrow> EntryData list" where
  "entryData entries = map (\<lambda>e. \<lparr>ed_EntryID = e_id e, ed_AccountID = e_account_id e, ed_Amount = e_amount e,
     ed_Currency = e_currency e, ed_Seq = e_seq e\<rparr>) entries"

fun gross_loop :: "int \<Rightarrow> Entry list \<Rightarrow> int" where
  "gross_loop acc [] = acc"
| "gross_loop acc (e # es) = gross_loop (if e_amount e > 0 then wrap64 (acc + e_amount e) else acc) es"

definition reversalAmount :: "Transaction \<Rightarrow> int" where
  "reversalAmount t = gross_loop 0 (tx_Entries t)"

definition reversalDescription :: "Transaction \<Rightarrow> string \<Rightarrow> string" where
  "reversalDescription original reason =
     (if reason \<noteq> [] then ''Reversal of '' @ tx_ID original @ '': '' @ reason
      else ''Reversal of '' @ tx_ID original)"

text \<open>Reading a map of pointers and dereferencing the result.\<close>

definition deref :: "'a option \<Rightarrow> 'a comp" where
  "deref p w = (case p of None \<Rightarrow> (Panic ''invalid memory address or nil pointer dereference'', w) | Some x \<Rightarrow> (Ret x, w))"

definition failIf :: "ctx \<Rightarrow> string \<Rightarrow> unit comp" where
  "failIf ctx name = mapErr Internal (fpEval (cx_failpoints ctx) name)"

fun applyDeltas :: "env \<Rightarrow> Entry list \<Rightarrow> unit comp" where
  "applyDeltas env [] = ret ()"
| "applyDeltas env (e # es) =
     andThen (applyBalanceDelta env (e_account_id e) (e_amount e)) (\<lambda>_. applyDeltas env es)"

definition replayResult :: "env \<Rightarrow> idem_record \<Rightarrow> string \<Rightarrow> string \<Rightarrow> Result comp" where
  "replayResult env rec requestHash key =
     (if rec_RequestHash rec \<noteq> requestHash then throw (Conflict key)
      else if rec_State rec \<noteq> StateCompleted then throw (InProgress key)
      else
        let result = \<lparr>res_Transaction = None, res_ResponseStatus = rec_ResponseStatus rec,
                      res_ResponseBody = rec_ResponseBody rec, res_Replayed = True\<rparr>
        in case rec_TransactionID rec of
             None \<Rightarrow> ret result
           | Some i \<Rightarrow> andThen (loadTransaction env i) (\<lambda>txn. ret (result\<lparr>res_Transaction := Some txn\<rparr>)))"

definition withKey :: "env \<Rightarrow> string \<Rightarrow> string \<Rightarrow> string \<Rightarrow> Result comp \<Rightarrow> Result comp" where
  "withKey env scope key requestHash work =
     andThen (LockKey env scope key) (\<lambda>_.
     andThen (Claim env scope key requestHash) (\<lambda>existing.
       case existing of
         Some rec \<Rightarrow> replayResult env rec requestHash key
       | None \<Rightarrow> work))"

definition writeOutboxEvent :: "env \<Rightarrow> Config \<Rightarrow> ctx \<Rightarrow> Transaction \<Rightarrow> string \<Rightarrow> PaymentData \<Rightarrow> unit comp" where
  "writeOutboxEvent env cfg ctx txn eventType data =
     andThen (newUUID env) (\<lambda>eventID.
       let envelope = \<lparr>ev_EventID = eventID, ev_EventType = eventType, ev_SchemaVersion = SchemaVersion,
                       ev_TransactionID = tx_ID txn, ev_OccurredAt = tx_CreatedAt txn,
                       ev_CorrelationID = CorrelationID ctx, ev_Replay = None,
                       ev_Data = marshalPaymentData data\<rparr>
       in Insert env
         \<lparr>or_ID = eventID, or_Topic = TopicForEvent cfg eventType, or_EventType = eventType,
          or_AggregateID = tx_ID txn, or_PartitionKey = tx_ID txn, or_Payload = marshalEnvelope envelope,
          or_Headers = [(''event_type'', eventType), (''correlation_id'', CorrelationID ctx),
                        (''schema_version'', ''1'')],
          or_Status = [], or_Attempts = 0, or_LastError = [], or_NextAttemptAt = 0, or_CreatedAt = 0\<rparr>)"

subsection \<open>CreateAccount\<close>

definition createAccountWork :: "env \<Rightarrow> CreateAccountCommand \<Rightarrow> json \<Rightarrow> Result comp" where
  "createAccountWork env cmd metaJSON =
     andThen (mapErr (\<lambda>e. if IsUniqueViolation e [] then
                            WithDetail (New CodeAccountExists ''account %q already exists'' [AStr (ca_ID cmd)])
                              ''account_id'' (AStr (ca_ID cmd))
                          else Wrap (Sprintf ''ledger: insert account: %w'' []) e)
         (sql env (insert_account_stmt env cmd metaJSON))) (\<lambda>row.
     andThen (mapErr (Wrap (Sprintf ''ledger: insert balance: %w'' []))
         (sql env (insert_balance_stmt (ca_ID cmd) (ca_AllowOverdraft cmd)))) (\<lambda>_.
       let body = marshalAccount (row\<lparr>a_metadata := unmarshalMetadata (a_metadata row)\<rparr>)
       in andThen (Complete env (ca_IdempotencyScope cmd) (ca_IdempotencyKey cmd) 201 body None) (\<lambda>_.
          ret \<lparr>res_Transaction = None, res_ResponseStatus = 201, res_ResponseBody = Some body, res_Replayed = False\<rparr>)))"

definition CreateAccount :: "env \<Rightarrow> Config \<Rightarrow> CreateAccountCommand \<Rightarrow> Result comp" where
  "CreateAccount env cfg cmd =
     (case ValidateCreateAccount cmd of
        Some e \<Rightarrow> throw e
      | None \<Rightarrow>
          (let metaJSON = (case ca_Metadata cmd of None \<Rightarrow> JObj [] | Some m \<Rightarrow> m)
           in InTx env (DBMaxTxRetries cfg)
                (withKey env (ca_IdempotencyScope cmd) (ca_IdempotencyKey cmd) (ca_RequestHash cmd)
                  (createAccountWork env cmd metaJSON))))"

subsection \<open>Transfer\<close>

definition fundsError :: "lockedAccount \<Rightarrow> TransferCommand \<Rightarrow> goerr" where
  "fundsError source cmd =
     WithDetail (WithDetail (InsufficientFunds (la_ID source)) ''balance'' (AInt (la_Balance source)))
       ''requested'' (AInt (tc_Amount cmd))"

definition currencyError :: "string \<Rightarrow> lockedAccount \<Rightarrow> TransferCommand \<Rightarrow> goerr" where
  "currencyError format acct cmd =
     WithDetail (WithDetail
       (CurrencyMismatch format [AStr (la_ID acct), AStr (la_Currency acct), AStr (tc_Currency cmd)])
       ''account_id'' (AStr (la_ID acct))) ''account_currency'' (AStr (la_Currency acct))"

definition newTransfer ::
  "string \<Rightarrow> TransferCommand \<Rightarrow> lockedAccount \<Rightarrow> lockedAccount \<Rightarrow> time \<Rightarrow> string \<Rightarrow> string \<Rightarrow> Transaction" where
  "newTransfer txID cmd source dest now id0 id1 =
     \<lparr>tx_ID = txID, tx_Kind = (if la_Kind source = KindSystem then TxKindFunding else TxKindTransfer),
      tx_Currency = tc_Currency cmd, tx_Description = tc_Description cmd,
      tx_ExternalReference = (if tc_ExternalReference cmd \<noteq> [] then Some (tc_ExternalReference cmd) else None),
      tx_ReversesTransactionID = None, tx_ReversedByTransactionID = None, tx_CreatedAt = now,
      tx_Entries =
        [\<lparr>e_id = id0, e_transaction_id = txID, e_account_id = la_ID source, e_amount = wrap64 (- tc_Amount cmd),
          e_currency = tc_Currency cmd, e_seq = 0, e_created_at = 0\<rparr>,
         \<lparr>e_id = id1, e_transaction_id = txID, e_account_id = la_ID dest, e_amount = tc_Amount cmd,
          e_currency = tc_Currency cmd, e_seq = 1, e_created_at = 0\<rparr>]\<rparr>"

definition transferData :: "Transaction \<Rightarrow> TransferCommand \<Rightarrow> lockedAccount \<Rightarrow> lockedAccount \<Rightarrow> PaymentData" where
  "transferData txn cmd source dest =
     \<lparr>pd_TransactionID = tx_ID txn, pd_Kind = tx_Kind txn, pd_Currency = tx_Currency txn,
      pd_Amount = tc_Amount cmd, pd_SourceAccountID = la_ID source, pd_DestinationAccountID = la_ID dest,
      pd_Description = tc_Description cmd, pd_ExternalReference = tc_ExternalReference cmd,
      pd_ReversesTransactionID = [], pd_Reason = [], pd_CreatedAt = tx_CreatedAt txn,
      pd_Entries = entryData (tx_Entries txn)\<rparr>"

text \<open>The second half of \<open>executeTransfer\<close>: the writes, once the accounts are locked and checked.\<close>

definition recordTransfer ::
  "env \<Rightarrow> Config \<Rightarrow> ctx \<Rightarrow> TransferCommand \<Rightarrow> lockedAccount \<Rightarrow> lockedAccount \<Rightarrow> Transaction \<Rightarrow> Result comp" where
  "recordTransfer env cfg ctx cmd source dest txn =
     andThen (insertTransaction env txn) (\<lambda>_.
     andThen (insertEntries env (tx_Entries txn)) (\<lambda>_.
     andThen (failIf ctx AfterEntriesWritten) (\<lambda>_.
     andThen (applyDeltas env (sortedEntriesByAccount (tx_Entries txn))) (\<lambda>_.
     andThen (failIf ctx AfterBalancesUpdated) (\<lambda>_.
     andThen (writeOutboxEvent env cfg ctx txn EventPaymentCreated (transferData txn cmd source dest)) (\<lambda>_.
     andThen (failIf ctx AfterOutboxWritten) (\<lambda>_.
     andThen (loadTransaction env (tx_ID txn)) (\<lambda>stored.
     andThen (Complete env (tc_IdempotencyScope cmd) (tc_IdempotencyKey cmd) 201 (marshalTransaction stored)
         (Some (tx_ID txn))) (\<lambda>_.
     andThen (failIf ctx BeforeCommit) (\<lambda>_.
     ret \<lparr>res_Transaction = Some stored, res_ResponseStatus = 201,
          res_ResponseBody = Some (marshalTransaction stored), res_Replayed = False\<rparr>))))))))))"

definition executeTransfer :: "env \<Rightarrow> Config \<Rightarrow> ctx \<Rightarrow> string \<Rightarrow> TransferCommand \<Rightarrow> Result comp" where
  "executeTransfer env cfg ctx txID cmd =
     andThen (lockBalances env [tc_SourceAccountID cmd, tc_DestinationAccountID cmd]) (\<lambda>accts.
     andThen (failIf ctx AfterAccountsLocked) (\<lambda>_.
     andThen (deref (accts (tc_SourceAccountID cmd))) (\<lambda>source.
     andThen (deref (accts (tc_DestinationAccountID cmd))) (\<lambda>dest.
     if la_Currency source \<noteq> tc_Currency cmd then
       throw (currencyError ''source account %q holds %s but the transfer is in %s'' source cmd)
     else if la_Currency dest \<noteq> tc_Currency cmd then
       throw (currencyError ''destination account %q holds %s but the transfer is in %s'' dest cmd)
     else if \<not> la_AllowOverdraft source \<and> la_Balance source < tc_Amount cmd then
       throw (fundsError source cmd)
     else
       andThen (goNow env) (\<lambda>now.
       andThen (newUUID env) (\<lambda>id0.
       andThen (newUUID env) (\<lambda>id1.
       recordTransfer env cfg ctx cmd source dest (newTransfer txID cmd source dest now id0 id1))))))))"

definition transferBody :: "env \<Rightarrow> Config \<Rightarrow> ctx \<Rightarrow> string \<Rightarrow> TransferCommand \<Rightarrow> Result comp" where
  "transferBody env cfg ctx txID cmd =
     withKey env (tc_IdempotencyScope cmd) (tc_IdempotencyKey cmd) (tc_RequestHash cmd)
       (executeTransfer env cfg ctx txID cmd)"

definition lostResponse :: "goerr \<Rightarrow> goerr" where
  "lostResponse e = Internal (Wrap (Sprintf ''response lost after commit: %w'' []) e)"

definition Transfer :: "env \<Rightarrow> Config \<Rightarrow> ctx \<Rightarrow> TransferCommand \<Rightarrow> Result comp" where
  "Transfer env cfg ctx cmd =
     (case ValidateTransfer cmd of
        Some e \<Rightarrow> throw e
      | None \<Rightarrow>
          andThen (failIf ctx BeforeTxBegin) (\<lambda>_.
          andThen (newUUID env) (\<lambda>txID.
          andThen (InTx env (DBMaxTxRetries cfg) (transferBody env cfg (WithTransactionID ctx txID) txID cmd)) (\<lambda>result.
          if res_Replayed result then ret result
          else andThen (mapErr lostResponse (fpEval (cx_failpoints ctx) AfterCommit)) (\<lambda>_. ret result)))))"

subsection \<open>Reverse\<close>

fun mirrorEntries :: "env \<Rightarrow> string \<Rightarrow> Entry list \<Rightarrow> Entry list \<Rightarrow> Entry list comp" where
  "mirrorEntries env reversalID [] acc = ret acc"
| "mirrorEntries env reversalID (e # es) acc =
     andThen (newUUID env) (\<lambda>i.
       mirrorEntries env reversalID es
         (acc @ [\<lparr>e_id = i, e_transaction_id = reversalID, e_account_id = e_account_id e,
                  e_amount = wrap64 (- e_amount e), e_currency = e_currency e, e_seq = e_seq e, e_created_at = 0\<rparr>]))"

definition newReversal :: "string \<Rightarrow> Transaction \<Rightarrow> string \<Rightarrow> time \<Rightarrow> Entry list \<Rightarrow> Transaction" where
  "newReversal reversalID original reason now es =
     \<lparr>tx_ID = reversalID, tx_Kind = TxKindReversal, tx_Currency = tx_Currency original,
      tx_Description = reversalDescription original reason, tx_ExternalReference = None,
      tx_ReversesTransactionID = Some (tx_ID original), tx_ReversedByTransactionID = None,
      tx_CreatedAt = now, tx_Entries = es\<rparr>"

definition reversalData :: "Transaction \<Rightarrow> Transaction \<Rightarrow> string \<Rightarrow> PaymentData" where
  "reversalData reversal original reason =
     \<lparr>pd_TransactionID = tx_ID reversal, pd_Kind = tx_Kind reversal, pd_Currency = tx_Currency reversal,
      pd_Amount = reversalAmount original, pd_SourceAccountID = [], pd_DestinationAccountID = [],
      pd_Description = [], pd_ExternalReference = [], pd_ReversesTransactionID = tx_ID original,
      pd_Reason = reason, pd_CreatedAt = tx_CreatedAt reversal, pd_Entries = entryData (tx_Entries reversal)\<rparr>"

text \<open>The second half of the body of \<open>Reverse\<close>: the writes, once the accounts are locked.\<close>

definition recordReversal ::
  "env \<Rightarrow> Config \<Rightarrow> ctx \<Rightarrow> ReverseCommand \<Rightarrow> Transaction \<Rightarrow> Transaction \<Rightarrow> Result comp" where
  "recordReversal env cfg ctx cmd original reversal =
     andThen (insertTransaction env reversal) (\<lambda>_.
     andThen (insertEntries env (tx_Entries reversal)) (\<lambda>_.
     andThen (failIf ctx AfterEntriesWritten) (\<lambda>_.
     andThen (applyDeltas env (sortedEntriesByAccount (tx_Entries reversal))) (\<lambda>_.
     andThen (failIf ctx AfterBalancesUpdated) (\<lambda>_.
     andThen (newUUID env) (\<lambda>recordID.
     andThen (insertReversalRecord env recordID (tx_ID original) (tx_ID reversal) (rc_Reason cmd)) (\<lambda>_.
     andThen (writeOutboxEvent env cfg ctx reversal EventPaymentReversed
         (reversalData reversal original (rc_Reason cmd))) (\<lambda>_.
     andThen (failIf ctx AfterOutboxWritten) (\<lambda>_.
     andThen (loadTransaction env (tx_ID reversal)) (\<lambda>stored.
     andThen (Complete env (rc_IdempotencyScope cmd) (rc_IdempotencyKey cmd) 201 (marshalTransaction stored)
         (Some (tx_ID reversal))) (\<lambda>_.
     andThen (failIf ctx BeforeCommit) (\<lambda>_.
     ret \<lparr>res_Transaction = Some stored, res_ResponseStatus = 201,
          res_ResponseBody = Some (marshalTransaction stored), res_Replayed = False\<rparr>))))))))))))"

definition executeReverse :: "env \<Rightarrow> Config \<Rightarrow> ctx \<Rightarrow> string \<Rightarrow> ReverseCommand \<Rightarrow> Result comp" where
  "executeReverse env cfg ctx reversalID cmd =
     andThen (loadTransaction env (rc_TransactionID cmd)) (\<lambda>original.
     if tx_Kind original = TxKindReversal then
       throw (InvalidRequest ''a reversal transaction cannot itself be reversed'' [])
     else case tx_ReversedByTransactionID original of
       Some by \<Rightarrow>
         throw (WithDetail (WithDetail (New CodeTransactionAlreadyReversed
             ''transaction %q has already been reversed by %q'' [AStr (tx_ID original), AStr by])
             ''transaction_id'' (AStr (tx_ID original))) ''reversal_transaction_id'' (AStr by))
     | None \<Rightarrow>
       andThen (listAccountsForTransaction env (tx_ID original)) (\<lambda>accountIDs.
       andThen (lockBalances env accountIDs) (\<lambda>_.
       andThen (failIf ctx AfterAccountsLocked) (\<lambda>_.
       andThen (goNow env) (\<lambda>now.
       andThen (mirrorEntries env reversalID (tx_Entries original) []) (\<lambda>es.
       recordReversal env cfg ctx cmd original (newReversal reversalID original (rc_Reason cmd) now es)))))))"

definition reverseBody :: "env \<Rightarrow> Config \<Rightarrow> ctx \<Rightarrow> string \<Rightarrow> ReverseCommand \<Rightarrow> Result comp" where
  "reverseBody env cfg ctx reversalID cmd =
     withKey env (rc_IdempotencyScope cmd) (rc_IdempotencyKey cmd) (rc_RequestHash cmd)
       (executeReverse env cfg ctx reversalID cmd)"

definition Reverse :: "env \<Rightarrow> Config \<Rightarrow> ctx \<Rightarrow> ReverseCommand \<Rightarrow> Result comp" where
  "Reverse env cfg ctx cmd =
     (if rc_TransactionID cmd = [] then throw (InvalidRequest ''transaction id is required'' [])
      else
        andThen (failIf ctx BeforeTxBegin) (\<lambda>_.
        andThen (newUUID env) (\<lambda>reversalID.
        andThen (InTx env (DBMaxTxRetries cfg) (reverseBody env cfg (WithTransactionID ctx reversalID) reversalID cmd)) (\<lambda>result.
        andThen (mapErr lostResponse (fpEval (cx_failpoints ctx) AfterCommit)) (\<lambda>_. ret result)))))"

end
