(* ===== verification/Entry_Sort.thy ===== *)
theory Entry_Sort
  imports Ledger_Service
begin

text \<open>
  The insertion sort of \<open>sortedEntriesByAccount\<close> (\<open>internal/ledger/service.go\<close>), which works
  with index swaps, equals the library's stable sort by account.
\<close>

text \<open>One run of the inner loop moves the element behind a sorted prefix to its place.\<close>

lemma sift_place:
  assumes "sorted (map e_account_id xs)"
  shows "sift (xs @ x # ys) (length xs) =
    takeWhile (\<lambda>y. e_account_id y \<le> e_account_id x) xs @ x #
    dropWhile (\<lambda>y. e_account_id y \<le> e_account_id x) xs @ ys"
  using assms
proof (induction xs arbitrary: ys rule: rev_induct)
  case Nil
  then show ?case by simp
next
  case (snoc y xs)
  let ?P = "\<lambda>z. e_account_id z \<le> e_account_id x"
  have srt: "sorted (map e_account_id xs)" and le: "\<forall>z \<in> set xs. e_account_id z \<le> e_account_id y"
    using snoc.prems by (auto simp: sorted_append)
  show ?case
  proof (cases "e_account_id x < e_account_id y")
    case True
    have "sift ((xs @ [y]) @ x # ys) (length (xs @ [y])) = sift (xs @ x # y # ys) (length xs)"
      using True by (simp add: nth_append list_update_append)
    also have "\<dots> = takeWhile ?P xs @ x # dropWhile ?P xs @ y # ys" by (rule snoc.IH[OF srt])
    also have "\<dots> = takeWhile ?P (xs @ [y]) @ x # dropWhile ?P (xs @ [y]) @ ys"
      using True by (cases "\<forall>z \<in> set xs. ?P z")
        (auto simp: takeWhile_tail dropWhile_append3 takeWhile_append2 dropWhile_append2 not_le
          dest: takeWhile_append1 dropWhile_append1)
    finally show ?thesis .
  next
    case False
    with le have all: "\<forall>z \<in> set (xs @ [y]). ?P z" by force
    have "sift ((xs @ [y]) @ x # ys) (length (xs @ [y])) = (xs @ [y]) @ x # ys"
      using False by (simp add: nth_append)
    with all show ?thesis
      by (simp only: takeWhile_eq_all_conv[THEN iffD2, OF all] dropWhile_eq_Nil_conv[THEN iffD2, OF all]) simp
  qed
qed

text \<open>The invariant of the outer loop.\<close>

definition sorted_prefix :: "Entry list \<Rightarrow> nat \<Rightarrow> Entry list \<Rightarrow> bool" where
  "sorted_prefix es i out \<longleftrightarrow> mset out = mset es \<and> sorted (map e_account_id (take i out)) \<and>
     (\<forall>k. filter (\<lambda>e. e_account_id e = k) out = filter (\<lambda>e. e_account_id e = k) es)"

lemma filter_place:
  assumes "sorted (map e_account_id xs)"
  shows "filter (\<lambda>e. e_account_id e = k)
      (takeWhile (\<lambda>y. e_account_id y \<le> e_account_id x) xs @ x #
       dropWhile (\<lambda>y. e_account_id y \<le> e_account_id x) xs)
    = filter (\<lambda>e. e_account_id e = k) (xs @ [x])"
proof -
  let ?P = "\<lambda>y. e_account_id y \<le> e_account_id x" and ?Q = "\<lambda>e. e_account_id e = k"
  have big: "e_account_id x < e_account_id z" if "z \<in> set (dropWhile ?P xs)" for z
    using assms that by (induction xs) (auto split: if_splits)
  have "filter ?Q xs = filter ?Q (takeWhile ?P xs) @ filter ?Q (dropWhile ?P xs)"
    by (simp flip: filter_append)
  moreover have "filter ?Q (dropWhile ?P xs) = []" if "e_account_id x = k"
    using big that by (fastforce simp: filter_empty_conv)
  ultimately show ?thesis by auto
qed

lemma sorted_place:
  assumes "sorted (map e_account_id xs)"
  shows "sorted (map e_account_id (takeWhile (\<lambda>y. e_account_id y \<le> e_account_id x) xs @ x #
       dropWhile (\<lambda>y. e_account_id y \<le> e_account_id x) xs))"
  using assms by (induction xs) (auto dest: set_takeWhileD set_dropWhileD)

lemma sift_prefix:
  assumes "sorted_prefix es i out" and "i < length es"
  shows "sorted_prefix es (Suc i) (sift out i)"
proof -
  have len: "length out = length es" using assms(1) by (metis sorted_prefix_def size_mset)
  define xs x ys where defs: "xs = take i out" "x = out ! i" "ys = drop (Suc i) out"
  have out: "out = xs @ x # ys" "length xs = i"
    using assms(2) len by (simp_all add: defs id_take_nth_drop[symmetric])
  have srt: "sorted (map e_account_id xs)" using assms(1) by (simp add: sorted_prefix_def defs)
  let ?P = "\<lambda>y. e_account_id y \<le> e_account_id x"
  let ?zs = "takeWhile ?P xs @ x # dropWhile ?P xs"
  have s: "sift out i = ?zs @ ys" using sift_place[OF srt, of x ys] out by simp
  have lz: "length ?zs = Suc i"
    by (metis length_append length_Cons takeWhile_dropWhile_id out(2) add_Suc_right)
  have "mset ?zs = add_mset x (mset (takeWhile ?P xs @ dropWhile ?P xs))"
    by (simp only: mset_append mset.simps union_mset_add_mset_right)
  then have m: "mset ?zs = mset (xs @ [x])" by simp
  have st: "sorted (map e_account_id (take (Suc i) (sift out i)))"
    using sorted_place[OF srt, of x] lz by (simp only: s take_append) simp
  have f: "filter (\<lambda>e. e_account_id e = k) (sift out i) = filter (\<lambda>e. e_account_id e = k) out" for k
  proof -
    have "filter (\<lambda>e. e_account_id e = k) (sift out i) =
        filter (\<lambda>e. e_account_id e = k) (xs @ [x]) @ filter (\<lambda>e. e_account_id e = k) ys"
      by (simp only: s filter_append[of _ ?zs] filter_place[OF srt])
    also have "\<dots> = filter (\<lambda>e. e_account_id e = k) out" by (subst out(1)) simp
    finally show ?thesis .
  qed
  have "mset out = mset (xs @ [x]) + mset ys" by (subst out(1)) simp
  then have "mset (sift out i) = mset out" unfolding s mset_append[of ?zs] m by simp
  with st f assms(1) show ?thesis unfolding sorted_prefix_def by metis
qed

lemma sortedEntriesByAccount_sort_key: "sortedEntriesByAccount es = sort_key e_account_id es"
proof -
  have step: "sorted_prefix es (Suc n) (fold (\<lambda>i out. sift out i) [1..<Suc n] es)" if "Suc n \<le> length es" for n
    using that
  proof (induction n)
    case 0
    then show ?case by (cases es) (auto simp: sorted_prefix_def)
  next
    case (Suc n)
    then have "sorted_prefix es (Suc n) (fold (\<lambda>i out. sift out i) [1..<Suc n] es)" by simp
    from sift_prefix[OF this] Suc.prems show ?case by simp
  qed
  have "sorted_prefix es (length es) (sortedEntriesByAccount es)"
    using step[of "length es - 1"] unfolding sortedEntriesByAccount_def
    by (cases "length es") (auto simp: sorted_prefix_def)
  then have m: "mset (sortedEntriesByAccount es) = mset es"
    and st: "sorted (map e_account_id (take (length es) (sortedEntriesByAccount es)))"
    and f: "filter (\<lambda>e. e_account_id e = k) (sortedEntriesByAccount es) = filter (\<lambda>e. e_account_id e = k) es" for k
    unfolding sorted_prefix_def by blast+
  have "length (sortedEntriesByAccount es) = length es" using m by (rule mset_eq_length)
  with st have "sorted (map e_account_id (sortedEntriesByAccount es))" by simp
  moreover have "filter (\<lambda>x. e_account_id k = e_account_id x) (sortedEntriesByAccount es)
      = filter (\<lambda>x. e_account_id k = e_account_id x) es" for k
    using f[of "e_account_id k"] by (simp add: eq_commute[of "e_account_id k"])
  ultimately show ?thesis using properties_for_sort_key[OF m] by metis
qed

end
