(* ===== verification/Ledger_Effects.thy ===== *)
theory Ledger_Effects
  imports Entry_Sort
begin

text \<open>
  What each call of the ledger has done when it returns a value: the rows it added or
  changed and the constraints it has passed. A failed call needs no such lemma, since the
  transaction around it is rolled back.
\<close>

lemma andThen_RetE:
  assumes "andThen m f w = (Ret y, w')"
  obtains x w1 where "m w = (Ret x, w1)" and "f x w1 = (Ret y, w')"
  using assms by (auto simp: andThen_Ret)

subsection \<open>Worlds that differ in nothing that matters\<close>

definition same_tx :: "world \<Rightarrow> world \<Rightarrow> bool" where
  "same_tx w w' \<longleftrightarrow> tx_now w' = tx_now w \<and> db w' = db w"

lemma same_tx_trans: "same_tx w w1 \<Longrightarrow> same_tx w1 w2 \<Longrightarrow> same_tx w w2"
  by (simp add: same_tx_def)

lemma failIf_Ret: "failIf ctx name w = (Ret u, w') \<Longrightarrow> same_tx w w' \<and> row_locks w' = row_locks w"
  by (auto simp: failIf_def ret_inv same_tx_def)

lemma newUUID_same: "newUUID env w = (Ret i, w') \<Longrightarrow> same_tx w w' \<and> row_locks w' = row_locks w"
  by (auto simp: ret_inv same_tx_def)

lemma goNow_same: "goNow env w = (Ret i, w') \<Longrightarrow> same_tx w w' \<and> row_locks w' = row_locks w"
  by (auto simp: ret_inv same_tx_def)

lemma deref_Ret [ret_inv]: "deref p w = (Ret x, w') \<longleftrightarrow> p = Some x \<and> w' = w"
  by (auto simp: deref_def split: option.splits)

lemma LockKey_Ret:
  "LockKey env s k w = (Ret u, w') \<Longrightarrow>
     same_tx w w' \<and> row_locks w' = row_locks w \<and> adv_locks w' = adv_locks w @ [lock_id s k]"
  by (auto simp: LockKey_def mapErr_def sql_def same_tx_def split: option.splits)

subsection \<open>The idempotency record\<close>

definition claimed_row :: "string \<Rightarrow> string \<Rightarrow> string \<Rightarrow> time \<Rightarrow> idem_row" where
  "claimed_row s k h now = \<lparr>i_scope = s, i_key = k, i_request_hash = h, i_state = StateInProgress,
     i_response_status = None, i_response_body = None, i_transaction_id = None,
     i_created_at = now, i_updated_at = now\<rparr>"

lemma claimed_row_fields [simp]:
  "i_scope (claimed_row s k h now) = s" "i_key (claimed_row s k h now) = k"
  "i_request_hash (claimed_row s k h now) = h"
  by (simp_all add: claimed_row_def)

lemma Claim_new:
  assumes "Claim env s k h w = (Ret None, w')"
  shows "idem_of (db w) s k = None \<and> tx_now w' = tx_now w \<and> row_locks w' = row_locks w \<and>
    db w' = (db w)\<lparr>idempotency_records := idempotency_records (db w) @ [claimed_row s k h (tx_now w)]\<rparr>"
  using assms
  by (auto simp: Claim_def ret_inv claim_stmt_def claimed_row_def split: if_splits option.splits)

lemma Claim_taken:
  assumes "Claim env s k h w = (Ret (Some rec), w')"
  shows "\<exists>r. idem_of (db w) s k = Some r \<and> rec = idem_record_of r \<and> same_tx w w' \<and> row_locks w' = row_locks w"
  using assms
  by (auto simp: Claim_def ret_inv claim_stmt_def Fetch_def fetch_stmt_def same_tx_def
      split: if_splits option.splits)

lemma loadTransaction_Ret:
  assumes "loadTransaction env i w = (Ret t, w')"
  shows "\<exists>u x rb. uuid_in env i = Some u \<and> tx_of (db w) u = Some x \<and> reversed_by (db w) u = Inr rb \<and>
    same_tx w w' \<and> row_locks w' = row_locks w \<and>
    t = \<lparr>tx_ID = u, tx_Kind = t_kind x, tx_Currency = t_currency x, tx_Description = t_description x,
         tx_ExternalReference = t_external_reference x, tx_ReversesTransactionID = t_reverses x,
         tx_ReversedByTransactionID = rb, tx_CreatedAt = t_created_at x,
         tx_Entries = sort_key e_seq (entries_of (db w) u)\<rparr>"
  using assms
  by (auto simp: loadTransaction_def ret_inv select_transaction_stmt_def select_entries_stmt_def same_tx_def
      split: option.splits sum.splits dest: tx_of_id)

lemma replayResult_Ret:
  assumes "replayResult env rec h k w = (Ret r, w')"
  shows "same_tx w w' \<and> rec_RequestHash rec = h \<and> rec_State rec = StateCompleted \<and> res_Replayed r \<and>
    res_ResponseStatus r = rec_ResponseStatus rec \<and> res_ResponseBody r = rec_ResponseBody rec"
proof (cases "rec_TransactionID rec")
  case None
  with assms show ?thesis
    by (auto simp: replayResult_def ret_inv same_tx_def Let_def split: if_splits)
next
  case (Some i)
  with assms obtain t where "loadTransaction env i w = (Ret t, w')" and "rec_RequestHash rec = h"
      "rec_State rec = StateCompleted"
      "r = \<lparr>res_Transaction = Some t, res_ResponseStatus = rec_ResponseStatus rec,
            res_ResponseBody = rec_ResponseBody rec, res_Replayed = True\<rparr>"
    by (auto simp: replayResult_def ret_inv Let_def split: if_splits)
  with loadTransaction_Ret[of env i w t w'] show ?thesis by auto
qed

text \<open>
  The two ways the shared prefix of a transaction body ends: a replay that has written
  nothing, or the work on a database that holds the claimed record.
\<close>

lemma withKey_Ret:
  assumes "withKey env s k h work w = (Ret r, w')"
  shows "(\<exists>row. idem_of (db w) s k = Some row \<and> i_request_hash row = h \<and> i_state row = StateCompleted \<and>
      db w' = db w \<and> res_Replayed r \<and> res_ResponseBody r = i_response_body row \<and>
      res_ResponseStatus r = (case i_response_status row of None \<Rightarrow> 0 | Some st \<Rightarrow> st))
    \<or> (idem_of (db w) s k = None \<and> (\<exists>w1. tx_now w1 = tx_now w \<and> row_locks w1 = row_locks w \<and>
      db w1 = (db w)\<lparr>idempotency_records := idempotency_records (db w) @ [claimed_row s k h (tx_now w)]\<rparr> \<and>
      work w1 = (Ret r, w')))"
proof -
  from assms obtain u w1 ex w2 where lk: "LockKey env s k w = (Ret u, w1)"
    and cl: "Claim env s k h w1 = (Ret ex, w2)"
    and rest: "(case ex of Some rec \<Rightarrow> replayResult env rec h k | None \<Rightarrow> work) w2 = (Ret r, w')"
    unfolding withKey_def by (elim andThen_RetE)
  have st: "same_tx w w1" "row_locks w1 = row_locks w" using LockKey_Ret[OF lk] by auto
  show ?thesis
  proof (cases ex)
    case None
    with Claim_new[of env s k h w1 w2] cl st rest show ?thesis by (auto simp: same_tx_def)
  next
    case (Some rec)
    with Claim_taken[of env s k h w1 rec w2] cl obtain row where
      row: "idem_of (db w1) s k = Some row" "rec = idem_record_of row" "same_tx w1 w2" by auto
    from Some rest have "replayResult env rec h k w2 = (Ret r, w')" by simp
    from replayResult_Ret[OF this] row st show ?thesis by (auto simp: same_tx_def idem_record_of_def)
  qed
qed

subsection \<open>Row locks\<close>

definition locked_view :: "database \<Rightarrow> string \<Rightarrow> lockedAccount option" where
  "locked_view d i =
     (case (balance_of d i, account_of d i) of
        (Some b, Some a) \<Rightarrow>
          Some \<lparr>la_ID = a_id a, la_Currency = a_currency a, la_Kind = a_kind a,
                la_AllowOverdraft = b_allow_overdraft b, la_Balance = b_amount b, la_Version = b_version b\<rparr>
      | _ \<Rightarrow> None)"

lemma locked_view_Some:
  "locked_view d i = Some a \<Longrightarrow> \<exists>b x. balance_of d i = Some b \<and> account_of d i = Some x \<and> la_ID a = i \<and>
     la_Currency a = a_currency x \<and> la_Kind a = a_kind x \<and> la_AllowOverdraft a = b_allow_overdraft b \<and>
     la_Balance a = b_amount b"
  by (auto simp: locked_view_def split: option.splits dest: account_of_id)

lemma lockRow_Ret:
  "lockRow env i w = (Ret a, w') \<Longrightarrow>
     same_tx w w' \<and> row_locks w' = row_locks w @ [i] \<and> locked_view (db w) i = Some a"
  by (auto simp: lockRow_def sql_def lock_stmt_def locked_view_def same_tx_def split: option.splits)

text \<open>
  The loop over the ordered identifiers: it locks each account once, in the order of the
  list, and returns what it read under the lock.
\<close>

lemma lockLoop_Ret:
  assumes "lockLoop env ids out w = (Ret m, w')"
  shows "same_tx w w' \<and> (\<forall>i. m i = (if i \<in> set ids \<and> out i = None then locked_view (db w) i else out i)) \<and>
    (\<forall>i \<in> set ids. out i = None \<longrightarrow> locked_view (db w) i \<noteq> None) \<and>
    (\<exists>L. row_locks w' = row_locks w @ L \<and> set L = set ids - dom out \<and> distinct L \<and> (sorted ids \<longrightarrow> sorted L))"
  using assms
proof (induction ids arbitrary: out w)
  case Nil
  then show ?case by (auto simp: ret_inv same_tx_def)
next
  case (Cons i ids)
  show ?case
  proof (cases "out i")
    case (Some x)
    with Cons.prems have "lockLoop env ids out w = (Ret m, w')" by simp
    from Cons.IH[OF this] Some show ?thesis by (auto simp: dom_def)
  next
    case None
    with Cons.prems obtain a w1 where l: "lockRow env i w = (Ret a, w1)"
      and rest: "lockLoop env ids (out(i \<mapsto> a)) w1 = (Ret m, w')"
      by (auto simp: ret_inv)
    from lockRow_Ret[OF l] have st: "same_tx w w1" "row_locks w1 = row_locks w @ [i]"
      and v: "locked_view (db w) i = Some a" by auto
    from Cons.IH[OF rest] obtain L where L: "row_locks w' = row_locks w1 @ L"
      "set L = set ids - dom (out(i \<mapsto> a))" "distinct L" "sorted ids \<longrightarrow> sorted L" by blast
    have "\<exists>L. row_locks w' = row_locks w @ L \<and> set L = set (i # ids) - dom out \<and> distinct L \<and>
        (sorted (i # ids) \<longrightarrow> sorted L)"
      by (rule exI[of _ "i # L"]) (use L st None in \<open>auto simp: dom_def\<close>)
    moreover from Cons.IH[OF rest] st have s2: "same_tx w w'" and dw: "db w1 = db w"
      by (auto simp: same_tx_def)
    moreover have "m j = (if j \<in> set (i # ids) \<and> out j = None then locked_view (db w) j else out j)" for j
      using Cons.IH[OF rest] v None dw by (cases "j = i") simp_all
    moreover have "locked_view (db w) j \<noteq> None" if "j \<in> set (i # ids)" "out j = None" for j
      using Cons.IH[OF rest] v None dw that by (cases "j = i") simp_all
    ultimately show ?thesis by blast
  qed
qed

lemma lockBalances_Ret:
  assumes "lockBalances env ids w = (Ret m, w')"
  shows "same_tx w w' \<and> (\<forall>i. m i = (if i \<in> set ids then locked_view (db w) i else None)) \<and>
    (\<forall>i \<in> set ids. locked_view (db w) i \<noteq> None) \<and>
    (\<exists>L. row_locks w' = row_locks w @ L \<and> set L = set ids \<and> distinct L \<and> sorted L)"
  using lockLoop_Ret[OF assms[unfolded lockBalances_def]] by auto

subsection \<open>Balances\<close>

text \<open>What a list of entries does to one balance row, entry by entry.\<close>

definition settle :: "time \<Rightarrow> Entry list \<Rightarrow> balance_row \<Rightarrow> balance_row" where
  "settle now es b = fold (\<lambda>e r. if b_account_id r = e_account_id e then moved (e_amount e) now r else r) es b"

lemma moved_fields [simp]:
  "b_account_id (moved x now b) = b_account_id b" "b_allow_overdraft (moved x now b) = b_allow_overdraft b"
  "b_amount (moved x now b) = b_amount b + x" "b_version (moved x now b) = b_version b + 1"
  by (simp_all add: moved_def)

lemma settle_simps [simp]:
  "settle now [] b = b"
  "settle now (e # es) b = settle now es (if b_account_id b = e_account_id e then moved (e_amount e) now b else b)"
  by (simp_all add: settle_def)

lemma settle_fields [simp]:
  "b_account_id (settle now es b) = b_account_id b"
  "b_allow_overdraft (settle now es b) = b_allow_overdraft b"
  by (induction es arbitrary: b) auto

lemma settle_amount:
  "b_amount (settle now es b) =
     b_amount b + sum_list (map e_amount (filter (\<lambda>e. e_account_id e = b_account_id b) es))"
  by (induction es arbitrary: b) auto

lemma settle_version:
  "b_version (settle now es b) = b_version b + int (length (filter (\<lambda>e. e_account_id e = b_account_id b) es))"
  by (induction es arbitrary: b) auto

definition row_ok :: "balance_row \<Rightarrow> bool" where
  "row_ok b \<longleftrightarrow> in64 (b_amount b) \<and> in64 (b_version b) \<and> balances_check b"

definition balances_ok :: "balance_row list \<Rightarrow> bool" where
  "balances_ok bs \<longleftrightarrow> distinct (map b_account_id bs) \<and> list_all row_ok bs"

lemma find_by_key:
  assumes "distinct (map f xs)" and "x \<in> set xs"
  shows "find (\<lambda>y. f y = f x) xs = Some x"
  using assms by (induction xs) (auto simp: inj_on_def)

lemma update_balance_Inr:
  assumes "update_balance_stmt i x now d = Inr (v, d')"
  shows "\<exists>b. balance_of d i = Some b \<and> v = b_amount b + x \<and> row_ok (moved x now b) \<and>
    d' = d\<lparr>balances := map (\<lambda>r. if b_account_id r = i then moved x now r else r) (balances d)\<rparr>"
  using assms
  by (auto simp: update_balance_stmt_def checked_Inr row_ok_def split: option.splits)

lemma moved_rows_ok:
  assumes "balances_ok (balances d)" and "balance_of d i = Some b" and "row_ok (moved x now b)"
  shows "balances_ok (map (\<lambda>r. if b_account_id r = i then moved x now r else r) (balances d))"
proof -
  have "r = b" if "r \<in> set (balances d)" "b_account_id r = i" for r
    using find_by_key[of b_account_id "balances d" r] that assms(1,2)
    by (simp add: balance_of_def balances_ok_def)
  with assms show ?thesis
    by (auto simp: balances_ok_def list_all_iff comp_def if_distrib[of b_account_id] cong: if_cong)
qed

lemma applyDeltas_Ret:
  assumes "applyDeltas env es w = (Ret u, w')"
  shows "tx_now w' = tx_now w \<and> row_locks w' = row_locks w \<and>
    db w' = (db w)\<lparr>balances := map (settle (tx_now w) es) (balances (db w))\<rparr> \<and>
    (balances_ok (balances (db w)) \<longrightarrow> balances_ok (balances (db w'))) \<and>
    (\<forall>e \<in> set es. e_account_id e \<in> b_account_id ` set (balances (db w)))"
  using assms
proof (induction es arbitrary: w)
  case Nil
  then show ?case by (auto simp: ret_inv)
next
  case (Cons e es)
  let ?f = "\<lambda>r. if b_account_id r = e_account_id e then moved (e_amount e) (tx_now w) r else r"
  from Cons.prems obtain v d where
    up: "update_balance_stmt (e_account_id e) (e_amount e) (tx_now w) (db w) = Inr (v, d)"
    and rest: "applyDeltas env es ((tickw w)\<lparr>db := d\<rparr>) = (Ret u, w')"
    by (auto simp: ret_inv applyBalanceDelta_def)
  from update_balance_Inr[OF up] obtain b where b: "balance_of (db w) (e_account_id e) = Some b"
    "row_ok (moved (e_amount e) (tx_now w) b)" and d: "d = (db w)\<lparr>balances := map ?f (balances (db w))\<rparr>"
    by blast
  have ok: "balances_ok (balances (db w)) \<longrightarrow> balances_ok (map ?f (balances (db w)))"
    using moved_rows_ok[OF _ b] by blast
  have ids: "b_account_id ` set (map ?f (balances (db w))) = b_account_id ` set (balances (db w))"
    unfolding set_map image_image by (rule image_cong) simp_all
  have mem: "e_account_id e \<in> b_account_id ` set (balances (db w))"
    using balance_of_id[OF b(1)] by force
  from Cons.IH[OF rest] d ok ids mem show ?case
    by (auto simp: comp_def)
qed

subsection \<open>Rows of a posting\<close>

text \<open>An entry as the table stores it.\<close>

definition stored :: "env \<Rightarrow> time \<Rightarrow> Entry \<Rightarrow> Entry" where
  "stored env now e = e\<lparr>e_id := the (uuid_in env (e_id e)),
     e_transaction_id := the (uuid_in env (e_transaction_id e)), e_created_at := now\<rparr>"

lemma stored_fields [simp]:
  "e_account_id (stored env now e) = e_account_id e" "e_amount (stored env now e) = e_amount e"
  "e_currency (stored env now e) = e_currency e" "e_seq (stored env now e) = e_seq e"
  "e_transaction_id (stored env now e) = the (uuid_in env (e_transaction_id e))"
  by (simp_all add: stored_def)

definition entry_ok :: "tx_row list \<Rightarrow> Account list \<Rightarrow> Entry \<Rightarrow> bool" where
  "entry_ok ts as e \<longleftrightarrow> e_amount e \<noteq> 0 \<and> 0 \<le> e_seq e \<and>
     (\<exists>t \<in> set ts. t_id t = e_transaction_id e \<and> t_currency t = e_currency e) \<and>
     (\<exists>a \<in> set as. a_id a = e_account_id e \<and> a_currency a = e_currency e)"

definition entry_keys_ok :: "Entry list \<Rightarrow> bool" where
  "entry_keys_ok es \<longleftrightarrow> distinct (map e_id es) \<and> distinct (map (\<lambda>e. (e_transaction_id e, e_seq e)) es)"

lemma insert_entry_Inr:
  assumes "insert_entry_stmt env e now d = Inr (u, d')"
  shows "d' = d\<lparr>ledger_entries := ledger_entries d @ [stored env now e]\<rparr> \<and>
    uuid_in env (e_transaction_id e) \<noteq> None \<and> uuid_in env (e_id e) \<noteq> None \<and>
    entry_ok (ledger_transactions d) (accounts d) (stored env now e) \<and>
    (entry_keys_ok (ledger_entries d) \<longrightarrow> entry_keys_ok (ledger_entries d'))"
proof -
  from assms obtain i t where ut: "uuid_in env (e_id e) = Some i" "uuid_in env (e_transaction_id e) = Some t"
    and ck: "\<forall>c \<in> set (entry_constraints d (stored env now e)). fst c"
    and d': "d' = d\<lparr>ledger_entries := ledger_entries d @ [stored env now e]\<rparr>"
    by (auto simp: insert_entry_stmt_def checked_Inr stored_def Let_def split: option.splits)
  have "entry_ok (ledger_transactions d) (accounts d) (stored env now e)"
    using ck by (auto simp: entry_constraints_def entry_ok_def list_ex_iff)
  moreover have "entry_keys_ok (ledger_entries d) \<longrightarrow> entry_keys_ok (ledger_entries d')"
    using ck by (auto simp: d' entry_constraints_def entry_keys_ok_def list_all_iff)
  ultimately show ?thesis using ut d' by simp
qed

lemma insertEntries_Ret:
  assumes "insertEntries env es w = (Ret u, w')"
  shows "tx_now w' = tx_now w \<and> row_locks w' = row_locks w \<and>
    db w' = (db w)\<lparr>ledger_entries := ledger_entries (db w) @ map (stored env (tx_now w)) es\<rparr> \<and>
    (\<forall>e \<in> set es. uuid_in env (e_transaction_id e) \<noteq> None \<and> uuid_in env (e_id e) \<noteq> None \<and>
       entry_ok (ledger_transactions (db w)) (accounts (db w)) (stored env (tx_now w) e)) \<and>
    (entry_keys_ok (ledger_entries (db w)) \<longrightarrow> entry_keys_ok (ledger_entries (db w')))"
  using assms
proof (induction es arbitrary: w)
  case Nil
  then show ?case by (auto simp: ret_inv)
next
  case (Cons e es)
  from Cons.prems obtain v d where ins: "insert_entry_stmt env e (tx_now w) (db w) = Inr (v, d)"
    and rest: "insertEntries env es ((tickw w)\<lparr>db := d\<rparr>) = (Ret u, w')"
    by (auto simp: ret_inv)
  note i = insert_entry_Inr[OF ins]
  from Cons.IH[OF rest] i show ?case by auto
qed

definition tx_row_of :: "env \<Rightarrow> time \<Rightarrow> Transaction \<Rightarrow> tx_row" where
  "tx_row_of env now t = \<lparr>t_id = the (uuid_in env (tx_ID t)), t_kind = tx_Kind t, t_currency = tx_Currency t,
     t_description = tx_Description t, t_external_reference = tx_ExternalReference t,
     t_reverses = (case tx_ReversesTransactionID t of None \<Rightarrow> None | Some r \<Rightarrow> Some (the (uuid_in env r))),
     t_created_at = now\<rparr>"

lemma tx_row_of_fields [simp]:
  "t_id (tx_row_of env now t) = the (uuid_in env (tx_ID t))" "t_kind (tx_row_of env now t) = tx_Kind t"
  "t_currency (tx_row_of env now t) = tx_Currency t"
  "t_reverses (tx_row_of env now t) =
     (case tx_ReversesTransactionID t of None \<Rightarrow> None | Some r \<Rightarrow> Some (the (uuid_in env r)))"
  by (simp_all add: tx_row_of_def)

lemma insertTransaction_Ret:
  assumes "insertTransaction env t w = (Ret u, w')"
  shows "tx_now w' = tx_now w \<and> row_locks w' = row_locks w \<and>
    db w' = (db w)\<lparr>ledger_transactions := ledger_transactions (db w) @ [tx_row_of env (tx_now w) t]\<rparr> \<and>
    uuid_in env (tx_ID t) \<noteq> None \<and> (\<forall>r. tx_ReversesTransactionID t = Some r \<longrightarrow> uuid_in env r \<noteq> None) \<and>
    (\<forall>c \<in> set (tx_constraints (db w) (tx_row_of env (tx_now w) t)). fst c)"
  using assms
  by (auto simp: insertTransaction_def ret_inv insert_transaction_stmt_def checked_Inr tx_row_of_def uuid_param_def Let_def
      simp del: list.set split: option.splits)

definition reversal_row_of :: "env \<Rightarrow> time \<Rightarrow> string \<Rightarrow> string \<Rightarrow> string \<Rightarrow> string \<Rightarrow> reversal_row" where
  "reversal_row_of env now i original reversal reason = \<lparr>r_id = the (uuid_in env i),
     r_original = the (uuid_in env original), r_reversal = the (uuid_in env reversal), r_reason = reason,
     r_created_at = now\<rparr>"

lemma insertReversalRecord_Ret:
  assumes "insertReversalRecord env i original reversal reason w = (Ret u, w')"
  shows "tx_now w' = tx_now w \<and> row_locks w' = row_locks w \<and>
    db w' = (db w)\<lparr>reversals := reversals (db w) @ [reversal_row_of env (tx_now w) i original reversal reason]\<rparr> \<and>
    (\<forall>c \<in> set (reversal_constraints (db w) (reversal_row_of env (tx_now w) i original reversal reason)). fst c)"
  using assms
  by (auto simp: insertReversalRecord_def ret_inv insert_reversal_stmt_def checked_Inr reversal_row_of_def Let_def
      simp del: list.set split: option.splits)

definition outbox_fresh :: "database \<Rightarrow> outbox_row \<Rightarrow> bool" where
  "outbox_fresh d r \<longleftrightarrow> (\<forall>r' \<in> set (outbox_events d). o_id r' \<noteq> o_id r) \<and> o_status r = StatusPending \<and>
     o_attempts r = 0 \<and> o_published_at r = None"

text \<open>The event goes to the topic of its type and its identifier is a UUID.\<close>

definition addressed :: "env \<Rightarrow> Config \<Rightarrow> string \<Rightarrow> outbox_row \<Rightarrow> bool" where
  "addressed env cfg ty r \<longleftrightarrow> o_topic r = TopicForEvent cfg ty \<and> (\<exists>i. uuid_in env i = Some (o_id r))"

lemma Insert_Ret:
  assumes "Insert env rec w = (Ret u, w')"
  shows "\<exists>i. uuid_in env (or_ID rec) = Some i \<and> tx_now w' = tx_now w \<and> row_locks w' = row_locks w \<and>
    db w' = (db w)\<lparr>outbox_events := outbox_events (db w) @ [new_outbox_row env i rec (tx_now w)]\<rparr> \<and>
    outbox_fresh (db w) (new_outbox_row env i rec (tx_now w))"
  using assms
  by (auto simp: Insert_def ret_inv insert_outbox_stmt_def checked_Inr outbox_fresh_def list_all_iff Let_def
      new_outbox_row_def split: option.splits)

lemma writeOutboxEvent_Ret:
  assumes "writeOutboxEvent env cfg ctx txn ty data w = (Ret u, w')"
  shows "\<exists>r. tx_now w' = tx_now w \<and> row_locks w' = row_locks w \<and>
    db w' = (db w)\<lparr>outbox_events := outbox_events (db w) @ [r]\<rparr> \<and> outbox_fresh (db w) r \<and>
    o_aggregate_id r = tx_ID txn \<and> o_event_type r = ty \<and> addressed env cfg ty r \<and>
    o_partition_key r = tx_ID txn"
proof -
  have "\<exists>rec. Insert env rec (tickw w) = (Ret u, w') \<and> or_AggregateID rec = tx_ID txn \<and> or_EventType rec = ty \<and>
      or_Topic rec = TopicForEvent cfg ty \<and> or_PartitionKey rec = tx_ID txn"
    using assms unfolding writeOutboxEvent_def Let_def andThen_Ret newUUID_Ret
    by (elim exE conjE) (hypsubst, intro exI conjI, assumption, simp_all)
  then obtain rec where ins: "Insert env rec (tickw w) = (Ret u, w')" and rec: "or_AggregateID rec = tx_ID txn"
    "or_EventType rec = ty" "or_Topic rec = TopicForEvent cfg ty" "or_PartitionKey rec = tx_ID txn" by blast
  from Insert_Ret[OF ins] obtain i where "uuid_in env (or_ID rec) = Some i" "tx_now w' = tx_now w" "row_locks w' = row_locks w"
    "db w' = (db w)\<lparr>outbox_events := outbox_events (db w) @ [new_outbox_row env i rec (tx_now w)]\<rparr>"
    "outbox_fresh (db w) (new_outbox_row env i rec (tx_now w))" unfolding tickw_fields by blast
  then show ?thesis
    by (intro exI[of _ "new_outbox_row env i rec (tx_now w)"]) (auto simp: addressed_def new_outbox_row_def rec)
qed

lemma Complete_Ret:
  assumes "Complete env s k st body t w = (Ret u, w')" and "idem_of (db w) s k = Some r"
  shows "\<exists>t'. uuid_param env t = Inr t' \<and> tx_now w' = tx_now w \<and> row_locks w' = row_locks w \<and>
    (t' = None \<or> (\<exists>x \<in> set (ledger_transactions (db w)). Some (t_id x) = t')) \<and>
    db w' = (db w)\<lparr>idempotency_records := map (\<lambda>x. if i_scope x = s \<and> i_key x = k
       then complete_row st body t' (tx_now w) x else x) (idempotency_records (db w))\<rparr>"
proof -
  from assms(1) obtain d where "complete_stmt env s k st body t (tx_now w) (db w) = Inr ((), d)"
    "w' = (tickw w)\<lparr>db := d\<rparr>" by (auto simp: Complete_def ret_inv)
  with complete_stmt_Inr[OF _ assms(2)] show ?thesis by fastforce
qed

lemma mirrorEntries_Ret:
  assumes "mirrorEntries env i es acc w = (Ret out, w')"
  shows "same_tx w w' \<and> row_locks w' = row_locks w \<and> (\<exists>ms. out = acc @ ms \<and>
    list_all2 (\<lambda>e m. e_transaction_id m = i \<and> e_account_id m = e_account_id e \<and>
      e_amount m = wrap64 (- e_amount e) \<and> e_currency m = e_currency e \<and> e_seq m = e_seq e \<and>
      (\<exists>n. e_id m = uuid_src env n)) es ms)"
  using assms
proof (induction es arbitrary: acc w)
  case Nil
  then show ?case by (auto simp: ret_inv same_tx_def)
next
  case (Cons e es)
  from Cons.prems have rest: "mirrorEntries env i es (acc @ [\<lparr>e_id = uuid_src env (tick w), e_transaction_id = i,
      e_account_id = e_account_id e, e_amount = wrap64 (- e_amount e), e_currency = e_currency e,
      e_seq = e_seq e, e_created_at = 0\<rparr>]) (tickw w) = (Ret out, w')"
    by (auto simp: ret_inv)
  from Cons.IH[OF rest] show ?case by (fastforce simp: same_tx_def)
qed

end
