(* ===== verification/Ledger_Posting.thy ===== *)
theory Ledger_Posting
  imports Ledger_Effects
begin

text \<open>
  What a transfer, a reversal and an account creation have done to the database when their
  work returns. Transfer and reversal end in the same shape, a \<open>posting\<close>: one transaction
  row, its entries, the balances moved by them, one outbox event and the completed
  idempotency record.
\<close>

subsection \<open>Balances move by the multiset of the entries\<close>

lemma settle_eq:
  "settle now es b =
     (let F = filter (\<lambda>e. e_account_id e = b_account_id b) es in
      if F = [] then b
      else b\<lparr>b_amount := b_amount b + sum_list (map e_amount F), b_version := b_version b + int (length F),
             b_updated_at := now\<rparr>)"
proof (induction es arbitrary: b)
  case (Cons e es)
  show ?case by (auto simp: Cons.IH Let_def moved_def)
qed simp

definition legs :: "Entry list \<Rightarrow> (string \<times> int) multiset" where
  "legs es = mset (map (\<lambda>e. (e_account_id e, e_amount e)) es)"

lemma legs_filter:
  "mset (map e_amount (filter (\<lambda>e. e_account_id e = i) es)) = image_mset snd (filter_mset (\<lambda>p. fst p = i) (legs es))"
  by (induction es) (auto simp: legs_def)

lemma settle_legs:
  assumes "legs es = legs es'"
  shows "settle now es = settle now es'"
proof
  fix b :: balance_row
  let ?F = "\<lambda>es. filter (\<lambda>e. e_account_id e = b_account_id b) es"
  have m: "mset (map e_amount (?F es)) = mset (map e_amount (?F es'))"
    using assms by (simp only: legs_filter)
  have "length (?F es) = length (?F es')" using mset_eq_length[OF m] by simp
  moreover have "sum_list (map e_amount (?F es)) = sum_list (map e_amount (?F es'))"
    using m by (metis sum_mset_sum_list)
  ultimately show "settle now es b = settle now es' b"
    unfolding settle_eq Let_def by (metis length_0_conv)
qed

lemma legs_sorted: "legs (sortedEntriesByAccount es) = legs es"
  by (simp add: legs_def sortedEntriesByAccount_sort_key)

lemma legs_stored [simp]: "legs (map (stored env now) es) = legs es"
  by (simp add: legs_def comp_def)

subsection \<open>Postings\<close>

definition posting ::
  "database \<Rightarrow> time \<Rightarrow> tx_row \<Rightarrow> Entry list \<Rightarrow> reversal_row list \<Rightarrow> outbox_row \<Rightarrow> string \<Rightarrow> string \<Rightarrow> json \<Rightarrow> database" where
  "posting d now t es rv ob s k body =
     d\<lparr>balances := map (settle now es) (balances d), ledger_transactions := ledger_transactions d @ [t],
       ledger_entries := ledger_entries d @ es, reversals := reversals d @ rv,
       outbox_events := outbox_events d @ [ob],
       idempotency_records := map (\<lambda>x. if i_scope x = s \<and> i_key x = k
         then complete_row 201 body (Some (t_id t)) now x else x) (idempotency_records d)\<rparr>"

definition posting_ok :: "database \<Rightarrow> time \<Rightarrow> tx_row \<Rightarrow> Entry list \<Rightarrow> outbox_row \<Rightarrow> bool" where
  "posting_ok d now t es ob \<longleftrightarrow>
     (\<forall>c \<in> set (tx_constraints d t). fst c) \<and>
     (\<forall>e \<in> set es. e_transaction_id e = t_id t \<and> entry_ok (ledger_transactions d @ [t]) (accounts d) e \<and>
        e_account_id e \<in> b_account_id ` set (balances d)) \<and>
     (entry_keys_ok (ledger_entries d) \<longrightarrow> entry_keys_ok (ledger_entries d @ es)) \<and>
     (balances_ok (balances d) \<longrightarrow> balances_ok (map (settle now es) (balances d))) \<and>
     outbox_fresh d ob"

lemma idem_of_cong: "idempotency_records d' = idempotency_records d \<Longrightarrow> idem_of d' = idem_of d"
  by (simp add: idem_of_def fun_eq_iff)

text \<open>
  The steps both use cases share, from the insertion of the transaction row to the end of the
  balance updates.
\<close>

lemma postLegs_Ret:
  assumes it: "insertTransaction env t w = (Ret u1, w1)"
    and ie: "insertEntries env (tx_Entries t) w1 = (Ret u2, w2)"
    and f1: "failIf ctx n1 w2 = (Ret u3, w3)"
    and ap: "applyDeltas env (sortedEntriesByAccount (tx_Entries t)) w3 = (Ret u4, w4)"
    and ids: "\<forall>e \<in> set (tx_Entries t). e_transaction_id e = tx_ID t"
  defines "row \<equiv> tx_row_of env (tx_now w) t" and "es \<equiv> map (stored env (tx_now w)) (tx_Entries t)"
  shows "tx_now w4 = tx_now w \<and> row_locks w4 = row_locks w \<and>
    db w4 = (db w)\<lparr>balances := map (settle (tx_now w) es) (balances (db w)),
      ledger_transactions := ledger_transactions (db w) @ [row], ledger_entries := ledger_entries (db w) @ es\<rparr> \<and>
    uuid_in env (tx_ID t) \<noteq> None \<and> (\<forall>r. tx_ReversesTransactionID t = Some r \<longrightarrow> uuid_in env r \<noteq> None) \<and>
    (outbox_fresh (db w) ob \<longrightarrow> posting_ok (db w) (tx_now w) row es ob)"
proof -
  note a = insertTransaction_Ret[OF it] and b = insertEntries_Ret[OF ie] and c = failIf_Ret[OF f1]
    and d = applyDeltas_Ret[OF ap]
  have now: "tx_now w3 = tx_now w" "tx_now w1 = tx_now w" using a b c by (simp_all add: same_tx_def)
  have rl: "row_locks w4 = row_locks w" using a b c d by simp
  have s: "settle (tx_now w3) (sortedEntriesByAccount (tx_Entries t)) = settle (tx_now w) es"
    unfolding now(1) by (rule settle_legs) (simp add: legs_sorted es_def)
  have d3: "db w3 = (db w)\<lparr>ledger_transactions := ledger_transactions (db w) @ [row],
      ledger_entries := ledger_entries (db w) @ es\<rparr>"
    using a b c by (simp add: same_tx_def row_def es_def)
  have set_es: "set (sortedEntriesByAccount (tx_Entries t)) = set (tx_Entries t)"
    by (simp add: sortedEntriesByAccount_sort_key)
  have "posting_ok (db w) (tx_now w) row es ob" if "outbox_fresh (db w) ob"
    unfolding posting_ok_def using a b d d3 that ids set_es s now(2) by (auto simp: row_def es_def)
  with a b d d3 s now rl show ?thesis by simp
qed

text \<open>The transaction \<open>t\<close> is what the database holds under the identifier \<open>u\<close>.\<close>

definition loaded :: "database \<Rightarrow> string \<Rightarrow> Transaction \<Rightarrow> bool" where
  "loaded d u t \<longleftrightarrow> (\<exists>x rb. tx_of d u = Some x \<and> reversed_by d u = Inr rb \<and>
     t = \<lparr>tx_ID = u, tx_Kind = t_kind x, tx_Currency = t_currency x, tx_Description = t_description x,
         tx_ExternalReference = t_external_reference x, tx_ReversesTransactionID = t_reverses x,
         tx_ReversedByTransactionID = rb, tx_CreatedAt = t_created_at x,
         tx_Entries = sort_key e_seq (entries_of d u)\<rparr>)"

lemma loaded_cong:
  "ledger_transactions d' = ledger_transactions d \<Longrightarrow> ledger_entries d' = ledger_entries d \<Longrightarrow>
     loaded d' u t = loaded d u t"
  by (simp add: loaded_def tx_of_def reversed_by_def entries_of_def)

lemma loadTransaction_loaded:
  assumes "loadTransaction env i w = (Ret t, w')"
  shows "\<exists>u. uuid_in env i = Some u \<and> loaded (db w) u t \<and> same_tx w w' \<and> row_locks w' = row_locks w"
  using loadTransaction_Ret[OF assms] unfolding loaded_def by blast

text \<open>The rest of both bodies: the outbox event, the stored transaction, the completed record.\<close>

definition created_result :: "Transaction \<Rightarrow> Result" where
  "created_result t = \<lparr>res_Transaction = Some t, res_ResponseStatus = 201,
     res_ResponseBody = Some (marshalTransaction t), res_Replayed = False\<rparr>"

lemma finish_Ret:
  assumes wo: "writeOutboxEvent env cfg ctx txn ty data w = (Ret u1, w1)"
    and f1: "failIf ctx n1 w1 = (Ret u2, w2)"
    and lt: "loadTransaction env i w2 = (Ret t, w3)"
    and co: "Complete env s k 201 (marshalTransaction t) (Some i) w3 = (Ret u3, w4)"
    and f2: "failIf ctx n2 w4 = (Ret u4, w5)"
    and idem: "idem_of (db w) s k = Some row"
  shows "\<exists>ob u. uuid_in env i = Some u \<and> outbox_fresh (db w) ob \<and> o_aggregate_id ob = tx_ID txn \<and>
    o_event_type ob = ty \<and> addressed env cfg ty ob \<and> o_partition_key ob = tx_ID txn \<and>
    row_locks w5 = row_locks w \<and>
    db w5 = (db w)\<lparr>outbox_events := outbox_events (db w) @ [ob],
      idempotency_records := map (\<lambda>x. if i_scope x = s \<and> i_key x = k
        then complete_row 201 (marshalTransaction t) (Some u) (tx_now w) x else x) (idempotency_records (db w))\<rparr> \<and>
    loaded (db w) u t"
proof -
  from writeOutboxEvent_Ret[OF wo] obtain ob where ob: "tx_now w1 = tx_now w" "row_locks w1 = row_locks w"
    "db w1 = (db w)\<lparr>outbox_events := outbox_events (db w) @ [ob]\<rparr>" "outbox_fresh (db w) ob"
    "o_aggregate_id ob = tx_ID txn" "o_event_type ob = ty" "addressed env cfg ty ob"
    "o_partition_key ob = tx_ID txn" by blast
  note a = failIf_Ret[OF f1] and b = loadTransaction_loaded[OF lt] and c = failIf_Ret[OF f2]
  have w3: "db w3 = db w1" "tx_now w3 = tx_now w" "row_locks w3 = row_locks w"
    using a b ob(1,2) by (auto simp: same_tx_def)
  have "idem_of (db w3) s k = Some row" using idem w3 ob(3) by (simp add: idem_of_def)
  from Complete_Ret[OF co this] obtain t' where t': "uuid_param env (Some i) = Inr t'" "tx_now w4 = tx_now w3"
    "row_locks w4 = row_locks w3" "db w4 = (db w3)\<lparr>idempotency_records := map (\<lambda>x. if i_scope x = s \<and> i_key x = k
       then complete_row 201 (marshalTransaction t) t' (tx_now w3) x else x) (idempotency_records (db w3))\<rparr>"
    by blast
  have w2: "db w2 = db w1" using a by (simp add: same_tx_def)
  have same: "loaded (db w1) u t = loaded (db w) u t" for u t
    using ob(3) by (intro loaded_cong) simp_all
  from b obtain u where u: "uuid_in env i = Some u" "loaded (db w) u t"
    unfolding w2 same by blast
  have "t' = Some u" using t'(1) u(1) by (simp add: uuid_param_def)
  with t' w3 ob(3) c have "db w5 = (db w)\<lparr>outbox_events := outbox_events (db w) @ [ob],
      idempotency_records := map (\<lambda>x. if i_scope x = s \<and> i_key x = k
        then complete_row 201 (marshalTransaction t) (Some u) (tx_now w) x else x) (idempotency_records (db w))\<rparr>"
    by (simp add: same_tx_def)
  moreover have "row_locks w5 = row_locks w" using t'(3) w3 c by simp
  ultimately show ?thesis using ob u by blast
qed

subsection \<open>Transfer\<close>

lemma newTransfer_ids [simp]:
  "tx_ID (newTransfer i cmd src dst now a b) = i"
  "tx_ReversesTransactionID (newTransfer i cmd src dst now a b) = None"
  "e \<in> set (tx_Entries (newTransfer i cmd src dst now a b)) \<Longrightarrow> e_transaction_id e = i"
  by (auto simp: newTransfer_def)

lemma recordTransfer_Ret:
  assumes run: "recordTransfer env cfg ctx cmd src dst txn w = (Ret r, w')"
    and idem: "idem_of (db w) (tc_IdempotencyScope cmd) (tc_IdempotencyKey cmd) = Some row"
    and ids: "\<forall>e \<in> set (tx_Entries txn). e_transaction_id e = tx_ID txn"
  defines "t \<equiv> tx_row_of env (tx_now w) txn" and "es \<equiv> map (stored env (tx_now w)) (tx_Entries txn)"
  shows "\<exists>ob stx. uuid_in env (tx_ID txn) \<noteq> None \<and> posting_ok (db w) (tx_now w) t es ob \<and>
    o_aggregate_id ob = tx_ID txn \<and> o_event_type ob = EventPaymentCreated \<and>
    addressed env cfg EventPaymentCreated ob \<and>
    db w' = posting (db w) (tx_now w) t es [] ob (tc_IdempotencyScope cmd) (tc_IdempotencyKey cmd)
      (marshalTransaction stx) \<and>
    r = created_result stx \<and> loaded (db w') (t_id t) stx \<and> row_locks w' = row_locks w"
proof -
  from run obtain u1 w1 u2 w2 u3 w3 u4 w4 u5 w5 u6 w6 u7 w7 stx w8 u8 w9 u9 w10 where
    legs: "insertTransaction env txn w = (Ret u1, w1)" "insertEntries env (tx_Entries txn) w1 = (Ret u2, w2)"
      "failIf ctx AfterEntriesWritten w2 = (Ret u3, w3)"
      "applyDeltas env (sortedEntriesByAccount (tx_Entries txn)) w3 = (Ret u4, w4)"
    and f: "failIf ctx AfterBalancesUpdated w4 = (Ret u5, w5)"
    and fin: "writeOutboxEvent env cfg ctx txn EventPaymentCreated (transferData txn cmd src dst) w5 = (Ret u6, w6)"
      "failIf ctx AfterOutboxWritten w6 = (Ret u7, w7)" "loadTransaction env (tx_ID txn) w7 = (Ret stx, w8)"
      "Complete env (tc_IdempotencyScope cmd) (tc_IdempotencyKey cmd) 201 (marshalTransaction stx)
         (Some (tx_ID txn)) w8 = (Ret u8, w9)"
      "failIf ctx BeforeCommit w9 = (Ret u9, w10)"
    and r: "(ret \<lparr>res_Transaction = Some stx, res_ResponseStatus = 201,
          res_ResponseBody = Some (marshalTransaction stx), res_Replayed = False\<rparr> :: Result comp) w10 = (Ret r, w')"
    unfolding recordTransfer_def by (elim andThen_RetE)
  note pl = postLegs_Ret[OF legs ids, folded t_def es_def] and ff = failIf_Ret[OF f]
  have w5: "tx_now w5 = tx_now w" "row_locks w5 = row_locks w"
    "db w5 = (db w)\<lparr>balances := map (settle (tx_now w) es) (balances (db w)),
      ledger_transactions := ledger_transactions (db w) @ [t], ledger_entries := ledger_entries (db w) @ es\<rparr>"
    using pl ff by (simp_all add: same_tx_def)
  have "idem_of (db w5) (tc_IdempotencyScope cmd) (tc_IdempotencyKey cmd) = Some row"
    using idem w5(3) by (simp add: idem_of_def)
  from finish_Ret[OF fin this] obtain ob u where ob: "uuid_in env (tx_ID txn) = Some u"
    "outbox_fresh (db w5) ob" "o_aggregate_id ob = tx_ID txn" "o_event_type ob = EventPaymentCreated"
    "addressed env cfg EventPaymentCreated ob" "row_locks w10 = row_locks w5" "loaded (db w5) u stx"
    "db w10 = (db w5)\<lparr>outbox_events := outbox_events (db w5) @ [ob],
      idempotency_records := map (\<lambda>x. if i_scope x = tc_IdempotencyScope cmd \<and> i_key x = tc_IdempotencyKey cmd
        then complete_row 201 (marshalTransaction stx) (Some u) (tx_now w5) x else x) (idempotency_records (db w5))\<rparr>"
    by blast
  have u: "u = t_id t" using ob(1) by (simp add: t_def)
  have w': "w' = w10" and r': "r = created_result stx" using r by (auto simp: ret_inv created_result_def)
  have "outbox_fresh (db w) ob" using ob(2) w5(3) by (simp add: outbox_fresh_def)
  with pl have "posting_ok (db w) (tx_now w) t es ob" by blast
  moreover have "db w' = posting (db w) (tx_now w) t es [] ob (tc_IdempotencyScope cmd) (tc_IdempotencyKey cmd)
      (marshalTransaction stx)" using ob(8) w5 u w' by (simp add: posting_def)
  moreover have "loaded (db w') (t_id t) stx" using ob(7,8) u w' by (simp add: loaded_def tx_of_def reversed_by_def entries_of_def)
  moreover have "row_locks w' = row_locks w" "uuid_in env (tx_ID txn) \<noteq> None" using ob(1,6) w5 w' by simp_all
  ultimately show ?thesis using ob(3-5) r' by blast
qed

lemma executeTransfer_Ret:
  assumes run: "executeTransfer env cfg ctx txID cmd w = (Ret r, w')"
    and idem: "idem_of (db w) (tc_IdempotencyScope cmd) (tc_IdempotencyKey cmd) = Some row"
  shows "\<exists>src dst now id0 id1 ob stx t es.
    locked_view (db w) (tc_SourceAccountID cmd) = Some src \<and>
    locked_view (db w) (tc_DestinationAccountID cmd) = Some dst \<and>
    la_Currency src = tc_Currency cmd \<and> la_Currency dst = tc_Currency cmd \<and>
    (la_AllowOverdraft src \<or> tc_Amount cmd \<le> la_Balance src) \<and>
    t = tx_row_of env (tx_now w) (newTransfer txID cmd src dst now id0 id1) \<and>
    es = map (stored env (tx_now w)) (tx_Entries (newTransfer txID cmd src dst now id0 id1)) \<and>
    uuid_in env txID \<noteq> None \<and> posting_ok (db w) (tx_now w) t es ob \<and> o_aggregate_id ob = txID \<and>
    o_event_type ob = EventPaymentCreated \<and> addressed env cfg EventPaymentCreated ob \<and>
    db w' = posting (db w) (tx_now w) t es [] ob (tc_IdempotencyScope cmd) (tc_IdempotencyKey cmd)
      (marshalTransaction stx) \<and>
    r = created_result stx \<and> loaded (db w') (t_id t) stx \<and>
    (\<exists>L. row_locks w' = row_locks w @ L \<and> set L = {tc_SourceAccountID cmd, tc_DestinationAccountID cmd} \<and>
       distinct L \<and> sorted L)"
proof -
  let ?S = "tc_SourceAccountID cmd" and ?D = "tc_DestinationAccountID cmd"
  from run obtain m w1 u1 w2 src w3 dst w4 where
    lk: "lockBalances env [?S, ?D] w = (Ret m, w1)" and f1: "failIf ctx AfterAccountsLocked w1 = (Ret u1, w2)"
    and ds: "deref (m ?S) w2 = (Ret src, w3)" and dd: "deref (m ?D) w3 = (Ret dst, w4)"
    and rest: "(if la_Currency src \<noteq> tc_Currency cmd then
       throw (currencyError ''source account %q holds %s but the transfer is in %s'' src cmd)
     else if la_Currency dst \<noteq> tc_Currency cmd then
       throw (currencyError ''destination account %q holds %s but the transfer is in %s'' dst cmd)
     else if \<not> la_AllowOverdraft src \<and> la_Balance src < tc_Amount cmd then
       throw (fundsError src cmd)
     else
       andThen (goNow env) (\<lambda>now. andThen (newUUID env) (\<lambda>id0. andThen (newUUID env) (\<lambda>id1.
       recordTransfer env cfg ctx cmd src dst (newTransfer txID cmd src dst now id0 id1))))) w4 = (Ret r, w')"
    unfolding executeTransfer_def by (elim andThen_RetE)
  note lb = lockBalances_Ret[OF lk] and ff = failIf_Ret[OF f1]
  have w4: "w4 = w2" and "m ?S = Some src" "m ?D = Some dst" using ds dd by (auto simp: deref_Ret)
  then have v: "locked_view (db w) ?S = Some src" "locked_view (db w) ?D = Some dst"
    and st: "same_tx w w4" using lb ff by (auto simp: same_tx_def)
  have g: "la_Currency src = tc_Currency cmd" "la_Currency dst = tc_Currency cmd"
      "la_AllowOverdraft src \<or> tc_Amount cmd \<le> la_Balance src"
    using rest by (auto simp: throw_Ret not_less split: if_splits)
  with rest have "andThen (goNow env) (\<lambda>now. andThen (newUUID env) (\<lambda>id0. andThen (newUUID env) (\<lambda>id1.
       recordTransfer env cfg ctx cmd src dst (newTransfer txID cmd src dst now id0 id1)))) w4 = (Ret r, w')"
    by (auto simp: throw_Ret split: if_splits)
  then obtain now wa id0 wb id1 wc where gn: "goNow env w4 = (Ret now, wa)" "newUUID env wa = (Ret id0, wb)"
      "newUUID env wb = (Ret id1, wc)"
    and rec: "recordTransfer env cfg ctx cmd src dst (newTransfer txID cmd src dst now id0 id1) wc = (Ret r, w')"
    by (elim andThen_RetE)
  from goNow_same[OF gn(1)] newUUID_same[OF gn(2)] newUUID_same[OF gn(3)] st
  have wc: "db wc = db w" "tx_now wc = tx_now w" "row_locks wc = row_locks w4" by (simp_all add: same_tx_def)
  have "\<forall>e \<in> set (tx_Entries (newTransfer txID cmd src dst now id0 id1)).
      e_transaction_id e = tx_ID (newTransfer txID cmd src dst now id0 id1)" by simp
  from recordTransfer_Ret[OF rec _ this, unfolded wc newTransfer_ids(1), OF idem] obtain ob stx where
    p: "uuid_in env txID \<noteq> None \<and> posting_ok (db w) (tx_now w)
         (tx_row_of env (tx_now w) (newTransfer txID cmd src dst now id0 id1))
         (map (stored env (tx_now w)) (tx_Entries (newTransfer txID cmd src dst now id0 id1))) ob \<and>
       o_aggregate_id ob = txID \<and> o_event_type ob = EventPaymentCreated \<and>
       addressed env cfg EventPaymentCreated ob"
      "db w' = posting (db w) (tx_now w) (tx_row_of env (tx_now w) (newTransfer txID cmd src dst now id0 id1))
         (map (stored env (tx_now w)) (tx_Entries (newTransfer txID cmd src dst now id0 id1))) [] ob
         (tc_IdempotencyScope cmd) (tc_IdempotencyKey cmd) (marshalTransaction stx)"
      "r = created_result stx" "row_locks w' = row_locks w4"
      "loaded (db w') (t_id (tx_row_of env (tx_now w) (newTransfer txID cmd src dst now id0 id1))) stx"
    by blast
  have "\<exists>L. row_locks w' = row_locks w @ L \<and> set L = {?S, ?D} \<and> distinct L \<and> sorted L"
    using lb ff p(4) w4 by simp
  with v g p show ?thesis by blast
qed

subsection \<open>Reverse\<close>

lemma newReversal_fields [simp]:
  "tx_ID (newReversal i original reason now es) = i" "tx_Entries (newReversal i original reason now es) = es"
  "tx_Kind (newReversal i original reason now es) = TxKindReversal"
  "tx_Currency (newReversal i original reason now es) = tx_Currency original"
  "tx_ReversesTransactionID (newReversal i original reason now es) = Some (tx_ID original)"
  by (simp_all add: newReversal_def)

lemma recordReversal_Ret:
  assumes run: "recordReversal env cfg ctx cmd original rvl w = (Ret r, w')"
    and idem: "idem_of (db w) (rc_IdempotencyScope cmd) (rc_IdempotencyKey cmd) = Some row"
    and ids: "\<forall>e \<in> set (tx_Entries rvl). e_transaction_id e = tx_ID rvl"
  defines "t \<equiv> tx_row_of env (tx_now w) rvl" and "es \<equiv> map (stored env (tx_now w)) (tx_Entries rvl)"
  shows "\<exists>ob stx i. uuid_in env (tx_ID rvl) \<noteq> None \<and> posting_ok (db w) (tx_now w) t es ob \<and>
    (\<forall>x. tx_ReversesTransactionID rvl = Some x \<longrightarrow> uuid_in env x \<noteq> None) \<and>
    o_aggregate_id ob = tx_ID rvl \<and> o_event_type ob = EventPaymentReversed \<and>
    addressed env cfg EventPaymentReversed ob \<and>
    (\<forall>c \<in> set (reversal_constraints ((db w)\<lparr>ledger_transactions := ledger_transactions (db w) @ [t]\<rparr>)
        (reversal_row_of env (tx_now w) i (tx_ID original) (tx_ID rvl) (rc_Reason cmd))). fst c) \<and>
    db w' = posting (db w) (tx_now w) t es
      [reversal_row_of env (tx_now w) i (tx_ID original) (tx_ID rvl) (rc_Reason cmd)] ob
      (rc_IdempotencyScope cmd) (rc_IdempotencyKey cmd) (marshalTransaction stx) \<and>
    r = created_result stx \<and> loaded (db w') (t_id t) stx \<and> row_locks w' = row_locks w"
proof -
  from run obtain u1 w1 u2 w2 u3 w3 u4 w4 u5 w5 i wi ur wr u6 w6 u7 w7 stx w8 u8 w9 u9 w10 where
    legs: "insertTransaction env rvl w = (Ret u1, w1)" "insertEntries env (tx_Entries rvl) w1 = (Ret u2, w2)"
      "failIf ctx AfterEntriesWritten w2 = (Ret u3, w3)"
      "applyDeltas env (sortedEntriesByAccount (tx_Entries rvl)) w3 = (Ret u4, w4)"
    and f: "failIf ctx AfterBalancesUpdated w4 = (Ret u5, w5)" and nu: "newUUID env w5 = (Ret i, wi)"
    and ir: "insertReversalRecord env i (tx_ID original) (tx_ID rvl) (rc_Reason cmd) wi = (Ret ur, wr)"
    and fin: "writeOutboxEvent env cfg ctx rvl EventPaymentReversed (reversalData rvl original (rc_Reason cmd)) wr = (Ret u6, w6)"
      "failIf ctx AfterOutboxWritten w6 = (Ret u7, w7)" "loadTransaction env (tx_ID rvl) w7 = (Ret stx, w8)"
      "Complete env (rc_IdempotencyScope cmd) (rc_IdempotencyKey cmd) 201 (marshalTransaction stx)
         (Some (tx_ID rvl)) w8 = (Ret u8, w9)"
      "failIf ctx BeforeCommit w9 = (Ret u9, w10)"
    and r: "(ret \<lparr>res_Transaction = Some stx, res_ResponseStatus = 201,
          res_ResponseBody = Some (marshalTransaction stx), res_Replayed = False\<rparr> :: Result comp) w10 = (Ret r, w')"
    unfolding recordReversal_def by (elim andThen_RetE)
  let ?rr = "reversal_row_of env (tx_now w) i (tx_ID original) (tx_ID rvl) (rc_Reason cmd)"
  note pl = postLegs_Ret[OF legs ids, folded t_def es_def]
  have wi: "tx_now wi = tx_now w" "row_locks wi = row_locks w"
    "db wi = (db w)\<lparr>balances := map (settle (tx_now w) es) (balances (db w)),
      ledger_transactions := ledger_transactions (db w) @ [t], ledger_entries := ledger_entries (db w) @ es\<rparr>"
    using pl failIf_Ret[OF f] newUUID_same[OF nu] by (simp_all add: same_tx_def)
  note rv = insertReversalRecord_Ret[OF ir, unfolded wi(1)]
  have wr: "tx_now wr = tx_now w" "row_locks wr = row_locks w"
    "db wr = (db wi)\<lparr>reversals := reversals (db wi) @ [?rr]\<rparr>"
    using rv wi(1,2) by simp_all
  have "idem_of (db wr) (rc_IdempotencyScope cmd) (rc_IdempotencyKey cmd) = Some row"
    using idem wr(3) wi(3) by (simp add: idem_of_def)
  from finish_Ret[OF fin this] obtain ob u where ob: "uuid_in env (tx_ID rvl) = Some u"
    "outbox_fresh (db wr) ob" "o_aggregate_id ob = tx_ID rvl" "o_event_type ob = EventPaymentReversed"
    "addressed env cfg EventPaymentReversed ob" "row_locks w10 = row_locks wr" "loaded (db wr) u stx"
    "db w10 = (db wr)\<lparr>outbox_events := outbox_events (db wr) @ [ob],
      idempotency_records := map (\<lambda>x. if i_scope x = rc_IdempotencyScope cmd \<and> i_key x = rc_IdempotencyKey cmd
        then complete_row 201 (marshalTransaction stx) (Some u) (tx_now wr) x else x) (idempotency_records (db wr))\<rparr>"
    by blast
  have u: "u = t_id t" using ob(1) by (simp add: t_def)
  have w': "w' = w10" and r': "r = created_result stx" using r by (auto simp: ret_inv created_result_def)
  have "outbox_fresh (db w) ob" using ob(2) wi(3) wr(3) by (simp add: outbox_fresh_def)
  with pl have "posting_ok (db w) (tx_now w) t es ob" by blast
  moreover have "\<forall>c \<in> set (reversal_constraints ((db w)\<lparr>ledger_transactions := ledger_transactions (db w) @ [t]\<rparr>) ?rr). fst c"
    using rv wi(3) by (simp add: reversal_constraints_def)
  moreover have "db w' = posting (db w) (tx_now w) t es [?rr] ob (rc_IdempotencyScope cmd) (rc_IdempotencyKey cmd)
      (marshalTransaction stx)" using ob(8) wi wr u w' by (simp add: posting_def)
  moreover have "loaded (db w') (t_id t) stx"
    using ob(7,8) u w' by (simp add: loaded_def tx_of_def reversed_by_def entries_of_def)
  moreover have "row_locks w' = row_locks w" "uuid_in env (tx_ID rvl) \<noteq> None" using ob(1,6) wr w' by simp_all
  ultimately show ?thesis using ob(3-5) r' pl by blast
qed

text \<open>Entries that mirror others leg by leg, with the sign flipped.\<close>

definition mirrored :: "Entry \<Rightarrow> Entry \<Rightarrow> bool" where
  "mirrored e m \<longleftrightarrow> e_account_id m = e_account_id e \<and> e_amount m = wrap64 (- e_amount e) \<and>
     e_currency m = e_currency e \<and> e_seq m = e_seq e"

lemma executeReverse_Ret:
  assumes run: "executeReverse env cfg ctx revID cmd w = (Ret r, w')"
    and idem: "idem_of (db w) (rc_IdempotencyScope cmd) (rc_IdempotencyKey cmd) = Some row"
  shows "\<exists>u original now ms ob stx i t es.
    uuid_in env (rc_TransactionID cmd) = Some u \<and> loaded (db w) u original \<and> tx_ID original = u \<and>
    tx_Kind original \<noteq> TxKindReversal \<and> tx_ReversedByTransactionID original = None \<and>
    list_all2 mirrored (tx_Entries original) ms \<and> (\<forall>m \<in> set ms. e_transaction_id m = revID \<and> (\<exists>n. e_id m = uuid_src env n)) \<and>
    t = tx_row_of env (tx_now w) (newReversal revID original (rc_Reason cmd) now ms) \<and>
    es = map (stored env (tx_now w)) ms \<and>
    uuid_in env revID \<noteq> None \<and> uuid_in env u \<noteq> None \<and> posting_ok (db w) (tx_now w) t es ob \<and> o_aggregate_id ob = revID \<and>
    o_event_type ob = EventPaymentReversed \<and> addressed env cfg EventPaymentReversed ob \<and>
    (\<forall>c \<in> set (reversal_constraints ((db w)\<lparr>ledger_transactions := ledger_transactions (db w) @ [t]\<rparr>)
        (reversal_row_of env (tx_now w) i u revID (rc_Reason cmd))). fst c) \<and>
    db w' = posting (db w) (tx_now w) t es [reversal_row_of env (tx_now w) i u revID (rc_Reason cmd)] ob
      (rc_IdempotencyScope cmd) (rc_IdempotencyKey cmd) (marshalTransaction stx) \<and>
    r = created_result stx \<and> loaded (db w') (t_id t) stx \<and>
    (\<exists>L u'. uuid_in env u = Some u' \<and> row_locks w' = row_locks w @ L \<and>
       set L = e_account_id ` set (entries_of (db w) u') \<and> distinct L \<and> sorted L)"
proof -
  from run obtain original w1 where lt: "loadTransaction env (rc_TransactionID cmd) w = (Ret original, w1)"
    and kind: "tx_Kind original \<noteq> TxKindReversal" and rb: "tx_ReversedByTransactionID original = None"
    and rest: "andThen (listAccountsForTransaction env (tx_ID original)) (\<lambda>accountIDs.
       andThen (lockBalances env accountIDs) (\<lambda>_.
       andThen (failIf ctx AfterAccountsLocked) (\<lambda>_.
       andThen (goNow env) (\<lambda>now.
       andThen (mirrorEntries env revID (tx_Entries original) []) (\<lambda>es.
       recordReversal env cfg ctx cmd original (newReversal revID original (rc_Reason cmd) now es)))))) w1 = (Ret r, w')"
    unfolding executeReverse_def
    by (elim andThen_RetE) (auto simp: throw_Ret split: if_splits option.splits)
  from loadTransaction_loaded[OF lt] obtain u where u: "uuid_in env (rc_TransactionID cmd) = Some u"
    "loaded (db w) u original" "same_tx w w1" "row_locks w1 = row_locks w" by blast
  then have uid: "tx_ID original = u" by (auto simp: loaded_def)
  from rest obtain ids w2 m w3 u3 w4 now w5 ms w6 where
    li: "listAccountsForTransaction env (tx_ID original) w1 = (Ret ids, w2)" and lk: "lockBalances env ids w2 = (Ret m, w3)"
    and f: "failIf ctx AfterAccountsLocked w3 = (Ret u3, w4)" and gn: "goNow env w4 = (Ret now, w5)"
    and mi: "mirrorEntries env revID (tx_Entries original) [] w5 = (Ret ms, w6)"
    and rec: "recordReversal env cfg ctx cmd original (newReversal revID original (rc_Reason cmd) now ms) w6 = (Ret r, w')"
    by (elim andThen_RetE)
  from li u(3) obtain u' where u': "uuid_in env u = Some u'" "ids = remdups (map e_account_id (entries_of (db w) u'))"
      "same_tx w1 w2" "row_locks w2 = row_locks w1"
    by (auto simp: listAccountsForTransaction_def ret_inv distinct_accounts_stmt_def same_tx_def uid split: option.splits)
  note lb = lockBalances_Ret[OF lk]
  from mirrorEntries_Ret[OF mi] have mm: "same_tx w5 w6" "row_locks w6 = row_locks w5"
    "list_all2 mirrored (tx_Entries original) ms"
    "\<forall>m \<in> set ms. e_transaction_id m = revID \<and> (\<exists>n. e_id m = uuid_src env n)"
    by (auto simp: mirrored_def list_all2_conv_all_nth in_set_conv_nth)
  have w6: "db w6 = db w" "tx_now w6 = tx_now w" "row_locks w6 = row_locks w3"
    using u(3) u'(3) lb failIf_Ret[OF f] goNow_same[OF gn] mm(1,2) by (auto simp: same_tx_def)
  have "\<forall>e \<in> set (tx_Entries (newReversal revID original (rc_Reason cmd) now ms)).
      e_transaction_id e = tx_ID (newReversal revID original (rc_Reason cmd) now ms)" using mm(4) by simp
  from recordReversal_Ret[OF rec _ this, unfolded w6 newReversal_fields uid, OF idem]
  obtain ob stx i where p: "uuid_in env revID \<noteq> None" "uuid_in env u \<noteq> None"
    "posting_ok (db w) (tx_now w) (tx_row_of env (tx_now w) (newReversal revID original (rc_Reason cmd) now ms))
       (map (stored env (tx_now w)) ms) ob" "o_aggregate_id ob = revID"
    "o_event_type ob = EventPaymentReversed" "addressed env cfg EventPaymentReversed ob"
    "\<forall>c \<in> set (reversal_constraints ((db w)\<lparr>ledger_transactions := ledger_transactions (db w) @
        [tx_row_of env (tx_now w) (newReversal revID original (rc_Reason cmd) now ms)]\<rparr>)
        (reversal_row_of env (tx_now w) i u revID (rc_Reason cmd))). fst c"
    "db w' = posting (db w) (tx_now w) (tx_row_of env (tx_now w) (newReversal revID original (rc_Reason cmd) now ms))
      (map (stored env (tx_now w)) ms) [reversal_row_of env (tx_now w) i u revID (rc_Reason cmd)] ob
      (rc_IdempotencyScope cmd) (rc_IdempotencyKey cmd) (marshalTransaction stx)"
    "r = created_result stx"
    "loaded (db w') (t_id (tx_row_of env (tx_now w) (newReversal revID original (rc_Reason cmd) now ms))) stx"
    "row_locks w' = row_locks w3"
    by blast
  from lb p(11) u'(2,4) u(4) obtain L where L: "row_locks w' = row_locks w @ L"
      "set L = e_account_id ` set (entries_of (db w) u')" "distinct L" "sorted L" by auto
  show ?thesis by (intro exI conjI) (rule refl | fact)+
qed

subsection \<open>CreateAccount\<close>

definition opened_account :: "env \<Rightarrow> CreateAccountCommand \<Rightarrow> json \<Rightarrow> time \<Rightarrow> Account" where
  "opened_account env cmd meta now = \<lparr>a_id = ca_ID cmd, a_currency = ca_Currency cmd, a_kind = ca_Kind cmd,
     a_allow_overdraft = ca_AllowOverdraft cmd, a_metadata = jsonb env meta, a_created_at = now\<rparr>"

definition opened_balance :: "CreateAccountCommand \<Rightarrow> time \<Rightarrow> balance_row" where
  "opened_balance cmd now = \<lparr>b_account_id = ca_ID cmd, b_amount = 0, b_allow_overdraft = ca_AllowOverdraft cmd,
     b_version = 0, b_updated_at = now\<rparr>"

definition account_opening :: "database \<Rightarrow> Account \<Rightarrow> balance_row \<Rightarrow> string \<Rightarrow> string \<Rightarrow> json \<Rightarrow> time \<Rightarrow> database" where
  "account_opening d a b s k body now = d\<lparr>accounts := accounts d @ [a], balances := balances d @ [b],
     idempotency_records := map (\<lambda>x. if i_scope x = s \<and> i_key x = k
       then complete_row 201 body None now x else x) (idempotency_records d)\<rparr>"

lemma createAccountWork_Ret:
  assumes run: "createAccountWork env cmd meta w = (Ret r, w')"
    and idem: "idem_of (db w) (ca_IdempotencyScope cmd) (ca_IdempotencyKey cmd) = Some row"
  defines "a \<equiv> opened_account env cmd meta (tx_now w)" and "b \<equiv> opened_balance cmd (tx_now w)"
  shows "db w' = account_opening (db w) a b (ca_IdempotencyScope cmd) (ca_IdempotencyKey cmd)
      (marshalAccount (a\<lparr>a_metadata := unmarshalMetadata (a_metadata a)\<rparr>)) (tx_now w) \<and>
    (\<forall>x \<in> set (accounts (db w)). a_id x \<noteq> ca_ID cmd) \<and>
    (\<forall>x \<in> set (balances (db w)). b_account_id x \<noteq> ca_ID cmd) \<and>
    r = \<lparr>res_Transaction = None, res_ResponseStatus = 201,
         res_ResponseBody = Some (marshalAccount (a\<lparr>a_metadata := unmarshalMetadata (a_metadata a)\<rparr>)),
         res_Replayed = False\<rparr>"
proof -
  let ?body = "marshalAccount (a\<lparr>a_metadata := unmarshalMetadata (a_metadata a)\<rparr>)"
  from run obtain x w1 u w2 u' w3 where
    ia: "sql env (insert_account_stmt env cmd meta) w = (Ret x, w1)"
    and ib: "sql env (insert_balance_stmt (ca_ID cmd) (ca_AllowOverdraft cmd)) w1 = (Ret u, w2)"
    and co: "Complete env (ca_IdempotencyScope cmd) (ca_IdempotencyKey cmd) 201
        (marshalAccount (x\<lparr>a_metadata := unmarshalMetadata (a_metadata x)\<rparr>)) None w2 = (Ret u', w3)"
    and r: "(ret \<lparr>res_Transaction = None, res_ResponseStatus = 201,
         res_ResponseBody = Some (marshalAccount (x\<lparr>a_metadata := unmarshalMetadata (a_metadata x)\<rparr>)),
         res_Replayed = False\<rparr> :: Result comp) w3 = (Ret r, w')"
    unfolding createAccountWork_def Let_def by (elim andThen_RetE) (auto simp: mapErr_Ret)
  from ia have x: "x = a" "tx_now w1 = tx_now w" "db w1 = (db w)\<lparr>accounts := accounts (db w) @ [a]\<rparr>"
      "\<forall>x \<in> set (accounts (db w)). a_id x \<noteq> ca_ID cmd"
    by (auto simp: ret_inv insert_account_stmt_def checked_Inr accounts_constraints_def a_def opened_account_def
        list_all_iff Let_def)
  from ib x have w2: "tx_now w2 = tx_now w" "db w2 = (db w1)\<lparr>balances := balances (db w1) @ [b]\<rparr>"
      "\<forall>x \<in> set (balances (db w)). b_account_id x \<noteq> ca_ID cmd"
    by (auto simp: ret_inv insert_balance_stmt_def checked_Inr balances_constraints_def b_def opened_balance_def
        list_all_iff Let_def)
  have "idem_of (db w2) (ca_IdempotencyScope cmd) (ca_IdempotencyKey cmd) = Some row"
    using idem w2(2) x(3) by (simp add: idem_of_def)
  from Complete_Ret[OF co this] x w2 r show ?thesis
    by (auto simp: uuid_param_def ret_inv account_opening_def)
qed

end
