(* ===== verification/Ledger_Invariant.thy ===== *)
theory Ledger_Invariant
  imports Ledger_Posting
begin

text \<open>
  The consistency of the ledger database, and that every posting and every account opening
  keeps it. Each conjunct is a definition of its own.
\<close>

subsection \<open>The conjuncts\<close>

definition sum_of :: "Entry list \<Rightarrow> int" where
  "sum_of es = sum_list (map e_amount es)"

definition on_account :: "string \<Rightarrow> Entry list \<Rightarrow> Entry list" where
  "on_account i es = filter (\<lambda>e. e_account_id e = i) es"

text \<open>Accounts and balances correspond; only system accounts may be overdrawn.\<close>

definition accounts_ok :: "database \<Rightarrow> bool" where
  "accounts_ok d \<longleftrightarrow> distinct (map a_id (accounts d)) \<and> balances_ok (balances d) \<and>
     b_account_id ` set (balances d) = a_id ` set (accounts d) \<and>
     (\<forall>a \<in> set (accounts d). \<forall>b \<in> set (balances d). a_id a = b_account_id b \<longrightarrow> a_allow_overdraft a = b_allow_overdraft b) \<and>
     (\<forall>a \<in> set (accounts d). a_allow_overdraft a \<longrightarrow> a_kind a = KindSystem)"

text \<open>Entries are non-zero, in range, and in the currency of their transaction and account.\<close>

definition entries_ok :: "database \<Rightarrow> bool" where
  "entries_ok d \<longleftrightarrow> entry_keys_ok (ledger_entries d) \<and>
     (\<forall>e \<in> set (ledger_entries d). entry_ok (ledger_transactions d) (accounts d) e \<and> \<bar>e_amount e\<bar> < 2 ^ 63)"

text \<open>Double entry: every transaction has at least two entries, and they sum to zero.\<close>

definition double_entry :: "database \<Rightarrow> bool" where
  "double_entry d \<longleftrightarrow> distinct (map t_id (ledger_transactions d)) \<and>
     (\<forall>t \<in> set (ledger_transactions d). 2 \<le> length (entries_of d (t_id t)) \<and> sum_of (entries_of d (t_id t)) = 0)"

text \<open>Every balance is the sum of the entries of its account.\<close>

definition balances_agree :: "database \<Rightarrow> bool" where
  "balances_agree d \<longleftrightarrow> (\<forall>b \<in> set (balances d). b_amount b = sum_of (account_entries d (b_account_id b)))"

text \<open>
  A reversal points at one earlier transaction that is not a reversal, no transaction is
  reversed twice, both cancel on every account, and the table \<open>reversals\<close> lists the pairs.
\<close>

definition reversal_pairs :: "tx_row list \<Rightarrow> (string \<times> string) list" where
  "reversal_pairs ts = concat (map (\<lambda>t. case t_reverses t of None \<Rightarrow> [] | Some i \<Rightarrow> [(i, t_id t)]) ts)"

definition reversals_ok :: "database \<Rightarrow> bool" where
  "reversals_ok d \<longleftrightarrow>
     (\<forall>t \<in> set (ledger_transactions d). (t_kind t = TxKindReversal) = (t_reverses t \<noteq> None)) \<and>
     map (\<lambda>r. (r_original r, r_reversal r)) (reversals d) = reversal_pairs (ledger_transactions d) \<and>
     distinct (map fst (reversal_pairs (ledger_transactions d))) \<and>
     (\<forall>(i, j) \<in> set (reversal_pairs (ledger_transactions d)).
        (\<exists>x \<in> set (ledger_transactions d). t_id x = i \<and> t_kind x \<noteq> TxKindReversal) \<and>
        (\<forall>acc. sum_of (on_account acc (entries_of d i)) + sum_of (on_account acc (entries_of d j)) = 0))"

text \<open>One event for every transaction, in the order of the transactions.\<close>

definition event_of :: "tx_row \<Rightarrow> string \<times> string" where
  "event_of t = (t_id t, if t_kind t = TxKindReversal then EventPaymentReversed else EventPaymentCreated)"

definition outbox_ok :: "database \<Rightarrow> bool" where
  "outbox_ok d \<longleftrightarrow> distinct (map o_id (outbox_events d)) \<and>
     map (\<lambda>r. (o_aggregate_id r, o_event_type r)) (outbox_events d) = map event_of (ledger_transactions d)"

text \<open>
  Idempotency: keys are unique, no record is left in progress, and every transaction was
  made under exactly one key.
\<close>

definition idem_tx_ids :: "idem_row list \<Rightarrow> string list" where
  "idem_tx_ids rs = concat (map (\<lambda>r. case i_transaction_id r of None \<Rightarrow> [] | Some i \<Rightarrow> [i]) rs)"

definition idem_done :: "idem_row \<Rightarrow> bool" where
  "idem_done r \<longleftrightarrow> i_state r = StateCompleted \<and> i_response_status r = Some 201 \<and> i_response_body r \<noteq> None"

definition idem_ok :: "database \<Rightarrow> bool" where
  "idem_ok d \<longleftrightarrow> distinct (map (\<lambda>r. (i_scope r, i_key r)) (idempotency_records d)) \<and>
     list_all idem_done (idempotency_records d) \<and>
     idem_tx_ids (idempotency_records d) = map t_id (ledger_transactions d)"

definition core_inv :: "database \<Rightarrow> bool" where
  "core_inv d \<longleftrightarrow> accounts_ok d \<and> entries_ok d \<and> double_entry d \<and> balances_agree d \<and> reversals_ok d \<and> outbox_ok d"

definition ledger_inv :: "database \<Rightarrow> bool" where
  "ledger_inv d \<longleftrightarrow> core_inv d \<and> idem_ok d"

text \<open>The invariant with or without its part on the idempotency records.\<close>

definition inv_with :: "bool \<Rightarrow> database \<Rightarrow> bool" where
  "inv_with p d \<longleftrightarrow> core_inv d \<and> (p \<longrightarrow> idem_ok d)"

lemma inv_with_simps [simp]: "inv_with True d = ledger_inv d" "inv_with False d = core_inv d"
  by (simp_all add: inv_with_def ledger_inv_def)

lemmas core_defs = accounts_ok_def entries_ok_def double_entry_def balances_agree_def reversals_ok_def outbox_ok_def

lemma core_inv_idem [simp]: "core_inv (d\<lparr>idempotency_records := x\<rparr>) = core_inv d"
  by (simp add: core_inv_def core_defs entries_of_def account_entries_def)

lemma ledger_inv_empty: "ledger_inv empty_database"
  by (simp add: ledger_inv_def core_inv_def core_defs idem_ok_def empty_database_def balances_ok_def
      entry_keys_ok_def reversal_pairs_def idem_tx_ids_def)

subsection \<open>Postings keep it\<close>

lemma posting_fields [simp]:
  "accounts (posting d now t es rv ob s k body) = accounts d"
  "balances (posting d now t es rv ob s k body) = map (settle now es) (balances d)"
  "ledger_transactions (posting d now t es rv ob s k body) = ledger_transactions d @ [t]"
  "ledger_entries (posting d now t es rv ob s k body) = ledger_entries d @ es"
  "reversals (posting d now t es rv ob s k body) = reversals d @ rv"
  "outbox_events (posting d now t es rv ob s k body) = outbox_events d @ [ob]"
  "webhook_deliveries (posting d now t es rv ob s k body) = webhook_deliveries d"
  by (simp_all add: posting_def)

lemma posting_okD:
  assumes "posting_ok d now t es ob"
  shows "\<And>x. x \<in> set (ledger_transactions d) \<Longrightarrow> t_id x \<noteq> t_id t"
    and "\<And>e. e \<in> set es \<Longrightarrow> e_transaction_id e = t_id t"
    and "\<And>e. e \<in> set es \<Longrightarrow> entry_ok (ledger_transactions d @ [t]) (accounts d) e"
    and "balances_ok (balances d) \<Longrightarrow> balances_ok (map (settle now es) (balances d))"
    and "entry_keys_ok (ledger_entries d) \<Longrightarrow> entry_keys_ok (ledger_entries d @ es)"
    and "outbox_fresh d ob"
    and "(t_kind t = TxKindReversal) = (t_reverses t \<noteq> None)"
  using assms by (auto simp: posting_ok_def tx_constraints_def list_all_iff TxKindReversal_def)

lemma entry_ok_more: "entry_ok ts as e \<Longrightarrow> entry_ok (ts @ ts') (as @ as') e"
  by (auto simp: entry_ok_def)

lemma entries_of_posting:
  assumes "entries_ok d" and ok: "posting_ok d now t es ob"
  shows "entries_of (posting d now t es rv ob s k body) u = (if u = t_id t then es else entries_of d u)"
proof -
  have new: "filter (\<lambda>e. e_transaction_id e = u) es = (if u = t_id t then es else [])"
    using posting_okD(2)[OF ok] by (auto simp: filter_id_conv filter_empty_conv)
  have "filter (\<lambda>e. e_transaction_id e = t_id t) (ledger_entries d) = []"
    using assms(1) posting_okD(1)[OF ok] by (auto simp: filter_empty_conv entries_ok_def entry_ok_def)
  with new show ?thesis by (auto simp: entries_of_def)
qed

lemma accounts_ok_posting:
  assumes "accounts_ok d" and "posting_ok d now t es ob"
  shows "accounts_ok (posting d now t es rv ob s k body)"
proof -
  have "b_account_id ` set (map (settle now es) (balances d)) = b_account_id ` set (balances d)"
    by (simp add: image_image)
  with assms posting_okD(4)[OF assms(2)] show ?thesis by (simp add: accounts_ok_def)
qed

lemma entries_ok_posting:
  assumes "entries_ok d" and ok: "posting_ok d now t es ob" and "\<forall>e \<in> set es. \<bar>e_amount e\<bar> < 2 ^ 63"
  shows "entries_ok (posting d now t es rv ob s k body)"
  using assms posting_okD(3,5)[OF ok] entry_ok_more[of "ledger_transactions d" "accounts d" _ "[t]" "[]"]
  by (auto simp: entries_ok_def)

lemma double_entry_posting:
  assumes "entries_ok d" and "double_entry d" and ok: "posting_ok d now t es ob"
    and "2 \<le> length es" and "sum_of es = 0"
  shows "double_entry (posting d now t es rv ob s k body)"
proof -
  have "t_id t \<notin> t_id ` set (ledger_transactions d)" using posting_okD(1)[OF ok] by (metis imageE)
  with assms show ?thesis by (auto simp: double_entry_def entries_of_posting[OF assms(1) ok])
qed

lemma balances_agree_posting:
  assumes "balances_agree d"
  shows "balances_agree (posting d now t es rv ob s k body)"
  using assms by (auto simp: balances_agree_def settle_amount account_entries_def sum_of_def)

lemma outbox_ok_posting:
  assumes "outbox_ok d" and ok: "posting_ok d now t es ob"
    and "(o_aggregate_id ob, o_event_type ob) = event_of t"
  shows "outbox_ok (posting d now t es rv ob s k body)"
  using assms posting_okD(6)[OF ok] by (auto simp: outbox_ok_def outbox_fresh_def)

lemma reversal_pairs_mem:
  "(i, j) \<in> set (reversal_pairs ts) \<longleftrightarrow> (\<exists>t \<in> set ts. t_reverses t = Some i \<and> t_id t = j)"
  by (force simp: reversal_pairs_def split: option.splits)

lemma reversal_pairs_append:
  "reversal_pairs (ts @ [t]) = reversal_pairs ts @ (case t_reverses t of None \<Rightarrow> [] | Some i \<Rightarrow> [(i, t_id t)])"
  by (simp add: reversal_pairs_def)

text \<open>
  A posting that reverses nothing leaves the pairs alone; one that reverses \<open>i\<close> adds the pair,
  provided its entries cancel those of \<open>i\<close>.
\<close>

lemma reversals_ok_posting:
  assumes e: "entries_ok d" and r: "reversals_ok d" and ok: "posting_ok d now t es ob"
    and rv: "map (\<lambda>r. (r_original r, r_reversal r)) rv = (case t_reverses t of None \<Rightarrow> [] | Some i \<Rightarrow> [(i, t_id t)])"
    and new: "\<And>i. t_reverses t = Some i \<Longrightarrow>
      (\<exists>x \<in> set (ledger_transactions d). t_id x = i \<and> t_kind x \<noteq> TxKindReversal) \<and>
      (\<forall>acc. sum_of (on_account acc (entries_of d i)) + sum_of (on_account acc es) = 0)"
  shows "reversals_ok (posting d now t es rv ob s k body)"
proof -
  let ?ts = "ledger_transactions d" and ?d = "posting d now t es rv ob s k body"
  have fresh: "t_id x \<noteq> t_id t" if "x \<in> set ?ts" for x using posting_okD(1)[OF ok that] .
  note eo = entries_of_posting[OF e ok, of rv s k body]
  have dist: "distinct (map fst (reversal_pairs (?ts @ [t])))"
  proof (cases "t_reverses t")
    case (Some i)
    with ok have "\<forall>x \<in> set ?ts. t_reverses x \<noteq> Some i"
      by (auto simp: posting_ok_def tx_constraints_def list_all_iff)
    with Some r show ?thesis by (force simp: reversal_pairs_append reversals_ok_def reversal_pairs_mem)
  qed (use r in \<open>simp add: reversal_pairs_append reversals_ok_def\<close>)
  have pairs: "(\<exists>x \<in> set (?ts @ [t]). t_id x = i \<and> t_kind x \<noteq> TxKindReversal) \<and>
      (\<forall>acc. sum_of (on_account acc (entries_of ?d i)) + sum_of (on_account acc (entries_of ?d j)) = 0)"
    if mem: "(i, j) \<in> set (reversal_pairs (?ts @ [t]))" for i j
  proof (cases "(i, j) \<in> set (reversal_pairs ?ts)")
    case True
    with r have old: "(\<exists>x \<in> set ?ts. t_id x = i \<and> t_kind x \<noteq> TxKindReversal) \<and>
      (\<forall>acc. sum_of (on_account acc (entries_of d i)) + sum_of (on_account acc (entries_of d j)) = 0)"
      by (auto simp: reversals_ok_def)
    then have "i \<noteq> t_id t" using fresh by blast
    moreover have "j \<noteq> t_id t" using True fresh by (auto simp: reversal_pairs_mem)
    ultimately show ?thesis using old by (auto simp: eo)
  next
    case False
    with mem have t: "t_reverses t = Some i" "j = t_id t"
      by (auto simp: reversal_pairs_append split: option.splits)
    from new[OF t(1)] have "i \<noteq> t_id t" using fresh by blast
    with new[OF t(1)] t(2) show ?thesis by (auto simp: eo)
  qed
  have "\<forall>x \<in> set (?ts @ [t]). (t_kind x = TxKindReversal) = (t_reverses x \<noteq> None)"
    using r posting_okD(7)[OF ok] by (simp add: reversals_ok_def)
  moreover have "map (\<lambda>r. (r_original r, r_reversal r)) (reversals d @ rv) = reversal_pairs (?ts @ [t])"
    using r rv by (simp add: reversals_ok_def reversal_pairs_append)
  ultimately show ?thesis using dist pairs unfolding reversals_ok_def by simp blast
qed

lemma idem_ok_posting:
  assumes "idem_ok d" and "idem_of d s k = None"
    and "d1 = d\<lparr>idempotency_records := idempotency_records d @ [claimed_row s k h now']\<rparr>"
  shows "idem_ok (posting d1 now t es rv ob s k body)"
proof -
  have fresh: "\<forall>r \<in> set (idempotency_records d). \<not> (i_scope r = s \<and> i_key r = k)"
    using assms(2) by (simp add: idem_of_def find_None_iff)
  let ?f = "\<lambda>x. if i_scope x = s \<and> i_key x = k then complete_row 201 body (Some (t_id t)) now x else x"
  have "map ?f (idempotency_records d) = idempotency_records d"
    using fresh by (intro map_idI) auto
  with assms fresh show ?thesis
    by (auto simp: idem_ok_def posting_def idem_tx_ids_def idem_done_def)
qed

lemma triggers_posting:
  assumes "entries_ok d" and ok: "posting_ok d now t es ob" and "es \<noteq> []"
    and "deferred_triggers d (posting d now t es rv ob s k body) = None"
  shows "2 \<le> length es \<and> sum_of es = 0"
proof -
  let ?d = "posting d now t es rv ob s k body"
  obtain e where "e \<in> set es" using assms(3) by (cases es) auto
  then have "assert_transaction_balanced ?d (t_id t) = None"
    using assms(4) posting_okD(2)[OF ok] by (auto simp: deferred_triggers_def)
  then show ?thesis
    by (auto simp: assert_transaction_balanced_def entries_of_posting[OF assms(1) ok] sum_of_def Let_def
        split: if_splits)
qed

lemma core_inv_posting:
  assumes inv: "core_inv d" and ok: "posting_ok d now t es ob" and "es \<noteq> []"
    and trig: "deferred_triggers d (posting d now t es rv ob s k body) = None"
    and amt: "\<forall>e \<in> set es. \<bar>e_amount e\<bar> < 2 ^ 63"
    and ob: "(o_aggregate_id ob, o_event_type ob) = event_of t"
    and rv: "map (\<lambda>r. (r_original r, r_reversal r)) rv = (case t_reverses t of None \<Rightarrow> [] | Some i \<Rightarrow> [(i, t_id t)])"
    and new: "\<And>i. t_reverses t = Some i \<Longrightarrow>
      (\<exists>x \<in> set (ledger_transactions d). t_id x = i \<and> t_kind x \<noteq> TxKindReversal) \<and>
      (\<forall>acc. sum_of (on_account acc (entries_of d i)) + sum_of (on_account acc es) = 0)"
  shows "core_inv (posting d now t es rv ob s k body)"
proof -
  have i: "accounts_ok d" "entries_ok d" "double_entry d" "balances_agree d" "reversals_ok d" "outbox_ok d"
    using inv by (simp_all add: core_inv_def)
  note tr = triggers_posting[OF i(2) ok assms(3) trig]
  show ?thesis unfolding core_inv_def
    using accounts_ok_posting[OF i(1) ok] entries_ok_posting[OF i(2) ok amt] balances_agree_posting[OF i(4)]
      double_entry_posting[OF i(2,3) ok] tr reversals_ok_posting[OF i(2,5) ok rv] new outbox_ok_posting[OF i(6) ok ob]
    by (intro conjI) simp_all
qed

subsection \<open>Account openings keep it\<close>

lemma core_inv_opening:
  assumes inv: "core_inv d" and "\<forall>x \<in> set (accounts d). a_id x \<noteq> a_id a"
    and "\<forall>x \<in> set (balances d). b_account_id x \<noteq> a_id a"
    and b: "b_account_id b = a_id a" "b_amount b = 0" "b_version b = 0" "b_allow_overdraft b = a_allow_overdraft a"
    and sys: "a_allow_overdraft a \<longrightarrow> a_kind a = KindSystem"
  shows "core_inv (account_opening d a b s k body now)"
proof -
  let ?d = "account_opening d a b s k body now"
  have i: "accounts_ok d" "entries_ok d" "double_entry d" "balances_agree d" "reversals_ok d" "outbox_ok d"
    using inv by (simp_all add: core_inv_def)
  have row: "row_ok b" using b by (simp add: row_ok_def in64_def balances_check_def)
  have none: "\<forall>e \<in> set (ledger_entries d). e_account_id e \<noteq> a_id a"
    using i(2) assms(2) by (auto simp: entries_ok_def entry_ok_def)
  then have "account_entries d (a_id a) = []" by (simp add: account_entries_def filter_empty_conv)
  with i(4) b have "balances_agree ?d"
    by (auto simp: balances_agree_def account_opening_def account_entries_def sum_of_def)
  moreover have "accounts_ok ?d"
    using i(1) assms(2,3) b(1,4) row sys by (auto simp: accounts_ok_def account_opening_def balances_ok_def)
  moreover have "entries_ok ?d" using i(2) entry_ok_more[of "ledger_transactions d" "accounts d" _ "[]" "[a]"]
    by (auto simp: entries_ok_def account_opening_def)
  moreover have "double_entry ?d = double_entry d" "reversals_ok ?d = reversals_ok d" "outbox_ok ?d = outbox_ok d"
    by (simp_all add: double_entry_def reversals_ok_def outbox_ok_def account_opening_def entries_of_def)
  ultimately show ?thesis using i(3,5,6) by (simp add: core_inv_def)
qed

lemma idem_ok_opening:
  assumes "idem_ok d" and "idem_of d s k = None"
    and "d1 = d\<lparr>idempotency_records := idempotency_records d @ [claimed_row s k h now']\<rparr>"
  shows "idem_ok (account_opening d1 a b s k body now)"
proof -
  have fresh: "\<forall>r \<in> set (idempotency_records d). \<not> (i_scope r = s \<and> i_key r = k)"
    using assms(2) by (simp add: idem_of_def find_None_iff)
  have "map (\<lambda>x. if i_scope x = s \<and> i_key x = k then complete_row 201 body None now x else x)
      (idempotency_records d) = idempotency_records d"
    using fresh by (intro map_idI) auto
  with assms fresh show ?thesis
    by (auto simp: idem_ok_def account_opening_def idem_tx_ids_def idem_done_def)
qed

subsection \<open>The entries of a reversal\<close>

lemma wrap64_neg: "\<bar>x\<bar> < 2 ^ 63 \<Longrightarrow> wrap64 (- x) = - x"
  by (rule wrap64_id) (auto simp: in64_def abs_less_iff)

lemma mirrored_sums:
  assumes "list_all2 mirrored es ms" and "\<forall>e \<in> set es. \<bar>e_amount e\<bar> < 2 ^ 63"
  shows "sum_of (on_account acc es) + sum_of (on_account acc ms) = 0"
  using assms by (induction rule: list_all2_induct) (auto simp: mirrored_def wrap64_neg on_account_def sum_of_def)

lemma mirrored_amounts:
  assumes "list_all2 mirrored es ms" and "\<forall>e \<in> set es. \<bar>e_amount e\<bar> < 2 ^ 63"
  shows "\<forall>m \<in> set ms. \<bar>e_amount m\<bar> < 2 ^ 63"
  using assms by (induction rule: list_all2_induct) (auto simp: mirrored_def wrap64_neg)

lemma sum_of_mset: "mset es = mset es' \<Longrightarrow> sum_of (on_account acc es) = sum_of (on_account acc es')"
  by (simp add: sum_of_def on_account_def flip: sum_mset_sum_list)

lemma sum_of_stored [simp]: "sum_of (on_account acc (map (stored env now) es)) = sum_of (on_account acc es)"
  by (induction es) (auto simp: sum_of_def on_account_def)

lemma entries_of_mem: "e \<in> set (entries_of d u) \<Longrightarrow> e \<in> set (ledger_entries d)"
  by (simp add: entries_of_def)

subsection \<open>The bodies of the three use cases\<close>

text \<open>
  What is assumed of the server's UUID type and of \<open>uuid.NewString\<close>: the type's input
  function returns a canonical form, which it maps to itself, and fresh identifiers are
  canonical.
\<close>

definition uuid_ok :: "env \<Rightarrow> bool" where
  "uuid_ok env \<longleftrightarrow> (\<forall>n. uuid_in env (uuid_src env n) = Some (uuid_src env n)) \<and>
     (\<forall>s u. uuid_in env s = Some u \<longrightarrow> uuid_in env u = Some u)"

definition createAccountBody :: "env \<Rightarrow> CreateAccountCommand \<Rightarrow> json \<Rightarrow> Result comp" where
  "createAccountBody env cmd meta =
     withKey env (ca_IdempotencyScope cmd) (ca_IdempotencyKey cmd) (ca_RequestHash cmd) (createAccountWork env cmd meta)"

lemma claimed_lookup:
  assumes "idem_of d s k = None"
    and "db w1 = d\<lparr>idempotency_records := idempotency_records d @ [claimed_row s k h now]\<rparr>"
  shows "idem_of (db w1) s k = Some (claimed_row s k h now)"
  using assms by (simp add: idem_of_append)

lemma createAccountBody_core:
  assumes inv: "core_inv (db w)" and run: "createAccountBody env cmd meta w = (Ret r, w')"
    and valid: "ValidateCreateAccount cmd = None"
  shows "core_inv (db w') \<and> (idem_ok (db w) \<longrightarrow> idem_ok (db w'))"
  using withKey_Ret[OF run[unfolded createAccountBody_def]]
proof (elim disjE exE conjE)
  fix w1
  let ?s = "ca_IdempotencyScope cmd" and ?k = "ca_IdempotencyKey cmd"
  assume none: "idem_of (db w) ?s ?k = None" and now: "tx_now w1 = tx_now w"
    and d1: "db w1 = (db w)\<lparr>idempotency_records := idempotency_records (db w) @
      [claimed_row ?s ?k (ca_RequestHash cmd) (tx_now w)]\<rparr>"
    and work: "createAccountWork env cmd meta w1 = (Ret r, w')"
  note c = createAccountWork_Ret[OF work claimed_lookup[OF none d1]]
  have "core_inv (db w1)" using inv d1 by simp
  then have "core_inv (db w')"
    unfolding c[THEN conjunct1] using c valid
    by (intro core_inv_opening) (auto simp: opened_account_def opened_balance_def ValidateCreateAccount_None)
  moreover have "idem_ok (db w) \<longrightarrow> idem_ok (db w')"
    unfolding c[THEN conjunct1] using none d1 by (intro impI idem_ok_opening) auto
  ultimately show ?thesis by simp
qed (use inv in simp)

lemma createAccountBody_inv:
  assumes inv: "inv_with p (db w)" and run: "createAccountBody env cmd meta w = (Ret r, w')"
    and valid: "ValidateCreateAccount cmd = None"
  shows "inv_with p (db w')"
  using createAccountBody_core[OF _ run valid] inv by (simp add: inv_with_def)

lemma transferBody_core:
  assumes inv: "core_inv (db w)" and run: "transferBody env cfg ctx txID cmd w = (Ret r, w')"
    and trig: "deferred_triggers (db w) (db w') = None"
    and id: "uuid_in env txID = Some txID" and amount: "0 < tc_Amount cmd" "in64 (tc_Amount cmd)"
  shows "core_inv (db w') \<and> (idem_ok (db w) \<longrightarrow> idem_ok (db w'))"
  using withKey_Ret[OF run[unfolded transferBody_def]]
proof (elim disjE exE conjE)
  fix w1
  let ?s = "tc_IdempotencyScope cmd" and ?k = "tc_IdempotencyKey cmd"
  assume none: "idem_of (db w) ?s ?k = None" and now: "tx_now w1 = tx_now w"
    and d1: "db w1 = (db w)\<lparr>idempotency_records := idempotency_records (db w) @
      [claimed_row ?s ?k (tc_RequestHash cmd) (tx_now w)]\<rparr>"
    and work: "executeTransfer env cfg ctx txID cmd w1 = (Ret r, w')"
  from executeTransfer_Ret[OF work claimed_lookup[OF none d1]] obtain src dst nw id0 id1 ob stx t es where
    t: "t = tx_row_of env (tx_now w1) (newTransfer txID cmd src dst nw id0 id1)"
    and es: "es = map (stored env (tx_now w1)) (tx_Entries (newTransfer txID cmd src dst nw id0 id1))"
    and ok: "posting_ok (db w1) (tx_now w1) t es ob" and ob: "o_aggregate_id ob = txID" "o_event_type ob = EventPaymentCreated"
    and d': "db w' = posting (db w1) (tx_now w1) t es [] ob ?s ?k (marshalTransaction stx)"
    by (elim exE conjE) (rule that; assumption)
  have amt: "\<forall>e \<in> set es. \<bar>e_amount e\<bar> < 2 ^ 63"
    using amount wrap64_neg[of "tc_Amount cmd"] by (auto simp: es newTransfer_def in64_def)
  have ev: "(o_aggregate_id ob, o_event_type ob) = event_of t"
    using ob id by (simp add: t event_of_def newTransfer_def ledger_kind_defs)
  have tr: "deferred_triggers (db w1) (posting (db w1) (tx_now w1) t es [] ob ?s ?k (marshalTransaction stx)) = None"
    using trig d1 by (simp add: d' deferred_triggers_def)
  have "core_inv (db w1)" using inv d1 by simp
  then have "core_inv (db w')" unfolding d'
    by (rule core_inv_posting[OF _ ok _ tr amt ev]) (simp_all add: t es newTransfer_def)
  moreover have "idem_ok (db w) \<longrightarrow> idem_ok (db w')"
    unfolding d' using none d1 by (intro impI idem_ok_posting) auto
  ultimately show ?thesis by simp
qed (use inv in simp)

lemma transferBody_inv:
  assumes inv: "inv_with p (db w)" and run: "transferBody env cfg ctx txID cmd w = (Ret r, w')"
    and trig: "deferred_triggers (db w) (db w') = None"
    and id: "uuid_in env txID = Some txID" and amount: "0 < tc_Amount cmd" "in64 (tc_Amount cmd)"
  shows "inv_with p (db w')"
  using transferBody_core[OF _ run trig id amount] inv by (simp add: inv_with_def)

lemma reverseBody_core:
  assumes inv: "core_inv (db w)" and run: "reverseBody env cfg ctx revID cmd w = (Ret r, w')"
    and trig: "deferred_triggers (db w) (db w') = None"
    and id: "uuid_in env revID = Some revID" and env: "uuid_ok env"
  shows "core_inv (db w') \<and> (idem_ok (db w) \<longrightarrow> idem_ok (db w'))"
  using withKey_Ret[OF run[unfolded reverseBody_def]]
proof (elim disjE exE conjE)
  fix w1
  let ?s = "rc_IdempotencyScope cmd" and ?k = "rc_IdempotencyKey cmd"
  assume none: "idem_of (db w) ?s ?k = None" and now: "tx_now w1 = tx_now w"
    and d1: "db w1 = (db w)\<lparr>idempotency_records := idempotency_records (db w) @
      [claimed_row ?s ?k (rc_RequestHash cmd) (tx_now w)]\<rparr>"
    and work: "executeReverse env cfg ctx revID cmd w1 = (Ret r, w')"
  from executeReverse_Ret[OF work claimed_lookup[OF none d1]] obtain u original nw ms ob stx i t es where
    u: "uuid_in env (rc_TransactionID cmd) = Some u" and ld: "loaded (db w1) u original" and uid: "tx_ID original = u"
    and kind: "tx_Kind original \<noteq> TxKindReversal" and ms: "list_all2 mirrored (tx_Entries original) ms"
    and t: "t = tx_row_of env (tx_now w1) (newReversal revID original (rc_Reason cmd) nw ms)"
    and es: "es = map (stored env (tx_now w1)) ms"
    and ok: "posting_ok (db w1) (tx_now w1) t es ob" and ob: "o_aggregate_id ob = revID" "o_event_type ob = EventPaymentReversed"
    and d': "db w' = posting (db w1) (tx_now w1) t es [reversal_row_of env (tx_now w1) i u revID (rc_Reason cmd)] ob
      ?s ?k (marshalTransaction stx)"
    by (elim exE conjE) (rule that; assumption)
  have core: "core_inv (db w1)" using inv d1 by simp
  have uu: "uuid_in env u = Some u" using u env by (auto simp: uuid_ok_def)
  from ld obtain x where x: "tx_of (db w1) u = Some x" "tx_Kind original = t_kind x"
    and eo: "tx_Entries original = sort_key e_seq (entries_of (db w1) u)" by (auto simp: loaded_def)
  have small: "\<forall>e \<in> set (tx_Entries original). \<bar>e_amount e\<bar> < 2 ^ 63"
    using core by (auto simp: eo core_inv_def entries_ok_def dest: entries_of_mem)
  have amt: "\<forall>e \<in> set es. \<bar>e_amount e\<bar> < 2 ^ 63" using mirrored_amounts[OF ms small] by (simp add: es)
  have ev: "(o_aggregate_id ob, o_event_type ob) = event_of t"
    using ob id by (simp add: t event_of_def)
  have tr: "deferred_triggers (db w1) (posting (db w1) (tx_now w1) t es
      [reversal_row_of env (tx_now w1) i u revID (rc_Reason cmd)] ob ?s ?k (marshalTransaction stx)) = None"
    using trig d1 by (simp add: d' deferred_triggers_def)
  have "length (entries_of (db w1) u) \<ge> 2" using core x(1) tx_of_id[OF x(1)] by (auto simp: core_inv_def double_entry_def)
  then have ne: "es \<noteq> []" using list_all2_lengthD[OF ms] by (auto simp: es eo)
  have sums: "sum_of (on_account acc (entries_of (db w1) u)) + sum_of (on_account acc es) = 0" for acc
    using mirrored_sums[OF ms small, of acc] sum_of_mset[of "tx_Entries original" "entries_of (db w1) u" acc]
    by (simp add: eo es)
  have "core_inv (db w')" unfolding d'
  proof (rule core_inv_posting[OF core ok ne tr amt ev])
    show "map (\<lambda>r. (r_original r, r_reversal r)) [reversal_row_of env (tx_now w1) i u revID (rc_Reason cmd)] =
        (case t_reverses t of None \<Rightarrow> [] | Some i \<Rightarrow> [(i, t_id t)])"
      by (simp add: t uid uu id reversal_row_of_def)
    fix j assume "t_reverses t = Some j"
    then have "j = u" by (simp add: t uid uu)
    moreover have "\<exists>x \<in> set (ledger_transactions (db w1)). t_id x = u \<and> t_kind x \<noteq> TxKindReversal"
      using kind x tx_of_id[OF x(1)] by auto
    ultimately show "(\<exists>x \<in> set (ledger_transactions (db w1)). t_id x = j \<and> t_kind x \<noteq> TxKindReversal) \<and>
        (\<forall>acc. sum_of (on_account acc (entries_of (db w1) j)) + sum_of (on_account acc es) = 0)"
      using sums by simp
  qed
  moreover have "idem_ok (db w) \<longrightarrow> idem_ok (db w')"
    unfolding d' using none d1 by (intro impI idem_ok_posting) auto
  ultimately show ?thesis by simp
qed (use inv in simp)

lemma reverseBody_inv:
  assumes inv: "inv_with p (db w)" and run: "reverseBody env cfg ctx revID cmd w = (Ret r, w')"
    and trig: "deferred_triggers (db w) (db w') = None"
    and id: "uuid_in env revID = Some revID" and env: "uuid_ok env"
  shows "inv_with p (db w')"
  using reverseBody_core[OF _ run trig id env] inv by (simp add: inv_with_def)

end
