(* ===== verification/Ledger_Outcome.thy ===== *)
theory Ledger_Outcome
  imports Ledger_Invariant
begin

text \<open>
  How a call of \<open>CreateAccount\<close>, \<open>Transfer\<close> or \<open>Reverse\<close> can end, whatever fails around
  it: with the database it started from, or with the database of one committed run of its
  transaction body. The bodies implement the contract \<open>tx_body\<close> of \<open>InTx\<close>.
\<close>

subsection \<open>The bodies meet the contract of a transaction\<close>

definition transfer_ok :: "env \<Rightarrow> string \<Rightarrow> TransferCommand \<Rightarrow> bool" where
  "transfer_ok env txID cmd \<longleftrightarrow> uuid_in env txID = Some txID \<and> 0 < tc_Amount cmd \<and> in64 (tc_Amount cmd)"

interpretation create_tx: tx_body "createAccountBody env cmd meta"
  "\<lambda>d. ValidateCreateAccount cmd = None \<longrightarrow> inv_with p d" for env cmd meta p
  by unfold_locales (auto intro: createAccountBody_inv)

interpretation transfer_tx: tx_body "transferBody env cfg ctx txID cmd"
  "\<lambda>d. transfer_ok env txID cmd \<longrightarrow> inv_with p d" for env cfg ctx txID cmd p
  by unfold_locales (auto simp: transfer_ok_def intro: transferBody_inv)

interpretation reverse_tx: tx_body "reverseBody env cfg ctx revID cmd"
  "\<lambda>d. uuid_in env revID = Some revID \<and> uuid_ok env \<longrightarrow> inv_with p d" for env cfg ctx revID cmd p
  by unfold_locales (auto intro: reverseBody_inv)

subsection \<open>Outcomes\<close>

text \<open>
  \<open>took_effect body r d d'\<close>: the call that answered \<open>r\<close> committed one run of \<open>body\<close>. Its
  answer is that of the run, or an error or a crash after the commit.
\<close>

definition took_effect :: "Result comp \<Rightarrow> Result result \<Rightarrow> database \<Rightarrow> database \<Rightarrow> bool" where
  "took_effect body r d d' \<longleftrightarrow> (\<exists>x. committed body d x d' \<and> (\<forall>y. r = Ret y \<longrightarrow> y = x))"

definition no_effect :: "Result result \<Rightarrow> database \<Rightarrow> database \<Rightarrow> bool" where
  "no_effect r d d' \<longleftrightarrow> d' = d \<and> (\<forall>y. r \<noteq> Ret y)"

lemma InTx_effect:
  "InTx env k body w = (r, w') \<Longrightarrow> no_effect r (db w) (db w') \<or> took_effect body r (db w) (db w')"
  by (drule InTx_outcome) (auto simp: no_effect_def took_effect_def)

lemma mapErr_fp_db: "mapErr g (fpEval ov name) w = (r, w') \<Longrightarrow> db w' = db w"
  by (auto simp: mapErr_def dest: fpEval_db split: prod.splits res.splits)

lemma failIf_db: "failIf ctx name w = (r, w') \<Longrightarrow> db w' = db w"
  unfolding failIf_def by (rule mapErr_fp_db)

lemma CreateAccount_effect:
  assumes "CreateAccount env cfg cmd w = (r, w')"
  shows "no_effect r (db w) (db w') \<or> (ValidateCreateAccount cmd = None \<and>
    (\<exists>meta. took_effect (createAccountBody env cmd meta) r (db w) (db w')))"
proof (cases "ValidateCreateAccount cmd")
  case None
  with assms InTx_effect[of env "DBMaxTxRetries cfg" "createAccountBody env cmd _" w r w'] show ?thesis
    unfolding CreateAccount_def createAccountBody_def Let_def by auto
next
  case (Some e)
  with assms show ?thesis by (auto simp: CreateAccount_def throw_def no_effect_def)
qed

text \<open>The frame both money movements share: a failpoint, a fresh identifier, the transaction, a failpoint.\<close>

lemma framed_effect:
  assumes run: "andThen (failIf ctx n1) (\<lambda>_. andThen (newUUID env) (\<lambda>i.
      andThen (InTx env k (body i)) (rest i))) w = (r, w')"
    and rest: "\<And>i x w1 r w'. rest i x w1 = (r, w') \<Longrightarrow> db w' = db w1 \<and> (\<forall>y. r = Ret y \<longrightarrow> y = x)"
  shows "no_effect r (db w) (db w') \<or> (\<exists>n. took_effect (body (uuid_src env n)) r (db w) (db w'))"
proof -
  obtain r1 w1 where f: "failIf ctx n1 w = (r1, w1)" by fastforce
  then have d1: "db w1 = db w" by (rule failIf_db)
  show ?thesis
  proof (cases r1)
    case (Ret u)
    let ?i = "uuid_src env (tick w1)"
    obtain r2 w2 where t: "InTx env k (body ?i) (tickw w1) = (r2, w2)" by fastforce
    note e = InTx_effect[OF t, unfolded tickw_fields d1]
    have run': "(case r2 of Ret x \<Rightarrow> rest ?i x w2 | Err e \<Rightarrow> (Err e, w2) | Panic p \<Rightarrow> (Panic p, w2)) = (r, w')"
      using run f Ret t by (auto simp: andThen_def newUUID_def split: res.splits)
    show ?thesis
    proof (cases r2)
      case r2: (Ret x)
      with run' rest have "db w' = db w2" "\<forall>y. r = Ret y \<longrightarrow> y = x" by fastforce+
      with e r2 show ?thesis by (auto simp: no_effect_def took_effect_def)
    qed (use run' e in \<open>auto simp: no_effect_def\<close>)
  qed (use run f d1 in \<open>auto simp: andThen_def no_effect_def\<close>)
qed

lemma after_commit_frame:
  assumes "andThen (mapErr lostResponse (fpEval ov name)) (\<lambda>_. ret x) w1 = (r, w')"
  shows "db w' = db w1 \<and> (\<forall>y. r = Ret y \<longrightarrow> y = x)"
  using assms
  by (cases "mapErr lostResponse (fpEval ov name) w1")
    (auto simp: andThen_def ret_def dest: mapErr_fp_db split: res.splits)

lemma Transfer_effect:
  assumes "Transfer env cfg ctx cmd w = (r, w')"
  shows "no_effect r (db w) (db w') \<or> (ValidateTransfer cmd = None \<and>
    (\<exists>ctx' n. took_effect (transferBody env cfg ctx' (uuid_src env n) cmd) r (db w) (db w')))"
proof (cases "ValidateTransfer cmd")
  case None
  have rest: "db w' = db w1 \<and> (\<forall>y. r = Ret y \<longrightarrow> y = x)"
    if "(if res_Replayed x then ret x
        else andThen (mapErr lostResponse (fpEval (cx_failpoints ctx) AfterCommit)) (\<lambda>_. ret x)) w1 = (r, w')"
    for x w1 r w'
    using that after_commit_frame[of "cx_failpoints ctx" AfterCommit x w1 r w']
    by (cases "res_Replayed x") (auto simp: ret_def)
  from None assms have "andThen (failIf ctx BeforeTxBegin) (\<lambda>_. andThen (newUUID env) (\<lambda>i.
      andThen (InTx env (DBMaxTxRetries cfg) (transferBody env cfg (WithTransactionID ctx i) i cmd)) (\<lambda>x.
        if res_Replayed x then ret x
        else andThen (mapErr lostResponse (fpEval (cx_failpoints ctx) AfterCommit)) (\<lambda>_. ret x)))) w = (r, w')"
    by (simp add: Transfer_def)
  from framed_effect[OF this rest] None show ?thesis by blast
next
  case (Some e)
  with assms show ?thesis by (auto simp: Transfer_def throw_def no_effect_def)
qed

lemma Reverse_effect:
  assumes "Reverse env cfg ctx cmd w = (r, w')"
  shows "no_effect r (db w) (db w') \<or> (rc_TransactionID cmd \<noteq> [] \<and>
    (\<exists>ctx' n. took_effect (reverseBody env cfg ctx' (uuid_src env n) cmd) r (db w) (db w')))"
proof (cases "rc_TransactionID cmd = []")
  case False
  with assms show ?thesis unfolding Reverse_def
    by (auto dest!: framed_effect[where body = "\<lambda>i. reverseBody env cfg (WithTransactionID ctx i) i cmd"]
        dest: after_commit_frame)
next
  case True
  with assms show ?thesis by (auto simp: Reverse_def throw_def no_effect_def)
qed

subsection \<open>The invariant across calls\<close>

lemma CreateAccount_inv:
  assumes "inv_with p (db w)" and "CreateAccount env cfg cmd w = (r, w')"
  shows "inv_with p (db w')"
  using CreateAccount_effect[OF assms(2)] assms(1) create_tx.committed_keeps[of cmd p "db w" env _ _ "db w'"]
  by (auto simp: no_effect_def took_effect_def)

lemma Transfer_inv:
  assumes "inv_with p (db w)" and "uuid_ok env" and "in64 (tc_Amount cmd)" and "Transfer env cfg ctx cmd w = (r, w')"
  shows "inv_with p (db w')"
  using Transfer_effect[OF assms(4)]
proof (elim disjE conjE exE)
  fix ctx' n assume v: "ValidateTransfer cmd = None"
    and e: "took_effect (transferBody env cfg ctx' (uuid_src env n) cmd) r (db w) (db w')"
  have "transfer_ok env (uuid_src env n) cmd"
    using v assms(2,3) by (auto simp: transfer_ok_def uuid_ok_def ValidateTransfer_None)
  with e assms(1) transfer_tx.committed_keeps[of env "uuid_src env n" cmd p "db w" cfg ctx'] show ?thesis
    by (auto simp: took_effect_def)
qed (use assms(1) in \<open>simp add: no_effect_def\<close>)

lemma Reverse_inv:
  assumes "inv_with p (db w)" and "uuid_ok env" and "Reverse env cfg ctx cmd w = (r, w')"
  shows "inv_with p (db w')"
  using Reverse_effect[OF assms(3)]
proof (elim disjE conjE exE)
  fix ctx' n assume e: "took_effect (reverseBody env cfg ctx' (uuid_src env n) cmd) r (db w) (db w')"
  have "uuid_in env (uuid_src env n) = Some (uuid_src env n)" using assms(2) by (simp add: uuid_ok_def)
  with e assms(1,2) reverse_tx.committed_keeps[of env "uuid_src env n" p "db w" cfg ctx' cmd] show ?thesis
    by (auto simp: took_effect_def)
qed (use assms(1) in \<open>simp add: no_effect_def\<close>)

end
