(* ===== verification/Ledger_Replay.thy ===== *)
theory Ledger_Replay
  imports Ledger_Outcome
begin

text \<open>
  What a committed run says about the idempotency record of its key, and the forward
  direction: a healthy retry of a recorded request returns the recorded response.
\<close>

subsection \<open>The record a committed run leaves\<close>

definition recorded :: "database \<Rightarrow> string \<Rightarrow> string \<Rightarrow> string \<Rightarrow> Result \<Rightarrow> bool" where
  "recorded d s k h x \<longleftrightarrow> (\<exists>row. idem_of d s k = Some row \<and> i_request_hash row = h \<and>
     i_state row = StateCompleted \<and> i_response_body row = res_ResponseBody x \<and>
     (case i_response_status row of None \<Rightarrow> 0 | Some st \<Rightarrow> st) = res_ResponseStatus x)"

lemma idem_of_posting:
  assumes "idem_of d s k = Some r"
  shows "idem_of (posting d now t es rv ob s k body) s' k' =
    (if s' = s \<and> k' = k then Some (complete_row 201 body (Some (t_id t)) now r) else idem_of d s' k')"
  using idem_of_update[OF assms, of "complete_row 201 body (Some (t_id t)) now" s' k']
  by (simp add: posting_def idem_of_def)

lemma posting_recorded:
  assumes "idem_of d s k = Some (claimed_row s k h now0)" and "body = marshalTransaction stx"
  shows "recorded (posting d now t es rv ob s k body) s k h (created_result stx)"
  by (simp add: recorded_def idem_of_posting[OF assms(1)] created_result_def assms(2))

lemma transferBody_Ret:
  assumes run: "transferBody env cfg ctx txID cmd w = (Ret x, w')"
  defines "s \<equiv> tc_IdempotencyScope cmd" and "k \<equiv> tc_IdempotencyKey cmd"
  shows "(res_Replayed x \<and> db w' = db w \<and> recorded (db w) s k (tc_RequestHash cmd) x)
    \<or> (\<not> res_Replayed x \<and> idem_of (db w) s k = None \<and> recorded (db w') s k (tc_RequestHash cmd) x \<and>
       (\<exists>w1. tx_now w1 = tx_now w \<and> row_locks w1 = row_locks w \<and>
         db w1 = (db w)\<lparr>idempotency_records := idempotency_records (db w) @
           [claimed_row s k (tc_RequestHash cmd) (tx_now w)]\<rparr> \<and>
         executeTransfer env cfg ctx txID cmd w1 = (Ret x, w')))"
  using withKey_Ret[OF run[unfolded transferBody_def], folded s_def k_def]
proof (elim disjE exE conjE)
  fix w1
  assume none: "idem_of (db w) s k = None"
    and w1: "tx_now w1 = tx_now w" "row_locks w1 = row_locks w"
    and d1: "db w1 = (db w)\<lparr>idempotency_records := idempotency_records (db w) @
      [claimed_row s k (tc_RequestHash cmd) (tx_now w)]\<rparr>"
    and work: "executeTransfer env cfg ctx txID cmd w1 = (Ret x, w')"
  note cl = claimed_lookup[OF none d1]
  from executeTransfer_Ret[OF work cl[unfolded s_def k_def], folded s_def k_def] obtain ob stx t es where
    "db w' = posting (db w1) (tx_now w1) t es [] ob s k (marshalTransaction stx)" "x = created_result stx"
    by (elim exE conjE) (rule that; assumption)
  with posting_recorded[OF cl] have "recorded (db w') s k (tc_RequestHash cmd) x" "\<not> res_Replayed x"
    by (simp_all add: created_result_def)
  with none w1 d1 work show ?thesis by blast
qed (auto simp: recorded_def)

lemma reverseBody_Ret:
  assumes run: "reverseBody env cfg ctx revID cmd w = (Ret x, w')"
  defines "s \<equiv> rc_IdempotencyScope cmd" and "k \<equiv> rc_IdempotencyKey cmd"
  shows "(res_Replayed x \<and> db w' = db w \<and> recorded (db w) s k (rc_RequestHash cmd) x)
    \<or> (\<not> res_Replayed x \<and> idem_of (db w) s k = None \<and> recorded (db w') s k (rc_RequestHash cmd) x \<and>
       (\<exists>w1. tx_now w1 = tx_now w \<and> row_locks w1 = row_locks w \<and>
         db w1 = (db w)\<lparr>idempotency_records := idempotency_records (db w) @
           [claimed_row s k (rc_RequestHash cmd) (tx_now w)]\<rparr> \<and>
         executeReverse env cfg ctx revID cmd w1 = (Ret x, w')))"
  using withKey_Ret[OF run[unfolded reverseBody_def], folded s_def k_def]
proof (elim disjE exE conjE)
  fix w1
  assume none: "idem_of (db w) s k = None"
    and w1: "tx_now w1 = tx_now w" "row_locks w1 = row_locks w"
    and d1: "db w1 = (db w)\<lparr>idempotency_records := idempotency_records (db w) @
      [claimed_row s k (rc_RequestHash cmd) (tx_now w)]\<rparr>"
    and work: "executeReverse env cfg ctx revID cmd w1 = (Ret x, w')"
  note cl = claimed_lookup[OF none d1]
  from executeReverse_Ret[OF work cl[unfolded s_def k_def], folded s_def k_def] obtain ob stx t es rv where
    "db w' = posting (db w1) (tx_now w1) t es rv ob s k (marshalTransaction stx)" "x = created_result stx"
    by (elim exE conjE) (rule that; assumption)
  with posting_recorded[OF cl] have "recorded (db w') s k (rc_RequestHash cmd) x" "\<not> res_Replayed x"
    by (simp_all add: created_result_def)
  with none w1 d1 work show ?thesis by blast
qed (auto simp: recorded_def)

text \<open>A call that changed the database has recorded its request.\<close>

lemma Transfer_recorded:
  assumes "Transfer env cfg ctx cmd w = (r, w')" and "db w' \<noteq> db w \<or> r = Ret y"
  shows "\<exists>x. recorded (db w') (tc_IdempotencyScope cmd) (tc_IdempotencyKey cmd) (tc_RequestHash cmd) x \<and>
    (\<forall>y. r = Ret y \<longrightarrow> y = x)"
  using Transfer_effect[OF assms(1)] assms(2)
  by (auto simp: no_effect_def took_effect_def committed_def dest!: transferBody_Ret)

lemma Reverse_recorded:
  assumes "Reverse env cfg ctx cmd w = (r, w')" and "db w' \<noteq> db w \<or> r = Ret y"
  shows "\<exists>x. recorded (db w') (rc_IdempotencyScope cmd) (rc_IdempotencyKey cmd) (rc_RequestHash cmd) x \<and>
    (\<forall>y. r = Ret y \<longrightarrow> y = x)"
  using Reverse_effect[OF assms(1)] assms(2)
  by (auto simp: no_effect_def took_effect_def committed_def dest!: reverseBody_Ret)

subsection \<open>A healthy retry\<close>

text \<open>The identifiers the tables hold are canonical.\<close>

definition canonical :: "(string \<Rightarrow> string option) \<Rightarrow> database \<Rightarrow> bool" where
  "canonical uin d \<longleftrightarrow> (\<forall>t \<in> set (ledger_transactions d). uin (t_id t) = Some (t_id t))"

lemma reversed_by_Inr:
  assumes "reversals_ok d"
  shows "\<exists>rb. reversed_by d i = Inr rb"
proof -
  have "length (filter (\<lambda>r. t_reverses r = Some i) (ledger_transactions d)) \<le> 1"
    using assms
  proof -
    have "distinct (map fst (reversal_pairs ts)) \<Longrightarrow> length (filter (\<lambda>r. t_reverses r = Some i) ts) \<le> 1" for ts
    proof (induction ts)
      case (Cons t ts)
      have "filter (\<lambda>r. t_reverses r = Some i) ts = []" if "t_reverses t = Some i"
      proof -
        have "i \<notin> fst ` set (reversal_pairs ts)"
          using Cons.prems that by (simp add: reversal_pairs_def)
        then have "t_reverses x \<noteq> Some i" if "x \<in> set ts" for x
          using that reversal_pairs_mem[of i "t_id x" ts] by force
        then show ?thesis by (simp add: filter_empty_conv)
      qed
      with Cons show ?case by (auto simp: reversal_pairs_def split: option.splits)
    qed (simp add: reversal_pairs_def)
    with assms show ?thesis by (simp add: reversals_ok_def)
  qed
  then show ?thesis
    by (auto simp: reversed_by_def split: list.splits)
qed

lemma tx_of_Some: "t \<in> set (ledger_transactions d) \<Longrightarrow> \<exists>x. tx_of d (t_id t) = Some x"
  by (metis (mono_tags, lifting) find_None_iff2 not_Some_eq tx_of_def)

lemma loadTransaction_run:
  assumes "healthy env" and "reversals_ok (db w)" and "canonical (uuid_in env) (db w)"
    and "t \<in> set (ledger_transactions (db w))"
  shows "\<exists>x w'. loadTransaction env (t_id t) w = (Ret x, w') \<and> db w' = db w \<and> fps w' = fps w"
proof -
  obtain x where x: "tx_of (db w) (t_id t) = Some x" using tx_of_Some[OF assms(4)] by blast
  obtain rb where rb: "reversed_by (db w) (t_id t) = Inr rb" using reversed_by_Inr[OF assms(2)] by blast
  have u: "uuid_in env (t_id t) = Some (t_id t)" using assms(3,4) by (auto simp: canonical_def)
  have h: "\<And>n. fault env n = None" using assms(1) by (simp add: healthy_def)
  show ?thesis
    by (simp add: loadTransaction_def andThen_def mapErr_def sql_def h select_transaction_stmt_def
        select_entries_stmt_def u x rb tx_of_id[OF x] ret_def)
qed

lemma withKey_taken:
  assumes "healthy env" and inv: "ledger_inv (db w)" and can: "canonical (uuid_in env) (db w)"
    and row: "idem_of (db w) s k = Some row"
  shows "(i_request_hash row = h \<longrightarrow> (\<exists>x w'. withKey env s k h work w = (Ret x, w') \<and> db w' = db w \<and> fps w' = fps w \<and>
        res_Replayed x \<and> recorded (db w) s k h x))
    \<and> (i_request_hash row \<noteq> h \<longrightarrow> (\<exists>w'. withKey env s k h work w = (Err (Conflict k), w')))"
proof -
  have h: "\<And>n. fault env n = None" using assms(1) by (simp add: healthy_def)
  have fin: "idem_done row" and ids: "idem_tx_ids (idempotency_records (db w)) = map t_id (ledger_transactions (db w))"
    using inv idem_of_id[OF row] by (auto simp: ledger_inv_def idem_ok_def list_all_iff)
  let ?w = "w\<lparr>adv_locks := adv_locks w @ [lock_id s k], tick := Suc (Suc (Suc (tick w)))\<rparr>"
  have pre: "withKey env s k h work w = replayResult env (idem_record_of row) h k ?w"
    by (simp add: withKey_def andThen_def LockKey_def mapErr_def sql_def h Claim_def claim_stmt_taken[OF row]
        Fetch_def fetch_stmt_def row ret_def tickw_def)
  show ?thesis
  proof (cases "i_transaction_id row")
    case None
    with pre fin show ?thesis
      by (auto simp: replayResult_def idem_record_of_def throw_def ret_def recorded_def row idem_done_def Let_def)
  next
    case (Some i)
    have "i \<in> set (idem_tx_ids (idempotency_records (db w)))"
      using idem_of_id[OF row] Some by (force simp: idem_tx_ids_def)
    then obtain t where t: "t \<in> set (ledger_transactions (db w))" "t_id t = i" unfolding ids by auto
    have "reversals_ok (db ?w)" "canonical (uuid_in env) (db ?w)" "t \<in> set (ledger_transactions (db ?w))"
      using inv can t by (simp_all add: ledger_inv_def core_inv_def)
    from loadTransaction_run[OF assms(1) this] obtain x w' where
      "loadTransaction env i ?w = (Ret x, w')" "db w' = db w" "fps w' = fps w"
      using t(2) by auto
    with pre fin Some show ?thesis
      by (auto simp: replayResult_def idem_record_of_def throw_def ret_def recorded_def row idem_done_def Let_def
          andThen_def)
  qed
qed

lemma failIf_off: "\<not> Enabled (fps w) \<Longrightarrow> failIf ctx n w = (Ret (), w)"
  by (simp add: failIf_def mapErr_def fpEval_def Eval_disabled)

lemma deferred_triggers_same: "deferred_triggers d d = None"
  by (simp add: deferred_triggers_def)

lemma Conflict_final: "\<not> snd (retryReason (Conflict k))"
  by (simp add: retryReason_def Conflict_def apperr_defs)

end
