(* ===== verification/Ledger_Steps.thy ===== *)
theory Ledger_Steps
  imports Ledger_Replay "HOL-Library.Sublist"
begin

text \<open>
  The ledger as a state machine on the committed database: each step is one call of a use
  case under an arbitrary environment (any pattern of failing statements, lost
  acknowledgements, failpoints, crashes). A step leaves the database alone, opens one
  account or posts one transaction.
\<close>

inductive ledger_step :: "(string \<Rightarrow> string option) \<Rightarrow> database \<Rightarrow> database \<Rightarrow> bool"
  for uin :: "string \<Rightarrow> string option" where
  create: "uuid_ok env \<Longrightarrow> uuid_in env = uin \<Longrightarrow> CreateAccount env cfg ca w = (r, w') \<Longrightarrow>
    ledger_step uin (db w) (db w')"
| transfer: "uuid_ok env \<Longrightarrow> uuid_in env = uin \<Longrightarrow> in64 (tc_Amount tc) \<Longrightarrow>
    Transfer env cfg ctx tc w = (r, w') \<Longrightarrow> ledger_step uin (db w) (db w')"
| reverse: "uuid_ok env \<Longrightarrow> uuid_in env = uin \<Longrightarrow> Reverse env cfg ctx rc w = (r, w') \<Longrightarrow>
    ledger_step uin (db w) (db w')"

inductive_cases ledger_stepE: "ledger_step uin d d'"

text \<open>The three shapes of a step.\<close>

definition claimed_db :: "database \<Rightarrow> string \<Rightarrow> string \<Rightarrow> string \<Rightarrow> time \<Rightarrow> database" where
  "claimed_db d s k h now = d\<lparr>idempotency_records := idempotency_records d @ [claimed_row s k h now]\<rparr>"

definition posts :: "(string \<Rightarrow> string option) \<Rightarrow> database \<Rightarrow> database \<Rightarrow> bool" where
  "posts uin d d' \<longleftrightarrow> (\<exists>s k h now t es rv ob body. idem_of d s k = None \<and> uin (t_id t) = Some (t_id t) \<and>
     uin (o_id ob) = Some (o_id ob) \<and> posting_ok (claimed_db d s k h now) now t es ob \<and>
     d' = posting (claimed_db d s k h now) now t es rv ob s k body)"

definition opens :: "database \<Rightarrow> database \<Rightarrow> bool" where
  "opens d d' \<longleftrightarrow> (\<exists>s k h now a b body. idem_of d s k = None \<and>
     (\<forall>x \<in> set (accounts d). a_id x \<noteq> a_id a) \<and> (\<forall>x \<in> set (balances d). b_account_id x \<noteq> a_id a) \<and>
     b_account_id b = a_id a \<and> b_amount b = 0 \<and> d' = account_opening (claimed_db d s k h now) a b s k body now)"

lemma transferBody_posts:
  assumes "uuid_ok env" and "committed (transferBody env cfg ctx txID cmd) d x d'"
  shows "d' = d \<or> posts (uuid_in env) d d'"
proof -
  from assms(2) obtain w w' where w: "db w = d" "db w' = d'" "transferBody env cfg ctx txID cmd w = (Ret x, w')"
    by (auto simp: committed_def)
  let ?s = "tc_IdempotencyScope cmd" and ?k = "tc_IdempotencyKey cmd"
  from transferBody_Ret[OF w(3)] show ?thesis
  proof (elim disjE conjE exE)
    fix w1 assume none: "idem_of (db w) ?s ?k = None" and now: "tx_now w1 = tx_now w"
      and d1: "db w1 = (db w)\<lparr>idempotency_records := idempotency_records (db w) @
        [claimed_row ?s ?k (tc_RequestHash cmd) (tx_now w)]\<rparr>"
      and ex: "executeTransfer env cfg ctx txID cmd w1 = (Ret x, w')"
    from executeTransfer_Ret[OF ex claimed_lookup[OF none d1]] obtain src dst nw id0 id1 ob stx t es where
      t: "t = tx_row_of env (tx_now w1) (newTransfer txID cmd src dst nw id0 id1)" and i: "uuid_in env txID \<noteq> None"
      and p: "posting_ok (db w1) (tx_now w1) t es ob" and ad: "addressed env cfg EventPaymentCreated ob"
      and q:      "db w' = posting (db w1) (tx_now w1) t es [] ob ?s ?k (marshalTransaction stx)"
      by (elim exE conjE) (rule that; assumption)
    have "uuid_in env (t_id t) = Some (t_id t)" using assms(1) i by (auto simp: t uuid_ok_def)
    moreover have "uuid_in env (o_id ob) = Some (o_id ob)" using assms(1) ad by (auto simp: addressed_def uuid_ok_def)
    ultimately show ?thesis using none p q d1 now w(1,2) unfolding posts_def claimed_db_def by metis
  qed (use w in simp)
qed

lemma reverseBody_posts:
  assumes "uuid_ok env" and "committed (reverseBody env cfg ctx revID cmd) d x d'"
  shows "d' = d \<or> posts (uuid_in env) d d'"
proof -
  from assms(2) obtain w w' where w: "db w = d" "db w' = d'" "reverseBody env cfg ctx revID cmd w = (Ret x, w')"
    by (auto simp: committed_def)
  let ?s = "rc_IdempotencyScope cmd" and ?k = "rc_IdempotencyKey cmd"
  from reverseBody_Ret[OF w(3)] show ?thesis
  proof (elim disjE conjE exE)
    fix w1 assume none: "idem_of (db w) ?s ?k = None" and now: "tx_now w1 = tx_now w"
      and d1: "db w1 = (db w)\<lparr>idempotency_records := idempotency_records (db w) @
        [claimed_row ?s ?k (rc_RequestHash cmd) (tx_now w)]\<rparr>"
      and ex: "executeReverse env cfg ctx revID cmd w1 = (Ret x, w')"
    from executeReverse_Ret[OF ex claimed_lookup[OF none d1]] obtain original nw ms rv ob stx t es where
      t: "t = tx_row_of env (tx_now w1) (newReversal revID original (rc_Reason cmd) nw ms)" and i: "uuid_in env revID \<noteq> None"
      and p: "posting_ok (db w1) (tx_now w1) t es ob" and ad: "addressed env cfg EventPaymentReversed ob"
      and q:      "db w' = posting (db w1) (tx_now w1) t es rv ob ?s ?k (marshalTransaction stx)"
      by (elim exE conjE) (rule that; assumption)
    have "uuid_in env (t_id t) = Some (t_id t)" using assms(1) i by (auto simp: t uuid_ok_def)
    moreover have "uuid_in env (o_id ob) = Some (o_id ob)" using assms(1) ad by (auto simp: addressed_def uuid_ok_def)
    ultimately show ?thesis using none p q d1 now w(1,2) unfolding posts_def claimed_db_def by metis
  qed (use w in simp)
qed

lemma createAccountBody_opens:
  assumes "committed (createAccountBody env cmd meta) d x d'"
  shows "d' = d \<or> opens d d'"
proof -
  from assms obtain w w' where w: "db w = d" "db w' = d'" "createAccountBody env cmd meta w = (Ret x, w')"
    by (auto simp: committed_def)
  let ?s = "ca_IdempotencyScope cmd" and ?k = "ca_IdempotencyKey cmd"
  from withKey_Ret[OF w(3)[unfolded createAccountBody_def]] show ?thesis
  proof (elim disjE conjE exE)
    fix w1 assume none: "idem_of (db w) ?s ?k = None" and now: "tx_now w1 = tx_now w"
      and d1: "db w1 = (db w)\<lparr>idempotency_records := idempotency_records (db w) @
        [claimed_row ?s ?k (ca_RequestHash cmd) (tx_now w)]\<rparr>"
      and ex: "createAccountWork env cmd meta w1 = (Ret x, w')"
    let ?a = "opened_account env cmd meta (tx_now w)" and ?b = "opened_balance cmd (tx_now w)"
    note c = createAccountWork_Ret[OF ex claimed_lookup[OF none d1], unfolded now]
    show ?thesis unfolding opens_def claimed_db_def
      by (intro disjI2 exI[of _ ?s] exI[of _ ?k] exI[of _ "ca_RequestHash cmd"] exI[of _ "tx_now w"]
          exI[of _ ?a] exI[of _ ?b] exI[of _ "marshalAccount (?a\<lparr>a_metadata := unmarshalMetadata (a_metadata ?a)\<rparr>)"])
        (use c none d1 w(1,2) in \<open>simp add: opened_account_def opened_balance_def\<close>)
  qed (use w in simp)
qed

lemma ledger_step_shape:
  assumes "ledger_step uin d d'"
  shows "d' = d \<or> posts uin d d' \<or> opens d d'"
  using assms
proof cases
  case (create env cfg ca w r w')
  from CreateAccount_effect[OF create(5)] create(1-3) show ?thesis
    by (auto simp: no_effect_def took_effect_def dest!: createAccountBody_opens)
next
  case (transfer env tc cfg ctx w r w')
  from Transfer_effect[OF transfer(6)] transfer(1-4) show ?thesis
    by (auto simp: no_effect_def took_effect_def dest!: transferBody_posts[rotated])
next
  case (reverse env cfg ctx rc w r w')
  from Reverse_effect[OF reverse(5)] reverse(1-4) show ?thesis
    by (auto simp: no_effect_def took_effect_def dest!: reverseBody_posts[rotated])
qed

subsection \<open>The history only grows\<close>

definition extends :: "database \<Rightarrow> database \<Rightarrow> bool" where
  "extends d d' \<longleftrightarrow> prefix (accounts d) (accounts d') \<and> prefix (ledger_transactions d) (ledger_transactions d') \<and>
     prefix (ledger_entries d) (ledger_entries d') \<and> prefix (reversals d) (reversals d') \<and>
     prefix (outbox_events d) (outbox_events d') \<and>
     (\<forall>s k r. idem_of d s k = Some r \<longrightarrow> idem_of d' s k = Some r)"

lemma extends_refl: "extends d d"
  by (simp add: extends_def)

lemma extends_trans: "extends d d1 \<Longrightarrow> extends d1 d2 \<Longrightarrow> extends d d2"
  by (auto simp: extends_def intro: prefix_order.trans)

lemma claimed_db_fields [simp]:
  "accounts (claimed_db d s k h now) = accounts d" "balances (claimed_db d s k h now) = balances d"
  "ledger_transactions (claimed_db d s k h now) = ledger_transactions d"
  "ledger_entries (claimed_db d s k h now) = ledger_entries d" "reversals (claimed_db d s k h now) = reversals d"
  "outbox_events (claimed_db d s k h now) = outbox_events d"
  by (simp_all add: claimed_db_def)

lemma idem_of_claimed:
  "idem_of d s k = None \<Longrightarrow> idem_of (claimed_db d s k h now) s' k' =
     (if s' = s \<and> k' = k then Some (claimed_row s k h now) else idem_of d s' k')"
  by (auto simp: claimed_db_def idem_of_append split: option.splits)

lemma idem_of_opening:
  assumes "idem_of d s k = Some r"
  shows "idem_of (account_opening d a b s k body now) s' k' =
    (if s' = s \<and> k' = k then Some (complete_row 201 body None now r) else idem_of d s' k')"
  using idem_of_update[OF assms, of "complete_row 201 body None now" s' k']
  by (simp add: account_opening_def idem_of_def)

lemma posts_extends:
  assumes "posts uin d d'"
  shows "extends d d'"
proof -
  from assms obtain s k h now t es rv ob body where none: "idem_of d s k = None"
    and d': "d' = posting (claimed_db d s k h now) now t es rv ob s k body"
    unfolding posts_def by blast
  have "idem_of (claimed_db d s k h now) s k = Some (claimed_row s k h now)"
    using none by (simp add: idem_of_claimed)
  from idem_of_posting[OF this] none show ?thesis
    by (auto simp: extends_def d' idem_of_claimed)
qed

lemma opens_extends:
  assumes "opens d d'"
  shows "extends d d'"
proof -
  from assms obtain s k h now a b body where none: "idem_of d s k = None"
    and d': "d' = account_opening (claimed_db d s k h now) a b s k body now"
    unfolding opens_def by blast
  have "idem_of (claimed_db d s k h now) s k = Some (claimed_row s k h now)"
    using none by (simp add: idem_of_claimed)
  note idem_of_opening[OF this]
  with none show ?thesis
    unfolding extends_def d' by (auto simp: idem_of_claimed) (simp_all add: account_opening_def)
qed

lemma ledger_step_extends: "ledger_step uin d d' \<Longrightarrow> extends d d'"
  using ledger_step_shape[of uin d d'] posts_extends opens_extends extends_refl by blast

subsection \<open>Reachable databases\<close>

inductive ledger_reachable :: "(string \<Rightarrow> string option) \<Rightarrow> database \<Rightarrow> bool"
  for uin :: "string \<Rightarrow> string option" where
  start: "ledger_reachable uin empty_database"
| step: "ledger_reachable uin d \<Longrightarrow> ledger_step uin d d' \<Longrightarrow> ledger_reachable uin d'"

lemma ledger_step_inv:
  assumes "ledger_step uin d d'" and "inv_with p d"
  shows "inv_with p d'"
  using assms by cases (auto intro: CreateAccount_inv Transfer_inv Reverse_inv)

lemma ledger_step_canonical:
  assumes "ledger_step uin d d'" and "canonical uin d"
  shows "canonical uin d'"
  using ledger_step_shape[OF assms(1)] assms(2)
  by (auto simp: canonical_def posts_def opens_def account_opening_def)

lemma reachable_inv:
  assumes "ledger_reachable uin d"
  shows "ledger_inv d \<and> canonical uin d"
  using assms
proof induction
  case start
  have "canonical uin empty_database" by (simp add: canonical_def empty_database_def)
  then show ?case by (simp add: ledger_inv_empty)
next
  case (step d d')
  then show ?case using ledger_step_inv[of uin d d' True] ledger_step_canonical by simp
qed

end
