(* ===== verification/Demo.thy ===== *)
theory Demo
  imports Ledger_Steps
begin

text \<open>
  A concrete deployment on which the theorems are instantiated: a server without failures, a
  system account and two user accounts, one funding transfer. The worlds are defined as the
  states the model's own functions compute.
\<close>

definition demo_env :: env where
  "demo_env = \<lparr>fault = (\<lambda>_. None), commit_fault = (\<lambda>_. None), ctx_done = (\<lambda>_. None),
     uuid_src = (\<lambda>n. [char_of (n + 40)]), go_clock = int, pg_clock = int, rnd = (\<lambda>_. 0),
     uuid_in = (\<lambda>s. if s = [] then None else Some s), jsonb = (\<lambda>_. JNull), err_text = (\<lambda>_. [])\<rparr>"

definition demo_cfg :: Config where
  "demo_cfg = Config.make [] [] [] [] 10 2 5 15 5 [] [] 0 False 1 1 False 50 100 [] False [] 5
     ''payments.created'' ''payments.reversed'' ''payments.failed'' ''payments.dlq''
     50 1 3 1 60 60 ''w1'' [] ''g'' 3 1 60 5 1 50 ''s'' False []"

definition W0 :: world where
  "W0 = \<lparr>db = empty_database, tick = 0, tx_now = 0, row_locks = [], adv_locks = [], fps = None\<rparr>"

definition open_cmd :: "string \<Rightarrow> string \<Rightarrow> bool \<Rightarrow> CreateAccountCommand" where
  "open_cmd i kind overdraft = CreateAccountCommand.make i ''USD'' kind overdraft None [] i ''h''"

definition fund_cmd :: TransferCommand where
  "fund_cmd = TransferCommand.make ''b'' ''u'' 100 ''USD'' [] [] ''t'' [] ''h1''"

definition pay_cmd :: TransferCommand where
  "pay_cmd = TransferCommand.make ''u'' ''v'' 30 ''USD'' [] [] ''t'' ''2'' ''h2''"

definition W1 :: world where "W1 = snd (CreateAccount demo_env demo_cfg (open_cmd ''b'' ''system'' True) W0)"
definition W2 :: world where "W2 = snd (CreateAccount demo_env demo_cfg (open_cmd ''u'' ''user'' False) W1)"
definition W3 :: world where "W3 = snd (CreateAccount demo_env demo_cfg (open_cmd ''v'' ''user'' False) W2)"
definition W4 :: world where "W4 = snd (Transfer demo_env demo_cfg Background fund_cmd W3)"
definition undo_cmd :: ReverseCommand where
  "undo_cmd = ReverseCommand.make ''='' [] ''r'' [] ''h3''"

definition W5 :: world where "W5 = snd (Transfer demo_env demo_cfg Background pay_cmd W4)"

definition W6 :: world where "W6 = snd (Reverse demo_env demo_cfg Background undo_cmd W4)"

text \<open>The worlds, evaluated.\<close>

lemma W3_eq: "W3 =
    \<lparr>db = \<lparr>accounts = [\<lparr>a_id = ''b'', a_currency = ''USD'', a_kind = ''system'',
    a_allow_overdraft = True, a_metadata = JNull, a_created_at = 0\<rparr>, \<lparr>a_id = ''u'', a_currency =
    ''USD'', a_kind = ''user'', a_allow_overdraft = False, a_metadata = JNull, a_created_at = 7\<rparr>,
    \<lparr>a_id = ''v'', a_currency = ''USD'', a_kind = ''user'', a_allow_overdraft = False, a_metadata =
    JNull, a_created_at = 14\<rparr>], balances = [\<lparr>b_account_id = ''b'', b_amount = 0, b_allow_overdraft
    = True, b_version = 0, b_updated_at = 0\<rparr>, \<lparr>b_account_id = ''u'', b_amount = 0,
    b_allow_overdraft = False, b_version = 0, b_updated_at = 7\<rparr>, \<lparr>b_account_id = ''v'', b_amount =
    0, b_allow_overdraft = False, b_version = 0, b_updated_at = 14\<rparr>], ledger_transactions = [],
    ledger_entries = [], reversals = [], idempotency_records = [\<lparr>i_scope = [], i_key = ''b'',
    i_request_hash = ''h'', i_state = ''completed'', i_response_status = Some 201, i_response_body = Some (JObj
    [(''id'', JStr ''b''), (''currency'', JStr ''USD''), (''kind'', JStr ''system''), (''allow_overdraft'',
    JBool True), (''metadata'', JNull), (''created_at'', JTime 0)]), i_transaction_id = None, i_created_at = 0,
    i_updated_at = 0\<rparr>, \<lparr>i_scope = [], i_key = ''u'', i_request_hash = ''h'', i_state =
    ''completed'', i_response_status = Some 201, i_response_body = Some (JObj [(''id'', JStr ''u''),
    (''currency'', JStr ''USD''), (''kind'', JStr ''user''), (''allow_overdraft'', JBool False), (''metadata'',
    JNull), (''created_at'', JTime 7)]), i_transaction_id = None, i_created_at = 7, i_updated_at = 7\<rparr>,
    \<lparr>i_scope = [], i_key = ''v'', i_request_hash = ''h'', i_state = ''completed'', i_response_status =
    Some 201, i_response_body = Some (JObj [(''id'', JStr ''v''), (''currency'', JStr ''USD''), (''kind'', JStr
    ''user''), (''allow_overdraft'', JBool False), (''metadata'', JNull), (''created_at'', JTime 14)]),
    i_transaction_id = None, i_created_at = 14, i_updated_at = 14\<rparr>], outbox_events = [],
    webhook_deliveries = []\<rparr>, tick = 21, tx_now = 14, row_locks = [], adv_locks = [], fps = None\<rparr>"
  by code_simp

lemma W4_eq: "W4 =
    \<lparr>db = \<lparr>accounts = [\<lparr>a_id = ''b'', a_currency = ''USD'', a_kind = ''system'',
    a_allow_overdraft = True, a_metadata = JNull, a_created_at = 0\<rparr>, \<lparr>a_id = ''u'', a_currency =
    ''USD'', a_kind = ''user'', a_allow_overdraft = False, a_metadata = JNull, a_created_at = 7\<rparr>,
    \<lparr>a_id = ''v'', a_currency = ''USD'', a_kind = ''user'', a_allow_overdraft = False, a_metadata =
    JNull, a_created_at = 14\<rparr>], balances = [\<lparr>b_account_id = ''b'', b_amount = - 100,
    b_allow_overdraft = True, b_version = 1, b_updated_at = 22\<rparr>, \<lparr>b_account_id = ''u'', b_amount =
    100, b_allow_overdraft = False, b_version = 1, b_updated_at = 22\<rparr>, \<lparr>b_account_id = ''v'',
    b_amount = 0, b_allow_overdraft = False, b_version = 0, b_updated_at = 14\<rparr>], ledger_transactions =
    [\<lparr>t_id = ''='', t_kind = ''funding'', t_currency = ''USD'', t_description = [], t_external_reference
    = None, t_reverses = None, t_created_at = 22\<rparr>], ledger_entries = [\<lparr>e_id = ''D'',
    e_transaction_id = ''='', e_account_id = ''b'', e_amount = - 100, e_currency = ''USD'', e_seq = 0,
    e_created_at = 22\<rparr>, \<lparr>e_id = ''E'', e_transaction_id = ''='', e_account_id = ''u'', e_amount =
    100, e_currency = ''USD'', e_seq = 1, e_created_at = 22\<rparr>], reversals = [], idempotency_records =
    [\<lparr>i_scope = [], i_key = ''b'', i_request_hash = ''h'', i_state = ''completed'', i_response_status =
    Some 201, i_response_body = Some (JObj [(''id'', JStr ''b''), (''currency'', JStr ''USD''), (''kind'', JStr
    ''system''), (''allow_overdraft'', JBool True), (''metadata'', JNull), (''created_at'', JTime 0)]),
    i_transaction_id = None, i_created_at = 0, i_updated_at = 0\<rparr>, \<lparr>i_scope = [], i_key = ''u'',
    i_request_hash = ''h'', i_state = ''completed'', i_response_status = Some 201, i_response_body = Some (JObj
    [(''id'', JStr ''u''), (''currency'', JStr ''USD''), (''kind'', JStr ''user''), (''allow_overdraft'', JBool
    False), (''metadata'', JNull), (''created_at'', JTime 7)]), i_transaction_id = None, i_created_at = 7,
    i_updated_at = 7\<rparr>, \<lparr>i_scope = [], i_key = ''v'', i_request_hash = ''h'', i_state =
    ''completed'', i_response_status = Some 201, i_response_body = Some (JObj [(''id'', JStr ''v''),
    (''currency'', JStr ''USD''), (''kind'', JStr ''user''), (''allow_overdraft'', JBool False), (''metadata'',
    JNull), (''created_at'', JTime 14)]), i_transaction_id = None, i_created_at = 14, i_updated_at = 14\<rparr>,
    \<lparr>i_scope = ''t'', i_key = [], i_request_hash = ''h1'', i_state = ''completed'', i_response_status =
    Some 201, i_response_body = Some (JObj [(''id'', JStr ''=''), (''kind'', JStr ''funding''), (''currency'',
    JStr ''USD''), (''description'', JStr []), (''created_at'', JTime 22), (''entries'', JArr [JObj [(''id'',
    JStr ''D''), (''transaction_id'', JStr ''=''), (''account_id'', JStr ''b''), (''amount'', JNum (- 100)),
    (''currency'', JStr ''USD''), (''seq'', JNum 0), (''created_at'', JTime 22)], JObj [(''id'', JStr ''E''),
    (''transaction_id'', JStr ''=''), (''account_id'', JStr ''u''), (''amount'', JNum 100), (''currency'', JStr
    ''USD''), (''seq'', JNum 1), (''created_at'', JTime 22)]])]), i_transaction_id = Some ''='', i_created_at =
    22, i_updated_at = 22\<rparr>], outbox_events = [\<lparr>o_id = ''K'', o_topic = ''payments.created'',
    o_event_type = ''payment.created'', o_aggregate_id = ''='', o_partition_key = ''='', o_payload = JNull,
    o_headers = [(''event_type'', ''payment.created''), (''correlation_id'', []), (''schema_version'', ''1'')],
    o_status = ''pending'', o_attempts = 0, o_last_error = None, o_claimed_by = None, o_claimed_at = None,
    o_next_attempt_at = 22, o_published_at = None, o_created_at = 22\<rparr>], webhook_deliveries = []\<rparr>,
    tick = 41, tx_now = 22, row_locks = [], adv_locks = [], fps = None\<rparr>"
  unfolding W4_def W3_eq by code_simp

lemma W5_eq: "W5 =
    \<lparr>db = \<lparr>accounts = [\<lparr>a_id = ''b'', a_currency = ''USD'', a_kind = ''system'',
    a_allow_overdraft = True, a_metadata = JNull, a_created_at = 0\<rparr>, \<lparr>a_id = ''u'', a_currency =
    ''USD'', a_kind = ''user'', a_allow_overdraft = False, a_metadata = JNull, a_created_at = 7\<rparr>,
    \<lparr>a_id = ''v'', a_currency = ''USD'', a_kind = ''user'', a_allow_overdraft = False, a_metadata =
    JNull, a_created_at = 14\<rparr>], balances = [\<lparr>b_account_id = ''b'', b_amount = - 100,
    b_allow_overdraft = True, b_version = 1, b_updated_at = 22\<rparr>, \<lparr>b_account_id = ''u'', b_amount =
    70, b_allow_overdraft = False, b_version = 2, b_updated_at = 42\<rparr>, \<lparr>b_account_id = ''v'',
    b_amount = 30, b_allow_overdraft = False, b_version = 1, b_updated_at = 42\<rparr>], ledger_transactions =
    [\<lparr>t_id = ''='', t_kind = ''funding'', t_currency = ''USD'', t_description = [], t_external_reference
    = None, t_reverses = None, t_created_at = 22\<rparr>, \<lparr>t_id = ''Q'', t_kind = ''transfer'',
    t_currency = ''USD'', t_description = [], t_external_reference = None, t_reverses = None, t_created_at =
    42\<rparr>], ledger_entries = [\<lparr>e_id = ''D'', e_transaction_id = ''='', e_account_id = ''b'',
    e_amount = - 100, e_currency = ''USD'', e_seq = 0, e_created_at = 22\<rparr>, \<lparr>e_id = ''E'',
    e_transaction_id = ''='', e_account_id = ''u'', e_amount = 100, e_currency = ''USD'', e_seq = 1,
    e_created_at = 22\<rparr>, \<lparr>e_id = ''X'', e_transaction_id = ''Q'', e_account_id = ''u'', e_amount =
    - 30, e_currency = ''USD'', e_seq = 0, e_created_at = 42\<rparr>, \<lparr>e_id = ''Y'', e_transaction_id =
    ''Q'', e_account_id = ''v'', e_amount = 30, e_currency = ''USD'', e_seq = 1, e_created_at = 42\<rparr>],
    reversals = [], idempotency_records = [\<lparr>i_scope = [], i_key = ''b'', i_request_hash = ''h'', i_state
    = ''completed'', i_response_status = Some 201, i_response_body = Some (JObj [(''id'', JStr ''b''),
    (''currency'', JStr ''USD''), (''kind'', JStr ''system''), (''allow_overdraft'', JBool True), (''metadata'',
    JNull), (''created_at'', JTime 0)]), i_transaction_id = None, i_created_at = 0, i_updated_at = 0\<rparr>,
    \<lparr>i_scope = [], i_key = ''u'', i_request_hash = ''h'', i_state = ''completed'', i_response_status =
    Some 201, i_response_body = Some (JObj [(''id'', JStr ''u''), (''currency'', JStr ''USD''), (''kind'', JStr
    ''user''), (''allow_overdraft'', JBool False), (''metadata'', JNull), (''created_at'', JTime 7)]),
    i_transaction_id = None, i_created_at = 7, i_updated_at = 7\<rparr>, \<lparr>i_scope = [], i_key = ''v'',
    i_request_hash = ''h'', i_state = ''completed'', i_response_status = Some 201, i_response_body = Some (JObj
    [(''id'', JStr ''v''), (''currency'', JStr ''USD''), (''kind'', JStr ''user''), (''allow_overdraft'', JBool
    False), (''metadata'', JNull), (''created_at'', JTime 14)]), i_transaction_id = None, i_created_at = 14,
    i_updated_at = 14\<rparr>, \<lparr>i_scope = ''t'', i_key = [], i_request_hash = ''h1'', i_state =
    ''completed'', i_response_status = Some 201, i_response_body = Some (JObj [(''id'', JStr ''=''), (''kind'',
    JStr ''funding''), (''currency'', JStr ''USD''), (''description'', JStr []), (''created_at'', JTime 22),
    (''entries'', JArr [JObj [(''id'', JStr ''D''), (''transaction_id'', JStr ''=''), (''account_id'', JStr
    ''b''), (''amount'', JNum (- 100)), (''currency'', JStr ''USD''), (''seq'', JNum 0), (''created_at'', JTime
    22)], JObj [(''id'', JStr ''E''), (''transaction_id'', JStr ''=''), (''account_id'', JStr ''u''),
    (''amount'', JNum 100), (''currency'', JStr ''USD''), (''seq'', JNum 1), (''created_at'', JTime 22)]])]),
    i_transaction_id = Some ''='', i_created_at = 22, i_updated_at = 22\<rparr>, \<lparr>i_scope = ''t'', i_key
    = ''2'', i_request_hash = ''h2'', i_state = ''completed'', i_response_status = Some 201, i_response_body =
    Some (JObj [(''id'', JStr ''Q''), (''kind'', JStr ''transfer''), (''currency'', JStr ''USD''),
    (''description'', JStr []), (''created_at'', JTime 42), (''entries'', JArr [JObj [(''id'', JStr ''X''),
    (''transaction_id'', JStr ''Q''), (''account_id'', JStr ''u''), (''amount'', JNum (- 30)), (''currency'',
    JStr ''USD''), (''seq'', JNum 0), (''created_at'', JTime 42)], JObj [(''id'', JStr ''Y''),
    (''transaction_id'', JStr ''Q''), (''account_id'', JStr ''v''), (''amount'', JNum 30), (''currency'', JStr
    ''USD''), (''seq'', JNum 1), (''created_at'', JTime 42)]])]), i_transaction_id = Some ''Q'', i_created_at =
    42, i_updated_at = 42\<rparr>], outbox_events = [\<lparr>o_id = ''K'', o_topic = ''payments.created'',
    o_event_type = ''payment.created'', o_aggregate_id = ''='', o_partition_key = ''='', o_payload = JNull,
    o_headers = [(''event_type'', ''payment.created''), (''correlation_id'', []), (''schema_version'', ''1'')],
    o_status = ''pending'', o_attempts = 0, o_last_error = None, o_claimed_by = None, o_claimed_at = None,
    o_next_attempt_at = 22, o_published_at = None, o_created_at = 22\<rparr>, \<lparr>o_id = ''_'', o_topic =
    ''payments.created'', o_event_type = ''payment.created'', o_aggregate_id = ''Q'', o_partition_key = ''Q'',
    o_payload = JNull, o_headers = [(''event_type'', ''payment.created''), (''correlation_id'', []),
    (''schema_version'', ''1'')], o_status = ''pending'', o_attempts = 0, o_last_error = None, o_claimed_by =
    None, o_claimed_at = None, o_next_attempt_at = 42, o_published_at = None, o_created_at = 42\<rparr>],
    webhook_deliveries = []\<rparr>, tick = 61, tx_now = 42, row_locks = [], adv_locks = [], fps = None\<rparr>"
  unfolding W5_def W4_eq by code_simp

lemma W6_eq: "W6 =
    \<lparr>db = \<lparr>accounts = [\<lparr>a_id = ''b'', a_currency = ''USD'', a_kind = ''system'',
    a_allow_overdraft = True, a_metadata = JNull, a_created_at = 0\<rparr>, \<lparr>a_id = ''u'', a_currency =
    ''USD'', a_kind = ''user'', a_allow_overdraft = False, a_metadata = JNull, a_created_at = 7\<rparr>,
    \<lparr>a_id = ''v'', a_currency = ''USD'', a_kind = ''user'', a_allow_overdraft = False, a_metadata =
    JNull, a_created_at = 14\<rparr>], balances = [\<lparr>b_account_id = ''b'', b_amount = 0, b_allow_overdraft
    = True, b_version = 2, b_updated_at = 42\<rparr>, \<lparr>b_account_id = ''u'', b_amount = 0,
    b_allow_overdraft = False, b_version = 2, b_updated_at = 42\<rparr>, \<lparr>b_account_id = ''v'', b_amount
    = 0, b_allow_overdraft = False, b_version = 0, b_updated_at = 14\<rparr>], ledger_transactions =
    [\<lparr>t_id = ''='', t_kind = ''funding'', t_currency = ''USD'', t_description = [], t_external_reference
    = None, t_reverses = None, t_created_at = 22\<rparr>, \<lparr>t_id = ''Q'', t_kind = ''reversal'',
    t_currency = ''USD'', t_description = ''Reversal of ='', t_external_reference = None, t_reverses = Some
    ''='', t_created_at = 42\<rparr>], ledger_entries = [\<lparr>e_id = ''D'', e_transaction_id = ''='',
    e_account_id = ''b'', e_amount = - 100, e_currency = ''USD'', e_seq = 0, e_created_at = 22\<rparr>,
    \<lparr>e_id = ''E'', e_transaction_id = ''='', e_account_id = ''u'', e_amount = 100, e_currency = ''USD'',
    e_seq = 1, e_created_at = 22\<rparr>, \<lparr>e_id = ''['', e_transaction_id = ''Q'', e_account_id = ''b'',
    e_amount = 100, e_currency = ''USD'', e_seq = 0, e_created_at = 42\<rparr>, \<lparr>e_id = [CHR 0x5C],
    e_transaction_id = ''Q'', e_account_id = ''u'', e_amount = - 100, e_currency = ''USD'', e_seq = 1,
    e_created_at = 42\<rparr>], reversals = [\<lparr>r_id = ''b'', r_original = ''='', r_reversal = ''Q'',
    r_reason = [], r_created_at = 42\<rparr>], idempotency_records = [\<lparr>i_scope = [], i_key = ''b'',
    i_request_hash = ''h'', i_state = ''completed'', i_response_status = Some 201, i_response_body = Some (JObj
    [(''id'', JStr ''b''), (''currency'', JStr ''USD''), (''kind'', JStr ''system''), (''allow_overdraft'',
    JBool True), (''metadata'', JNull), (''created_at'', JTime 0)]), i_transaction_id = None, i_created_at = 0,
    i_updated_at = 0\<rparr>, \<lparr>i_scope = [], i_key = ''u'', i_request_hash = ''h'', i_state =
    ''completed'', i_response_status = Some 201, i_response_body = Some (JObj [(''id'', JStr ''u''),
    (''currency'', JStr ''USD''), (''kind'', JStr ''user''), (''allow_overdraft'', JBool False), (''metadata'',
    JNull), (''created_at'', JTime 7)]), i_transaction_id = None, i_created_at = 7, i_updated_at = 7\<rparr>,
    \<lparr>i_scope = [], i_key = ''v'', i_request_hash = ''h'', i_state = ''completed'', i_response_status =
    Some 201, i_response_body = Some (JObj [(''id'', JStr ''v''), (''currency'', JStr ''USD''), (''kind'', JStr
    ''user''), (''allow_overdraft'', JBool False), (''metadata'', JNull), (''created_at'', JTime 14)]),
    i_transaction_id = None, i_created_at = 14, i_updated_at = 14\<rparr>, \<lparr>i_scope = ''t'', i_key = [],
    i_request_hash = ''h1'', i_state = ''completed'', i_response_status = Some 201, i_response_body = Some (JObj
    [(''id'', JStr ''=''), (''kind'', JStr ''funding''), (''currency'', JStr ''USD''), (''description'', JStr
    []), (''created_at'', JTime 22), (''entries'', JArr [JObj [(''id'', JStr ''D''), (''transaction_id'', JStr
    ''=''), (''account_id'', JStr ''b''), (''amount'', JNum (- 100)), (''currency'', JStr ''USD''), (''seq'',
    JNum 0), (''created_at'', JTime 22)], JObj [(''id'', JStr ''E''), (''transaction_id'', JStr ''=''),
    (''account_id'', JStr ''u''), (''amount'', JNum 100), (''currency'', JStr ''USD''), (''seq'', JNum 1),
    (''created_at'', JTime 22)]])]), i_transaction_id = Some ''='', i_created_at = 22, i_updated_at =
    22\<rparr>, \<lparr>i_scope = ''r'', i_key = [], i_request_hash = ''h3'', i_state = ''completed'',
    i_response_status = Some 201, i_response_body = Some (JObj [(''id'', JStr ''Q''), (''kind'', JStr
    ''reversal''), (''currency'', JStr ''USD''), (''description'', JStr ''Reversal of =''),
    (''reverses_transaction_id'', JStr ''=''), (''created_at'', JTime 42), (''entries'', JArr [JObj [(''id'',
    JStr ''[''), (''transaction_id'', JStr ''Q''), (''account_id'', JStr ''b''), (''amount'', JNum 100),
    (''currency'', JStr ''USD''), (''seq'', JNum 0), (''created_at'', JTime 42)], JObj [(''id'', JStr [CHR
    0x5C]), (''transaction_id'', JStr ''Q''), (''account_id'', JStr ''u''), (''amount'', JNum (- 100)),
    (''currency'', JStr ''USD''), (''seq'', JNum 1), (''created_at'', JTime 42)]])]), i_transaction_id = Some
    ''Q'', i_created_at = 42, i_updated_at = 42\<rparr>], outbox_events = [\<lparr>o_id = ''K'', o_topic =
    ''payments.created'', o_event_type = ''payment.created'', o_aggregate_id = ''='', o_partition_key = ''='',
    o_payload = JNull, o_headers = [(''event_type'', ''payment.created''), (''correlation_id'', []),
    (''schema_version'', ''1'')], o_status = ''pending'', o_attempts = 0, o_last_error = None, o_claimed_by =
    None, o_claimed_at = None, o_next_attempt_at = 22, o_published_at = None, o_created_at = 22\<rparr>,
    \<lparr>o_id = ''d'', o_topic = ''payments.reversed'', o_event_type = ''payment.reversed'', o_aggregate_id =
    ''Q'', o_partition_key = ''Q'', o_payload = JNull, o_headers = [(''event_type'', ''payment.reversed''),
    (''correlation_id'', []), (''schema_version'', ''1'')], o_status = ''pending'', o_attempts = 0, o_last_error
    = None, o_claimed_by = None, o_claimed_at = None, o_next_attempt_at = 42, o_published_at = None,
    o_created_at = 42\<rparr>], webhook_deliveries = []\<rparr>, tick = 66, tx_now = 42, row_locks = [],
    adv_locks = [], fps = None\<rparr>"
  unfolding W6_def W4_eq by code_simp

lemma demo_uuid: "uuid_ok demo_env"
  by (simp add: uuid_ok_def demo_env_def)

lemma demo_healthy: "healthy demo_env"
  by (simp add: healthy_def demo_env_def)

lemma inv_W0: "ledger_inv (db W0)"
  by (simp add: W0_def ledger_inv_empty)

lemma inv_W3: "ledger_inv (db W3)"
  unfolding W3_def W2_def W1_def
  by (intro CreateAccount_inv[where p = True, simplified, OF _ surjective_pairing] inv_W0)

lemma inv_W4: "ledger_inv (db W4)"
  unfolding W4_def
  by (rule Transfer_inv[where p = True, simplified, OF inv_W3 demo_uuid _ surjective_pairing]) (simp add: fund_cmd_def TransferCommand.defs in64_def)

lemma inv_W5: "ledger_inv (db W5)"
  unfolding W5_def
  by (rule Transfer_inv[where p = True, simplified, OF inv_W4 demo_uuid _ surjective_pairing]) (simp add: pay_cmd_def TransferCommand.defs in64_def)

lemma reach_W3: "ledger_reachable (uuid_in demo_env) (db W3)"
proof -
  note st = ledger_step.create[OF demo_uuid refl surjective_pairing]
  have "ledger_reachable (uuid_in demo_env) (db W0)"
    by (simp add: W0_def ledger_reachable.start)
  then have "ledger_reachable (uuid_in demo_env) (db W1)"
    unfolding W1_def by (rule ledger_reachable.step) (rule st)
  then have "ledger_reachable (uuid_in demo_env) (db W2)"
    unfolding W2_def by (rule ledger_reachable.step) (rule st)
  then show ?thesis
    unfolding W3_def by (rule ledger_reachable.step) (rule st)
qed

lemma fund_step: "ledger_step (uuid_in demo_env) (db W3) (db W4)"
  unfolding W4_def
  by (rule ledger_step.transfer[OF demo_uuid refl _ surjective_pairing]) (simp add: fund_cmd_def TransferCommand.defs in64_def)

lemma pay_step: "ledger_step (uuid_in demo_env) (db W4) (db W5)"
  unfolding W5_def
  by (rule ledger_step.transfer[OF demo_uuid refl _ surjective_pairing]) (simp add: pay_cmd_def TransferCommand.defs in64_def)

lemma reach_W5: "ledger_reachable (uuid_in demo_env) (db W5)"
  by (rule ledger_reachable.step[OF ledger_reachable.step[OF reach_W3 fund_step] pay_step])

end
