(* ===== verification/Ledger_Properties.thy ===== *)
theory Ledger_Properties
  imports Demo
begin

text \<open>
  The properties of the ledger service: consistency of every reachable database,
  conservation of money, the effect of each use case on an abstract ledger, idempotency,
  and the order of locks.
\<close>

subsection \<open>Consistency\<close>

text \<open>
  C1. Every database the service can reach from the empty one is consistent, whatever
  statements, commits, failpoints and acknowledgements fail on the way: accounts and
  balances correspond, only system accounts may be overdrawn, every transaction has at
  least two entries that sum to zero, every balance is the sum of its entries, every
  reversal cancels the one transaction it reverses, every transaction has exactly one
  outbox event and was made under exactly one idempotency key, and no key is left in
  progress.
\<close>

theorem reachable_consistent:
  assumes "ledger_reachable uin d"
  shows "accounts_ok d \<and> entries_ok d \<and> double_entry d \<and> balances_agree d \<and> reversals_ok d \<and> outbox_ok d \<and> idem_ok d"
  using reachable_inv[OF assms] by (simp add: ledger_inv_def core_inv_def)

theorem reachable_consistent_witness:
  "double_entry (db W5) \<and> length (ledger_transactions (db W5)) = 2 \<and> length (ledger_entries (db W5)) = 4"
  using reachable_consistent[OF reach_W5] by (simp add: W5_eq)

subsection \<open>Conservation\<close>

definition currency_total :: "database \<Rightarrow> string \<Rightarrow> int" where
  "currency_total d c = sum_list (map b_amount (filter (\<lambda>b.
     case account_of d (b_account_id b) of None \<Rightarrow> False | Some a \<Rightarrow> a_currency a = c) (balances d)))"

lemma sum_by_key:
  assumes "distinct ks"
  shows "sum_list (map (\<lambda>k. sum_list (map f (filter (\<lambda>e. g e = k) es))) ks)
    = sum_list (map f (filter (\<lambda>e. g e \<in> set ks) es) :: int list)"
  using assms
proof (induction ks)
  case (Cons k ks)
  have "sum_list (map f (filter (\<lambda>e. g e = k \<or> g e \<in> set ks) es))
      = sum_list (map f (filter (\<lambda>e. g e = k) es)) + sum_list (map f (filter (\<lambda>e. g e \<in> set ks) es))"
    using Cons.prems by (induction es) auto
  with Cons show ?case by simp
qed simp

lemma key_filter_mem:
  assumes "distinct (map f xs)" and "x \<in> set xs"
  shows "f x \<in> set (map f (filter P xs)) \<longleftrightarrow> P x"
  using assms by (induction xs) (auto simp: image_iff)

lemma account_of_mem:
  assumes "distinct (map a_id (accounts d))" and "a \<in> set (accounts d)"
  shows "account_of d (a_id a) = Some a"
  using find_by_key[OF assms] by (simp add: account_of_def)

text \<open>The entries of one currency, grouped by transaction, sum to zero.\<close>

lemma entries_in_currency_zero:
  assumes "entries_ok d" and "double_entry d"
  shows "sum_of (filter (\<lambda>e. e_currency e = c) (ledger_entries d)) = 0"
proof -
  let ?ts = "filter (\<lambda>t. t_currency t = c) (ledger_transactions d)"
  have dt: "distinct (map t_id (ledger_transactions d))" using assms(2) by (simp add: double_entry_def)
  then have ds: "distinct (map t_id ?ts)" by (simp add: distinct_map_filter)
  have "e_transaction_id e \<in> set (map t_id ?ts) \<longleftrightarrow> e_currency e = c" if "e \<in> set (ledger_entries d)" for e
  proof -
    from assms(1) that obtain t where t: "t \<in> set (ledger_transactions d)" "t_id t = e_transaction_id e"
      "t_currency t = e_currency e" by (auto simp: entries_ok_def entry_ok_def)
    from key_filter_mem[OF dt t(1), of "\<lambda>t. t_currency t = c"] t(2,3) show ?thesis by simp
  qed
  then have "sum_of (filter (\<lambda>e. e_currency e = c) (ledger_entries d))
      = sum_list (map e_amount (filter (\<lambda>e. e_transaction_id e \<in> set (map t_id ?ts)) (ledger_entries d)))"
    unfolding sum_of_def by (intro arg_cong[of _ _ "\<lambda>x. sum_list (map e_amount x)"] filter_cong) auto
  also have "\<dots> = sum_list (map (\<lambda>k. sum_of (entries_of d k)) (map t_id ?ts))"
    using sum_by_key[OF ds, of e_amount e_transaction_id "ledger_entries d"]
    by (simp add: sum_of_def entries_of_def)
  also have "\<dots> = sum_list (map (\<lambda>k. 0) (map t_id ?ts))"
    using assms(2) by (intro arg_cong[of _ _ sum_list] map_cong) (auto simp: double_entry_def)
  finally show ?thesis by (simp add: comp_def)
qed

lemma currency_total_zero:
  assumes "core_inv d"
  shows "currency_total d c = 0"
proof -
  have i: "accounts_ok d" "entries_ok d" "double_entry d" "balances_agree d" using assms by (simp_all add: core_inv_def)
  let ?P = "\<lambda>b. case account_of d (b_account_id b) of None \<Rightarrow> False | Some a \<Rightarrow> a_currency a = c"
  let ?bs = "filter ?P (balances d)"
  have da: "distinct (map a_id (accounts d))" and db: "distinct (map b_account_id (balances d))"
    and same: "b_account_id ` set (balances d) = a_id ` set (accounts d)"
    using i(1) by (auto simp: accounts_ok_def balances_ok_def)
  have mem: "e_account_id e \<in> set (map b_account_id ?bs) \<longleftrightarrow> e_currency e = c" if "e \<in> set (ledger_entries d)" for e
  proof -
    from i(2) that obtain a where a: "a \<in> set (accounts d)" "a_id a = e_account_id e" "a_currency a = e_currency e"
      by (auto simp: entries_ok_def entry_ok_def)
    note ao = account_of_mem[OF da a(1), unfolded a(2)]
    from a same obtain b where "b \<in> set (balances d)" "b_account_id b = e_account_id e" by (metis (no_types, lifting) imageE imageI)
    with ao a(3) show ?thesis by (auto simp: image_iff)
  qed
  have "currency_total d c = sum_list (map (\<lambda>b. sum_of (account_entries d (b_account_id b))) ?bs)"
    unfolding currency_total_def using i(4) by (intro arg_cong[of _ _ sum_list] map_cong) (auto simp: balances_agree_def)
  also have "\<dots> = sum_list (map (\<lambda>k. sum_list (map e_amount (filter (\<lambda>e. e_account_id e = k) (ledger_entries d)))) (map b_account_id ?bs))"
    by (simp add: sum_of_def account_entries_def comp_def)
  also have "\<dots> = sum_list (map e_amount (filter (\<lambda>e. e_account_id e \<in> set (map b_account_id ?bs)) (ledger_entries d)))"
    using db by (intro sum_by_key distinct_map_filter)
  also have "\<dots> = sum_of (filter (\<lambda>e. e_currency e = c) (ledger_entries d))"
    unfolding sum_of_def using mem by (intro arg_cong[of _ _ "\<lambda>x. sum_list (map e_amount x)"] filter_cong) auto
  finally show ?thesis using entries_in_currency_zero[OF i(2,3)] by simp
qed

text \<open>
  C2. Money is neither created nor destroyed: in every reachable database the balances of
  each currency sum to zero (money in user accounts is what system accounts owe).
\<close>

theorem money_conserved:
  assumes "ledger_reachable uin d"
  shows "currency_total d c = 0"
  using currency_total_zero reachable_inv[OF assms] by (simp add: ledger_inv_def)

theorem money_conserved_witness:
  "currency_total (db W5) ''USD'' = 0 \<and>
   map b_amount (balances (db W5)) = [- 100, 70, 30]"
  using money_conserved[OF reach_W5, of "''USD''"] by (simp add: W5_eq)

text \<open>C3. The balance of a user account is never negative.\<close>

theorem user_balance_nonneg:
  assumes "ledger_reachable uin d" and "account_of d i = Some a" and "a_kind a = KindUser"
    and "balance_of d i = Some b"
  shows "0 \<le> b_amount b"
proof -
  have ok: "accounts_ok d" using reachable_inv[OF assms(1)] by (simp add: ledger_inv_def core_inv_def)
  have "\<not> a_allow_overdraft a"
    using ok account_of_id[OF assms(2)] assms(3) by (auto simp: accounts_ok_def ledger_kind_defs)
  then have "\<not> b_allow_overdraft b"
    using ok account_of_id[OF assms(2)] balance_of_id[OF assms(4)] by (auto simp: accounts_ok_def)
  then show ?thesis
    using ok balance_of_id[OF assms(4)] by (auto simp: accounts_ok_def balances_ok_def list_all_iff row_ok_def balances_check_def)
qed

theorem user_balance_nonneg_witness:
  "\<exists>b. balance_of (db W5) ''v'' = Some b \<and> 0 \<le> b_amount b"
proof -
  obtain a b where ab: "account_of (db W5) ''v'' = Some a" "a_kind a = KindUser" "balance_of (db W5) ''v'' = Some b"
    by (auto simp: account_of_def balance_of_def W5_eq KindUser_def)
  from user_balance_nonneg[OF reach_W5 ab] ab(3) show ?thesis by blast
qed

end
