(* ===== verification/Ledger_Refinement.thy ===== *)
theory Ledger_Refinement
  imports Ledger_Properties
begin

text \<open>
  The abstract ledger: what an account is to a client (amount, overdraft permission and
  currency), and the effect of a transfer and of a reversal on it. The detailed calls refine
  it: each either leaves the abstract ledger alone or takes exactly the abstract step.
\<close>

type_synonym holdings = "string \<Rightarrow> (int \<times> bool \<times> string) option"

definition holdings_of :: "database \<Rightarrow> holdings" where
  "holdings_of d i =
     (case (balance_of d i, account_of d i) of
        (Some b, Some a) \<Rightarrow> Some (b_amount b, b_allow_overdraft b, a_currency a) | _ \<Rightarrow> None)"

definition spec_transfer :: "string \<Rightarrow> string \<Rightarrow> int \<Rightarrow> string \<Rightarrow> holdings \<Rightarrow> holdings option" where
  "spec_transfer src dst n cur h =
     (case (h src, h dst) of
        (Some (x, o1, c1), Some (y, o2, c2)) \<Rightarrow>
          if c1 = cur \<and> c2 = cur \<and> (o1 \<or> n \<le> x)
          then Some (h(src \<mapsto> (x - n, o1, c1), dst \<mapsto> (y + n, o2, c2))) else None
      | _ \<Rightarrow> None)"

definition spec_reverse :: "(string \<times> int) list \<Rightarrow> holdings \<Rightarrow> holdings" where
  "spec_reverse entries h i =
     (case h i of None \<Rightarrow> None
      | Some (x, o1, c) \<Rightarrow> Some (x - sum_list (map snd (filter (\<lambda>p. fst p = i) entries)), o1, c))"

subsection \<open>A posting on the abstract ledger\<close>

lemma balance_of_posting:
  "balance_of (posting d now t es rv ob s k body) i = map_option (settle now es) (balance_of d i)"
  by (simp add: balance_of_def find_map_upd)

lemma holdings_of_posting:
  "holdings_of (posting d now t es rv ob s k body) i =
     (case holdings_of d i of None \<Rightarrow> None
      | Some (x, o1, c) \<Rightarrow> Some (x + sum_of (on_account i es), o1, c))"
proof -
  have "account_of (posting d now t es rv ob s k body) i = account_of d i" by (simp add: account_of_def)
  then show ?thesis
    by (auto simp: holdings_of_def balance_of_posting settle_amount sum_of_def on_account_def
        split: option.splits dest: balance_of_id)
qed

lemma holdings_of_idem [simp]: "holdings_of (d\<lparr>idempotency_records := x\<rparr>) = holdings_of d"
  by (simp add: holdings_of_def fun_eq_iff balance_of_def account_of_def)

lemma locked_holdings:
  "locked_view d i = Some a \<Longrightarrow> holdings_of d i = Some (la_Balance a, la_AllowOverdraft a, la_Currency a) \<and> la_ID a = i"
  by (auto simp: locked_view_def holdings_of_def split: option.splits dest: account_of_id)

text \<open>A committed transfer that is not a replay is the abstract transfer.\<close>

lemma transferBody_spec:
  assumes run: "transferBody env cfg ctx txID cmd w = (Ret x, w')" and new: "\<not> res_Replayed x"
    and v: "ValidateTransfer cmd = None" "in64 (tc_Amount cmd)"
  shows "spec_transfer (tc_SourceAccountID cmd) (tc_DestinationAccountID cmd) (tc_Amount cmd) (tc_Currency cmd)
      (holdings_of (db w)) = Some (holdings_of (db w'))"
proof -
  let ?S = "tc_SourceAccountID cmd" and ?D = "tc_DestinationAccountID cmd"
  have ne: "?S \<noteq> ?D" and pos: "0 < tc_Amount cmd" using v(1) by (auto simp: ValidateTransfer_None)
  have w64: "wrap64 (- tc_Amount cmd) = - tc_Amount cmd" using pos v(2) by (intro wrap64_neg) (simp add: in64_def)
  from transferBody_Ret[OF run] new obtain w1 where none: "idem_of (db w) (tc_IdempotencyScope cmd) (tc_IdempotencyKey cmd) = None"
    and d1: "db w1 = (db w)\<lparr>idempotency_records := idempotency_records (db w) @
        [claimed_row (tc_IdempotencyScope cmd) (tc_IdempotencyKey cmd) (tc_RequestHash cmd) (tx_now w)]\<rparr>"
    and ex: "executeTransfer env cfg ctx txID cmd w1 = (Ret x, w')" by blast
  from executeTransfer_Ret[OF ex claimed_lookup[OF none d1]] obtain src dst now id0 id1 ob stx t es where
    l: "locked_view (db w1) ?S = Some src" "locked_view (db w1) ?D = Some dst"
    and g: "la_Currency src = tc_Currency cmd" "la_Currency dst = tc_Currency cmd"
      "la_AllowOverdraft src \<or> tc_Amount cmd \<le> la_Balance src"
    and es: "es = map (stored env (tx_now w1)) (tx_Entries (newTransfer txID cmd src dst now id0 id1))"
    and d': "db w' = posting (db w1) (tx_now w1) t es [] ob (tc_IdempotencyScope cmd) (tc_IdempotencyKey cmd)
      (marshalTransaction stx)"
    by (elim exE conjE) (rule that; assumption)
  note s = locked_holdings[OF l(1)] and t = locked_holdings[OF l(2)]
  have h1: "holdings_of (db w1) = holdings_of (db w)" using d1 by simp
  have "sum_of (on_account i es) = (if i = ?S then - tc_Amount cmd else if i = ?D then tc_Amount cmd else 0)" for i
    using s t ne by (auto simp: es newTransfer_def sum_of_def on_account_def w64)
  then have "holdings_of (db w') = (holdings_of (db w))(?S \<mapsto> (la_Balance src - tc_Amount cmd, la_AllowOverdraft src, la_Currency src),
      ?D \<mapsto> (la_Balance dst + tc_Amount cmd, la_AllowOverdraft dst, la_Currency dst))"
    using s t ne unfolding h1 by (intro ext) (simp add: d' holdings_of_posting h1 split: option.splits)
  with s t g show ?thesis unfolding h1 by (simp add: spec_transfer_def)
qed

text \<open>
  C4. A transfer is all or nothing and moves exactly its amount: whatever fails during the
  call, the abstract ledger afterwards is the one before it, or the one the abstract transfer
  gives (both accounts exist and hold the currency, the source has the funds or may be
  overdrawn, the amount leaves the source and arrives at the destination, nothing else
  changes). A call that answers without a replay has taken the step.
\<close>

theorem transfer_refines:
  assumes "in64 (tc_Amount cmd)" and "Transfer env cfg ctx cmd w = (r, w')"
  shows "(db w' = db w \<or>
      spec_transfer (tc_SourceAccountID cmd) (tc_DestinationAccountID cmd) (tc_Amount cmd) (tc_Currency cmd)
        (holdings_of (db w)) = Some (holdings_of (db w')) \<and>
      length (ledger_transactions (db w')) = Suc (length (ledger_transactions (db w))))
    \<and> (\<forall>x. r = Ret x \<longrightarrow> (res_Replayed x \<longleftrightarrow> db w' = db w))"
  using Transfer_effect[OF assms(2)]
proof (elim disjE conjE exE)
  fix ctx' n assume v: "ValidateTransfer cmd = None"
    and e: "took_effect (transferBody env cfg ctx' (uuid_src env n) cmd) r (db w) (db w')"
  then obtain y v0 v1 where c: "db v0 = db w" "db v1 = db w'" "\<forall>z. r = Ret z \<longrightarrow> z = y"
    and run: "transferBody env cfg ctx' (uuid_src env n) cmd v0 = (Ret y, v1)"
    by (auto simp: took_effect_def committed_def)
  show ?thesis
  proof (cases "res_Replayed y")
    case True
    with transferBody_Ret[OF run] have "db v1 = db v0" by blast
    with True c show ?thesis by auto
  next
    case False
    note sp = transferBody_spec[OF run False v assms(1), unfolded c(1,2)]
    from transferBody_Ret[OF run] False obtain w1 where none: "idem_of (db v0) (tc_IdempotencyScope cmd) (tc_IdempotencyKey cmd) = None"
      and d1: "db w1 = (db v0)\<lparr>idempotency_records := idempotency_records (db v0) @
        [claimed_row (tc_IdempotencyScope cmd) (tc_IdempotencyKey cmd) (tc_RequestHash cmd) (tx_now v0)]\<rparr>"
      and ex: "executeTransfer env cfg ctx' (uuid_src env n) cmd w1 = (Ret y, v1)" by blast
    from executeTransfer_Ret[OF ex claimed_lookup[OF none d1]] obtain ob stx t es where
      d': "db v1 = posting (db w1) (tx_now w1) t es [] ob (tc_IdempotencyScope cmd) (tc_IdempotencyKey cmd)
        (marshalTransaction stx)"
      by (elim exE conjE) (rule that; assumption)
    have "length (ledger_transactions (db v1)) = Suc (length (ledger_transactions (db v0)))"
      using d1 by (simp add: d')
    with sp c False show ?thesis by auto
  qed
qed (auto simp: no_effect_def)

theorem transfer_refines_witness:
  "spec_transfer ''u'' ''v'' 30 ''USD'' (holdings_of (db W4)) = Some (holdings_of (db W5))"
proof -
  have "in64 (tc_Amount pay_cmd)" by (simp add: pay_cmd_def TransferCommand.defs in64_def)
  from transfer_refines[OF this surjective_pairing, of demo_env demo_cfg Background W4] show ?thesis
    by (auto simp: W5_def[symmetric]) (simp_all add: pay_cmd_def TransferCommand.defs W4_eq W5_eq)
qed

subsection \<open>Reversals\<close>

definition posted_legs :: "database \<Rightarrow> string \<Rightarrow> (string \<times> int) list" where
  "posted_legs d u = map (\<lambda>e. (e_account_id e, e_amount e)) (entries_of d u)"

lemma posted_legs_sum: "sum_list (map snd (filter (\<lambda>p. fst p = i) (posted_legs d u))) = sum_of (on_account i (entries_of d u))"
  by (simp add: posted_legs_def filter_map comp_def sum_of_def on_account_def)

lemma reverseBody_spec:
  assumes run: "reverseBody env cfg ctx revID cmd w = (Ret x, w')" and new: "\<not> res_Replayed x"
    and inv: "ledger_inv (db w)" and env: "uuid_ok env"
  shows "\<exists>u t0 t. uuid_in env (rc_TransactionID cmd) = Some u \<and> tx_of (db w) u = Some t0 \<and> t_kind t0 \<noteq> TxKindReversal \<and>
    (\<forall>t1 \<in> set (ledger_transactions (db w)). t_reverses t1 \<noteq> Some u) \<and>
    ledger_transactions (db w') = ledger_transactions (db w) @ [t] \<and> t_kind t = TxKindReversal \<and> t_reverses t = Some u \<and>
    holdings_of (db w') = spec_reverse (posted_legs (db w) u) (holdings_of (db w))"
proof -
  let ?s = "rc_IdempotencyScope cmd" and ?k = "rc_IdempotencyKey cmd"
  from reverseBody_Ret[OF run] new obtain w1 where none: "idem_of (db w) ?s ?k = None"
    and d1: "db w1 = (db w)\<lparr>idempotency_records := idempotency_records (db w) @
        [claimed_row ?s ?k (rc_RequestHash cmd) (tx_now w)]\<rparr>"
    and ex: "executeReverse env cfg ctx revID cmd w1 = (Ret x, w')" by blast
  from executeReverse_Ret[OF ex claimed_lookup[OF none d1]] obtain u original nw ms ob stx rv t es where
    u: "uuid_in env (rc_TransactionID cmd) = Some u" and ld: "loaded (db w1) u original" and uid: "tx_ID original = u"
    and kind: "tx_Kind original \<noteq> TxKindReversal" and ms: "list_all2 mirrored (tx_Entries original) ms"
    and t: "t = tx_row_of env (tx_now w1) (newReversal revID original (rc_Reason cmd) nw ms)"
    and es: "es = map (stored env (tx_now w1)) ms" and ok: "posting_ok (db w1) (tx_now w1) t es ob"
    and d': "db w' = posting (db w1) (tx_now w1) t es rv ob ?s ?k (marshalTransaction stx)"
    by (elim exE conjE) (rule that; assumption)
  have uu: "uuid_in env u = Some u" using u env by (auto simp: uuid_ok_def)
  have same: "tx_of (db w1) = tx_of (db w)" "entries_of (db w1) = entries_of (db w)"
    "ledger_transactions (db w1) = ledger_transactions (db w)" "holdings_of (db w1) = holdings_of (db w)"
    using d1 by (simp_all add: tx_of_def entries_of_def fun_eq_iff)
  from ld obtain x0 where x0: "tx_of (db w) u = Some x0" "tx_Kind original = t_kind x0"
    and eo: "tx_Entries original = sort_key e_seq (entries_of (db w) u)" by (auto simp: loaded_def same)
  have small: "\<forall>e \<in> set (tx_Entries original). \<bar>e_amount e\<bar> < 2 ^ 63"
    using inv by (auto simp: eo ledger_inv_def core_inv_def entries_ok_def dest: entries_of_mem)
  have "sum_of (on_account i es) = - sum_of (on_account i (entries_of (db w) u))" for i
    using mirrored_sums[OF ms small, of i] sum_of_mset[of "tx_Entries original" "entries_of (db w) u" i]
    by (simp add: eo es)
  then have h: "holdings_of (db w') = spec_reverse (posted_legs (db w) u) (holdings_of (db w))"
    by (intro ext) (simp add: d' holdings_of_posting same spec_reverse_def posted_legs_sum split: option.splits)
  have rv: "t_reverses t = Some u" by (simp add: t uid uu)
  then have "\<forall>t1 \<in> set (ledger_transactions (db w)). t_reverses t1 \<noteq> Some u"
    using ok by (auto simp: posting_ok_def tx_constraints_def list_all_iff same)
  with u x0 kind rv h d' same show ?thesis by (auto simp: t)
qed

text \<open>
  C5. A reversal is all or nothing and undoes exactly the transaction it names: the call
  leaves the database alone, or the named transaction is no reversal and was not reversed
  before, one reversal transaction pointing at it is added, and every account moves back by
  the entries of the original.
\<close>

theorem reverse_refines:
  assumes "ledger_inv (db w)" and "uuid_ok env" and "Reverse env cfg ctx cmd w = (r, w')"
  shows "db w' = db w \<or> (\<exists>u t0 t. uuid_in env (rc_TransactionID cmd) = Some u \<and> tx_of (db w) u = Some t0 \<and>
    t_kind t0 \<noteq> TxKindReversal \<and> (\<forall>t1 \<in> set (ledger_transactions (db w)). t_reverses t1 \<noteq> Some u) \<and>
    ledger_transactions (db w') = ledger_transactions (db w) @ [t] \<and> t_kind t = TxKindReversal \<and> t_reverses t = Some u \<and>
    holdings_of (db w') = spec_reverse (posted_legs (db w) u) (holdings_of (db w)))"
  using Reverse_effect[OF assms(3)]
proof (elim disjE conjE exE)
  fix ctx' n assume "took_effect (reverseBody env cfg ctx' (uuid_src env n) cmd) r (db w) (db w')"
  then obtain y v0 v1 where c: "db v0 = db w" "db v1 = db w'"
    and run: "reverseBody env cfg ctx' (uuid_src env n) cmd v0 = (Ret y, v1)"
    by (auto simp: took_effect_def committed_def)
  show ?thesis
  proof (cases "res_Replayed y")
    case True
    with reverseBody_Ret[OF run] c show ?thesis by auto
  next
    case False
    from reverseBody_spec[OF run False _ assms(2)] assms(1) c show ?thesis by simp
  qed
qed (simp add: no_effect_def)

theorem reverse_refines_witness:
  "holdings_of (db W6) = spec_reverse (posted_legs (db W4) ''='') (holdings_of (db W4)) \<and>
   map b_amount (balances (db W4)) = [- 100, 100, 0] \<and> map b_amount (balances (db W6)) = [0, 0, 0]"
proof -
  have i: "uuid_in demo_env (rc_TransactionID undo_cmd) = Some ''=''"
    by (simp add: undo_cmd_def ReverseCommand.defs demo_env_def)
  from reverse_refines[OF inv_W4 demo_uuid surjective_pairing, of demo_cfg Background undo_cmd, folded W6_def, unfolded i]
  have "db W6 = db W4 \<or> holdings_of (db W6) = spec_reverse (posted_legs (db W4) ''='') (holdings_of (db W4))"
    by auto
  moreover have "length (ledger_transactions (db W6)) \<noteq> length (ledger_transactions (db W4))"
    by (simp add: W4_eq W6_eq)
  ultimately show ?thesis by (auto simp: W4_eq W6_eq)
qed

end
