(* ===== verification/Ledger_Retries.thy ===== *)
theory Ledger_Retries
  imports Ledger_Refinement
begin

text \<open>
  Retries: what a client sees when it sends a request again, after an answer, after a lost
  answer, with another payload, and after any later history.
\<close>

subsection \<open>A healthy call under a used key\<close>

definition quiet :: "env \<Rightarrow> Config \<Rightarrow> world \<Rightarrow> bool" where
  "quiet env cfg w \<longleftrightarrow> healthy env \<and> 1 \<le> DBMaxTxRetries cfg \<and> \<not> Enabled (fps w)"

lemma InTx_taken:
  assumes "quiet env cfg w" and "ledger_inv (db w)" and "canonical (uuid_in env) (db w)"
    and row: "idem_of (db w) s k = Some row"
  shows "(i_request_hash row = h \<longrightarrow> (\<exists>x w'. InTx env (DBMaxTxRetries cfg) (withKey env s k h work) w = (Ret x, w') \<and>
        db w' = db w \<and> fps w' = fps w \<and> res_Replayed x \<and> recorded (db w) s k h x))
    \<and> (i_request_hash row \<noteq> h \<longrightarrow> (\<exists>w'. InTx env (DBMaxTxRetries cfg) (withKey env s k h work) w = (Err (Conflict k), w') \<and>
        db w' = db w))"
proof -
  have q: "healthy env" "1 \<le> DBMaxTxRetries cfg" using assms(1) by (simp_all add: quiet_def)
  from withKey_taken[of env "begun env w" s k row h work, unfolded begun_fields, OF q(1) assms(2,3) row]
  show ?thesis
  proof (elim conjE, intro conjI impI)
    assume "i_request_hash row = h \<longrightarrow> (\<exists>x w'. withKey env s k h work (begun env w) = (Ret x, w') \<and> db w' = db w \<and>
        fps w' = fps w \<and> res_Replayed x \<and> recorded (db w) s k h x)" and "i_request_hash row = h"
    then obtain x w' where x: "withKey env s k h work (begun env w) = (Ret x, w')" "db w' = db w" "fps w' = fps w"
      "res_Replayed x" "recorded (db w) s k h x" by blast
    have "deferred_triggers (db w) (db w') = None" using x(2) by (simp add: deferred_triggers_same)
    from InTx_healthy_Ret[where fn = "withKey env s k h work", OF q x(1) this] x show "\<exists>x w'. InTx env (DBMaxTxRetries cfg) (withKey env s k h work) w = (Ret x, w') \<and>
        db w' = db w \<and> fps w' = fps w \<and> res_Replayed x \<and> recorded (db w) s k h x" by simp
  next
    assume "i_request_hash row \<noteq> h \<longrightarrow> (\<exists>w'. withKey env s k h work (begun env w) = (Err (Conflict k), w'))"
      and "i_request_hash row \<noteq> h"
    then obtain w' where "withKey env s k h work (begun env w) = (Err (Conflict k), w')" by blast
    from InTx_healthy_Err[where fn = "withKey env s k h work", OF q this Conflict_final]
    show "\<exists>w'. InTx env (DBMaxTxRetries cfg) (withKey env s k h work) w = (Err (Conflict k), w') \<and> db w' = db w" by simp
  qed
qed

lemma Transfer_taken:
  assumes q: "quiet env cfg w" and v: "ValidateTransfer cmd = None" and inv: "ledger_inv (db w)"
    and can: "canonical (uuid_in env) (db w)"
    and row: "idem_of (db w) (tc_IdempotencyScope cmd) (tc_IdempotencyKey cmd) = Some row"
  shows "(i_request_hash row = tc_RequestHash cmd \<longrightarrow> (\<exists>x w'. Transfer env cfg ctx cmd w = (Ret x, w') \<and> db w' = db w \<and>
        res_Replayed x \<and> recorded (db w) (tc_IdempotencyScope cmd) (tc_IdempotencyKey cmd) (tc_RequestHash cmd) x))
    \<and> (i_request_hash row \<noteq> tc_RequestHash cmd \<longrightarrow>
        (\<exists>w'. Transfer env cfg ctx cmd w = (Err (Conflict (tc_IdempotencyKey cmd)), w') \<and> db w' = db w))"
proof -
  have off: "\<not> Enabled (fps w)" using q by (simp add: quiet_def)
  have q': "quiet env cfg (tickw w)" using q by (simp add: quiet_def)
  have t: "Transfer env cfg ctx cmd w = andThen (InTx env (DBMaxTxRetries cfg)
      (transferBody env cfg (WithTransactionID ctx (uuid_src env (tick w))) (uuid_src env (tick w)) cmd)) (\<lambda>result.
        if res_Replayed result then ret result
        else andThen (mapErr lostResponse (fpEval (cx_failpoints ctx) AfterCommit)) (\<lambda>_. ret result)) (tickw w)"
    by (simp add: Transfer_def v andThen_def failIf_off[OF off] newUUID_def)
  from InTx_taken[of env cfg "tickw w", unfolded tickw_fields, OF q' inv can row, of "tc_RequestHash cmd"
      "executeTransfer env cfg (WithTransactionID ctx (uuid_src env (tick w))) (uuid_src env (tick w)) cmd",
      folded transferBody_def]
  show ?thesis unfolding t by (auto simp: andThen_def ret_def)
qed

text \<open>
  C6. Idempotent replay: a healthy retry of a transfer whose key was used with the same
  payload answers with the recorded status and body, marked as replayed, and changes nothing.
\<close>

theorem transfer_replay:
  assumes "quiet env cfg w" and "ValidateTransfer cmd = None" and "ledger_reachable (uuid_in env) (db w)"
    and "idem_of (db w) (tc_IdempotencyScope cmd) (tc_IdempotencyKey cmd) = Some row"
    and "i_request_hash row = tc_RequestHash cmd"
  shows "\<exists>x w'. Transfer env cfg ctx cmd w = (Ret x, w') \<and> db w' = db w \<and> res_Replayed x \<and>
    res_ResponseStatus x = 201 \<and> res_ResponseBody x = i_response_body row"
proof -
  note inv = reachable_inv[OF assms(3)]
  have "i_response_status row = Some 201"
    using inv idem_of_id[OF assms(4)] by (auto simp: ledger_inv_def idem_ok_def list_all_iff idem_done_def)
  with Transfer_taken[OF assms(1,2) _ _ assms(4)] inv assms(4,5) show ?thesis by (fastforce simp: recorded_def)
qed

lemma quiet_W5: "quiet demo_env demo_cfg W5"
  by (simp add: quiet_def demo_healthy demo_cfg_def Config.defs W5_eq Enabled_def)

lemma valid_pay: "ValidateTransfer pay_cmd = None"
  by (simp add: ValidateTransfer_None pay_cmd_def TransferCommand.defs currencyRe_def is_upper_def less_eq_char_def)

theorem transfer_replay_witness:
  "\<exists>x w'. Transfer demo_env demo_cfg Background pay_cmd W5 = (Ret x, w') \<and> db w' = db W5 \<and> res_Replayed x \<and>
    res_ResponseStatus x = 201"
proof -
  obtain row where "idem_of (db W5) (tc_IdempotencyScope pay_cmd) (tc_IdempotencyKey pay_cmd) = Some row"
      "i_request_hash row = tc_RequestHash pay_cmd"
    by (auto simp: idem_of_def W5_eq pay_cmd_def TransferCommand.defs)
  from transfer_replay[OF quiet_W5 valid_pay reach_W5 this, of Background] show ?thesis by blast
qed

text \<open>
  C7. A key that was used with another payload is refused with \<open>idempotency_conflict\<close> (HTTP
  409), and nothing changes.
\<close>

theorem transfer_conflict:
  assumes "quiet env cfg w" and "ValidateTransfer cmd = None" and "ledger_reachable (uuid_in env) (db w)"
    and "idem_of (db w) (tc_IdempotencyScope cmd) (tc_IdempotencyKey cmd) = Some row"
    and "i_request_hash row \<noteq> tc_RequestHash cmd"
  shows "\<exists>w'. Transfer env cfg ctx cmd w = (Err (Conflict (tc_IdempotencyKey cmd)), w') \<and> db w' = db w \<and>
    HTTPStatus (err_code (Conflict (tc_IdempotencyKey cmd))) = 409"
  using Transfer_taken[OF assms(1,2) _ _ assms(4), of ctx] reachable_inv[OF assms(3)] assms(5)
  by (simp add: Conflict_def apperr_defs)

theorem transfer_conflict_witness:
  "\<exists>w'. Transfer demo_env demo_cfg Background (pay_cmd\<lparr>tc_RequestHash := ''other''\<rparr>) W5 = (Err (Conflict ''2''), w') \<and>
    db w' = db W5"
proof -
  let ?c = "pay_cmd\<lparr>tc_RequestHash := ''other''\<rparr>"
  obtain row where r: "idem_of (db W5) (tc_IdempotencyScope ?c) (tc_IdempotencyKey ?c) = Some row"
      "i_request_hash row \<noteq> tc_RequestHash ?c"
    by (auto simp: idem_of_def W5_eq pay_cmd_def TransferCommand.defs)
  have "ValidateTransfer ?c = None" using valid_pay by (simp add: ValidateTransfer_None)
  from transfer_conflict[OF quiet_W5 this reach_W5 r, of Background] show ?thesis
    by (auto simp: pay_cmd_def TransferCommand.defs)
qed

subsection \<open>Lost answers\<close>

text \<open>
  C8. The answer of a transfer may be lost after its commit (a broken connection, a failpoint, a
  crash). A healthy retry of the same request then finds the recorded answer, marked as
  replayed, and moves no money a second time. If the first call did answer, the retry gives
  the same status and body.
\<close>

theorem lost_response_retry:
  assumes "ledger_reachable (uuid_in env) (db w)" and "uuid_ok env" and "in64 (tc_Amount cmd)"
    and first: "Transfer env cfg ctx cmd w = (r1, w1)" and "db w1 \<noteq> db w"
    and "quiet env2 cfg2 w2" and "uuid_in env2 = uuid_in env" and "db w2 = db w1"
  shows "\<exists>x w3. Transfer env2 cfg2 ctx2 cmd w2 = (Ret x, w3) \<and> db w3 = db w1 \<and> res_Replayed x \<and>
    (\<forall>y. r1 = Ret y \<longrightarrow> res_ResponseStatus x = res_ResponseStatus y \<and> res_ResponseBody x = res_ResponseBody y)"
proof -
  have v: "ValidateTransfer cmd = None"
    using Transfer_effect[OF first] assms(5) by (auto simp: no_effect_def)
  have "ledger_reachable (uuid_in env) (db w1)"
    using assms(1) ledger_step.transfer[OF assms(2) refl assms(3) first] by (rule ledger_reachable.step)
  then have inv: "ledger_inv (db w2)" "canonical (uuid_in env2) (db w2)"
    using reachable_inv assms(7,8) by auto
  from Transfer_recorded[OF first disjI1[OF assms(5)]] obtain x0 where
    x0: "recorded (db w2) (tc_IdempotencyScope cmd) (tc_IdempotencyKey cmd) (tc_RequestHash cmd) x0"
      "\<forall>y. r1 = Ret y \<longrightarrow> y = x0" unfolding assms(8) by blast
  then obtain row where row: "idem_of (db w2) (tc_IdempotencyScope cmd) (tc_IdempotencyKey cmd) = Some row"
    "i_request_hash row = tc_RequestHash cmd" by (auto simp: recorded_def)
  with Transfer_taken[OF assms(6) v inv row(1), of ctx2] obtain x w3 where
    x: "Transfer env2 cfg2 ctx2 cmd w2 = (Ret x, w3)" "db w3 = db w2" "res_Replayed x"
      "recorded (db w2) (tc_IdempotencyScope cmd) (tc_IdempotencyKey cmd) (tc_RequestHash cmd) x" by blast
  have "res_ResponseStatus x = res_ResponseStatus x0 \<and> res_ResponseBody x = res_ResponseBody x0"
    using x(4) x0(1) by (auto simp: recorded_def)
  with x x0(2) assms(8) show ?thesis by auto
qed

definition lossy_env :: env where
  "lossy_env = demo_env\<lparr>commit_fault := (\<lambda>_. Some (AckLost ''unexpected EOF''))\<rparr>"

lemma lossy_run:
  "(case Transfer lossy_env demo_cfg Background pay_cmd W4 of
      (Err e, w1) \<Rightarrow> length (ledger_transactions (db w1)) = 2 \<and> fps w1 = None | _ \<Rightarrow> False)"
  unfolding W4_eq by code_simp

theorem lost_response_retry_witness:
  "\<exists>e w1 x w3. Transfer lossy_env demo_cfg Background pay_cmd W4 = (Err e, w1) \<and> db w1 \<noteq> db W4 \<and>
     Transfer demo_env demo_cfg Background pay_cmd w1 = (Ret x, w3) \<and> db w3 = db w1 \<and> res_Replayed x"
proof -
  obtain r1 w1 where t: "Transfer lossy_env demo_cfg Background pay_cmd W4 = (r1, w1)" by fastforce
  with lossy_run obtain e where e: "r1 = Err e" "length (ledger_transactions (db w1)) = 2" "fps w1 = None"
    by (cases r1) auto
  then have ne: "db w1 \<noteq> db W4" by (auto simp: W4_eq)
  have same: "uuid_in demo_env = uuid_in lossy_env" and ok: "uuid_ok lossy_env"
    using demo_uuid by (simp_all add: lossy_env_def uuid_ok_def)
  have r: "ledger_reachable (uuid_in lossy_env) (db W4)"
    unfolding same[symmetric] by (rule ledger_reachable.step[OF reach_W3 fund_step])
  have q: "quiet demo_env demo_cfg w1" using quiet_W5 e(3) by (simp add: quiet_def Enabled_def)
  have a: "in64 (tc_Amount pay_cmd)" by (simp add: pay_cmd_def TransferCommand.defs in64_def)
  from lost_response_retry[OF r ok a t ne q same refl, of Background] t e(1) ne show ?thesis by blast
qed

subsection \<open>Used keys\<close>

lemma steps_extend: "(ledger_step uin)\<^sup>*\<^sup>* d d' \<Longrightarrow> extends d d'"
  by (induction rule: rtranclp_induct) (auto intro: extends_refl extends_trans ledger_step_extends)

text \<open>
  C9. Exactly once: after a key has been used, no transfer under that key ever changes the
  database again, with any payload, after any later history of calls, and whatever fails.
\<close>

theorem used_key_inert:
  assumes "idem_of d (tc_IdempotencyScope cmd) (tc_IdempotencyKey cmd) = Some row"
    and "(ledger_step uin)\<^sup>*\<^sup>* d (db w)" and "Transfer env cfg ctx cmd w = (r, w')"
  shows "db w' = db w"
proof -
  have "idem_of (db w) (tc_IdempotencyScope cmd) (tc_IdempotencyKey cmd) = Some row"
    using steps_extend[OF assms(2)] assms(1) by (simp add: extends_def)
  with Transfer_effect[OF assms(3)] show ?thesis
    by (auto simp: no_effect_def took_effect_def committed_def dest!: transferBody_Ret)
qed

theorem used_key_inert_witness:
  "db (snd (Transfer lossy_env demo_cfg Background (fund_cmd\<lparr>tc_Amount := 5\<rparr>) W5)) = db W5"
proof -
  let ?c = "fund_cmd\<lparr>tc_Amount := 5\<rparr>"
  obtain row where r: "idem_of (db W4) (tc_IdempotencyScope ?c) (tc_IdempotencyKey ?c) = Some row"
    by (auto simp: idem_of_def W4_eq fund_cmd_def TransferCommand.defs)
  from used_key_inert[OF this r_into_rtranclp, OF pay_step surjective_pairing] show ?thesis .
qed

text \<open>
  C10. The history is append-only: no step of the service, failing or not, changes or removes
  an account, a transaction, an entry, a reversal, an outbox event or a completed
  idempotency record.
\<close>

theorem history_append_only:
  assumes "(ledger_step uin)\<^sup>*\<^sup>* d d'"
  shows "prefix (accounts d) (accounts d') \<and> prefix (ledger_transactions d) (ledger_transactions d') \<and>
    prefix (ledger_entries d) (ledger_entries d') \<and> prefix (reversals d) (reversals d') \<and>
    prefix (outbox_events d) (outbox_events d') \<and>
    (\<forall>s k r. idem_of d s k = Some r \<longrightarrow> idem_of d' s k = Some r)"
  using steps_extend[OF assms] by (simp add: extends_def)

theorem history_append_only_witness:
  "prefix (ledger_entries (db W3)) (ledger_entries (db W5)) \<and> ledger_entries (db W5) \<noteq> []"
proof -
  have "(ledger_step (uuid_in demo_env))\<^sup>*\<^sup>* (db W3) (db W5)"
    using fund_step pay_step by (meson r_into_rtranclp rtranclp_trans)
  from history_append_only[OF this] show ?thesis by (simp add: W5_eq)
qed

end
