(* ===== verification/Locking.thy ===== *)
theory Locking
  imports Ledger_Retries
begin

text \<open>
  The row locks of a transfer or a reversal: taken once each, in ascending order of account,
  and by nothing but \<open>lockBalances\<close>; the balances a call updates are among those it has
  locked. Transactions that lock in one global order never wait for each other in a circle.
\<close>

named_theorems locks_kept \<open>calls that take no row lock\<close>

definition same_locks :: "world \<Rightarrow> world \<Rightarrow> bool" where
  "same_locks w w' \<longleftrightarrow> row_locks w' = row_locks w"

interpretation locks: step_rel same_locks
  by unfold_locales (simp_all add: same_locks_def)

abbreviation keeps_locks :: "'a comp \<Rightarrow> bool" where
  "keeps_locks m \<equiv> stays same_locks m"

lemmas keeps_locks_def = stays_def[of same_locks] same_locks_def

lemmas locks_rules [locks_kept] = locks.stays_ret locks.stays_throw locks.stays_mapErr locks.stays_andThen

lemma kl_sql [locks_kept]: "keeps_locks (sql env stmt)"
  by (auto simp: keeps_locks_def sql_def split: option.splits sum.splits)

lemma kl_newUUID [locks_kept]: "keeps_locks (newUUID env)" and kl_goNow [locks_kept]: "keeps_locks (goNow env)"
  and kl_deref [locks_kept]: "keeps_locks (deref p)"
  by (auto simp: keeps_locks_def newUUID_def goNow_def deref_def split: option.splits)

lemma kl_fpEval [locks_kept]: "keeps_locks (fpEval ov n)"
  by (auto simp: keeps_locks_def fpEval_def split: prod.splits)

lemma kl_LockKey [locks_kept]: "keeps_locks (LockKey env s k)"
  by (auto simp: keeps_locks_def LockKey_def mapErr_def sql_def split: option.splits)

lemma kl_failIf [locks_kept]: "keeps_locks (failIf ctx n)"
  unfolding failIf_def by (intro locks_kept)

lemma kl_Claim [locks_kept]: "keeps_locks (Claim env s k h)"
  unfolding Claim_def Fetch_def by (auto intro!: locks_kept)

lemma kl_loadTransaction [locks_kept]: "keeps_locks (loadTransaction env i)"
  unfolding loadTransaction_def by (intro locks_kept)

lemma kl_replayResult [locks_kept]: "keeps_locks (replayResult env rec h k)"
  unfolding replayResult_def Let_def by (auto intro!: locks_kept split: option.splits)

lemma kl_insertEntries [locks_kept]: "keeps_locks (insertEntries env es)"
  by (induction es) (auto intro!: locks_kept)

lemma kl_applyDeltas [locks_kept]: "keeps_locks (applyDeltas env es)"
  by (induction es) (auto simp: applyBalanceDelta_def intro!: locks_kept)

lemma kl_mirrorEntries [locks_kept]: "keeps_locks (mirrorEntries env i es acc)"
  by (induction es arbitrary: acc) (auto intro!: locks_kept)

lemma kl_recordTransfer [locks_kept]: "keeps_locks (recordTransfer env cfg ctx cmd src dst txn)"
  unfolding recordTransfer_def insertTransaction_def writeOutboxEvent_def Insert_def Complete_def Let_def
  by (intro locks_kept)

lemma kl_recordReversal [locks_kept]: "keeps_locks (recordReversal env cfg ctx cmd original txn)"
  unfolding recordReversal_def insertTransaction_def insertReversalRecord_def writeOutboxEvent_def Insert_def
    Complete_def Let_def
  by (intro locks_kept)

subsection \<open>Ascending locks\<close>

text \<open>The locks a call adds form a strictly ascending list, however the call ends.\<close>

definition ascending_locks :: "'a comp \<Rightarrow> bool" where
  "ascending_locks m \<longleftrightarrow> (\<forall>w. row_locks w = [] \<longrightarrow> sorted_wrt (<) (row_locks (snd (m w))))"

lemma lockLoop_ascending:
  assumes "sorted ids" and "lockLoop env ids out w = (r, w')"
  shows "\<exists>L. row_locks w' = row_locks w @ L \<and> sorted_wrt (<) L \<and> set L \<subseteq> set ids - dom out"
  using assms
proof (induction ids arbitrary: out w)
  case Nil
  then show ?case by (auto simp: ret_def)
next
  case (Cons i ids)
  show ?case
  proof (cases "out i")
    case (Some x)
    with Cons.prems Cons.IH[of out w] show ?thesis by (auto simp: dom_def)
  next
    case None
    obtain r1 w1 where l: "lockRow env i w = (r1, w1)" by fastforce
    show ?thesis
    proof (cases r1)
      case (Ret a)
      have w1: "row_locks w1 = row_locks w @ [i]" using lockRow_Ret l Ret by blast
      have "lockLoop env ids (out(i \<mapsto> a)) w1 = (r, w')"
        using Cons.prems None l Ret by (simp add: andThen_def mapErr_def)
      moreover have "sorted ids" using Cons.prems(1) by simp
      ultimately obtain L where L: "row_locks w' = row_locks w1 @ L"
        "sorted_wrt (<) L" "set L \<subseteq> set ids - dom (out(i \<mapsto> a))" using Cons.IH by blast
      have "\<forall>x \<in> set L. i < x" using L(3) Cons.prems(1) by (auto simp: less_le)
      with L w1 None show ?thesis by (intro exI[of _ "i # L"]) auto
    qed (use Cons.prems None l in \<open>auto simp: andThen_def mapErr_def lockRow_def sql_def split: option.splits sum.splits prod.splits res.splits\<close>)
  qed
qed

lemma al_lockBalances: "ascending_locks (lockBalances env ids)"
  unfolding ascending_locks_def lockBalances_def
  using lockLoop_ascending[of "sort ids" env Map.empty] by (metis append_Nil prod.collapse sorted_sort)

lemma al_after: "ascending_locks m \<Longrightarrow> (\<And>x. keeps_locks (f x)) \<Longrightarrow> ascending_locks (andThen m f)"
  by (auto simp: ascending_locks_def keeps_locks_def andThen_def split: prod.splits res.splits)

lemma al_before: "keeps_locks m \<Longrightarrow> (\<And>x. ascending_locks (f x)) \<Longrightarrow> ascending_locks (andThen m f)"
  by (auto simp: ascending_locks_def keeps_locks_def andThen_def split: prod.splits res.splits)
    (metis snd_conv sorted_wrt.simps(1))+

lemma al_keeps: "keeps_locks m \<Longrightarrow> ascending_locks m"
  by (simp add: ascending_locks_def keeps_locks_def)

lemma al_transferBody: "ascending_locks (transferBody env cfg ctx txID cmd)"
  unfolding transferBody_def withKey_def executeTransfer_def
  by (rule al_before, rule kl_LockKey, rule al_before, rule kl_Claim)
    (auto intro!: al_keeps[OF kl_replayResult] al_after[OF al_lockBalances] locks_kept split: option.splits)

lemma al_reverseBody: "ascending_locks (reverseBody env cfg ctx revID cmd)"
  unfolding reverseBody_def withKey_def executeReverse_def listAccountsForTransaction_def
  by (rule al_before, rule kl_LockKey, rule al_before, rule kl_Claim)
    (auto intro!: al_keeps[OF kl_replayResult] al_keeps[OF locks.stays_throw] al_before[OF kl_loadTransaction]
      al_before[OF locks.stays_mapErr[OF kl_sql]] al_after al_lockBalances locks_kept split: option.splits)

text \<open>
  C11. However the body of a transfer or a reversal ends, it has taken each account lock
  once and in ascending order; a transfer that has posted holds exactly the locks of its two
  accounts.
\<close>

theorem lock_order:
  assumes "row_locks w = []"
  shows "sorted_wrt (<) (row_locks (snd (transferBody env cfg ctx txID cmd w)))
    \<and> sorted_wrt (<) (row_locks (snd (reverseBody env cfg ctx txID rcmd w)))
    \<and> (\<forall>x w'. transferBody env cfg ctx txID cmd w = (Ret x, w') \<and> \<not> res_Replayed x \<longrightarrow>
         set (row_locks w') = {tc_SourceAccountID cmd, tc_DestinationAccountID cmd})"
proof (intro conjI allI impI; (elim conjE)?)
  show "sorted_wrt (<) (row_locks (snd (transferBody env cfg ctx txID cmd w)))"
    and "sorted_wrt (<) (row_locks (snd (reverseBody env cfg ctx txID rcmd w)))"
    using al_transferBody al_reverseBody assms by (auto simp: ascending_locks_def)
  fix x w' assume run: "transferBody env cfg ctx txID cmd w = (Ret x, w')" and "\<not> res_Replayed x"
  with transferBody_Ret[OF run] obtain w1 where none: "idem_of (db w) (tc_IdempotencyScope cmd) (tc_IdempotencyKey cmd) = None"
    and rl: "row_locks w1 = row_locks w"
    and d1: "db w1 = (db w)\<lparr>idempotency_records := idempotency_records (db w) @
        [claimed_row (tc_IdempotencyScope cmd) (tc_IdempotencyKey cmd) (tc_RequestHash cmd) (tx_now w)]\<rparr>"
    and ex: "executeTransfer env cfg ctx txID cmd w1 = (Ret x, w')" by blast
  from executeTransfer_Ret[OF ex claimed_lookup[OF none d1]] obtain L where
    "row_locks w' = row_locks w1 @ L" "set L = {tc_SourceAccountID cmd, tc_DestinationAccountID cmd}"
    by (elim exE conjE) (rule that; assumption)
  then show "set (row_locks w') = {tc_SourceAccountID cmd, tc_DestinationAccountID cmd}" by (simp add: rl assms)
qed

theorem lock_order_witness:
  "sorted_wrt (<) (row_locks (snd (transferBody demo_env demo_cfg Background ''z'' pay_cmd W4)))"
  using lock_order[of W4 demo_env demo_cfg Background "''z''" pay_cmd undo_cmd] by (simp add: W4_eq)

subsection \<open>No circular waiting\<close>

text \<open>
  \<open>order p\<close> is the list of locks transaction \<open>p\<close> takes, \<open>held p\<close> how many of them it holds.
  It waits for \<open>q\<close> when the next lock it needs is one \<open>q\<close> holds. Only waiting transactions
  can be part of a deadlock.
\<close>

definition waits_for :: "('p \<Rightarrow> string list) \<Rightarrow> ('p \<Rightarrow> nat) \<Rightarrow> 'p \<Rightarrow> 'p \<Rightarrow> bool" where
  "waits_for order held p q \<longleftrightarrow> held p < length (order p) \<and> order p ! held p \<in> set (take (held q) (order q))"

lemma waits_increase:
  assumes "\<And>p. sorted_wrt (<) (order p)" and "waits_for order held p q" and "held q < length (order q)"
  shows "order p ! held p < order q ! held q"
proof -
  obtain i where i: "i < held q" "order q ! i = order p ! held p"
    using assms(2) by (auto simp: waits_for_def in_set_conv_nth)
  then show ?thesis using sorted_wrt_nth_less[OF assms(1)[of q], of i "held q"] assms(3) by simp
qed

lemma waits_trancl:
  assumes "\<And>p. sorted_wrt (<) (order p)"
    and "(p, q) \<in> {(p, q). waits_for order held p q \<and> held q < length (order q)}\<^sup>+"
  shows "order p ! held p < order q ! held q"
  using assms(2)
proof (induction rule: trancl_induct)
  case (base y)
  then show ?case using waits_increase[of order, OF assms(1)] by blast
next
  case (step y z)
  then show ?case using waits_increase[of order held y z, OF assms(1)] by auto
qed

text \<open>
  C12. No deadlock among account locks: whatever transfers and reversals run side by side,
  each taking the account locks its own body takes, and however far each has come, the
  relation of waiting transactions has no cycle.
\<close>

theorem no_deadlock:
  assumes "\<And>p. order p = row_locks (snd (transferBody (env p) (cfg p) (ctx p) (txID p) (cmd p) (w p))) \<or>
      order p = row_locks (snd (reverseBody (env p) (cfg p) (ctx p) (txID p) (rcmd p) (w p)))"
    and "\<And>p. row_locks (w p) = []"
  shows "acyclic {(p, q). waits_for order held p q \<and> held q < length (order q)}"
proof -
  have "sorted_wrt (<) (order p)" for p
    using assms(1)[of p] al_transferBody al_reverseBody assms(2) by (auto simp: ascending_locks_def)
  from waits_trancl[of order, OF this] show ?thesis by (fastforce simp: acyclic_def)
qed

definition back_cmd :: TransferCommand where
  "back_cmd = pay_cmd\<lparr>tc_SourceAccountID := ''v'', tc_DestinationAccountID := ''u''\<rparr>"

theorem no_deadlock_witness:
  "acyclic {(p, q). waits_for (\<lambda>b. row_locks (snd (transferBody demo_env demo_cfg Background ''z'' (if b then pay_cmd else back_cmd) W4)))
      (\<lambda>_. 1) p q \<and> 1 < length (row_locks (snd (transferBody demo_env demo_cfg Background ''z'' (if q then pay_cmd else back_cmd) W4)))}"
  by (rule no_deadlock[where env = "\<lambda>_. demo_env" and cfg = "\<lambda>_. demo_cfg" and ctx = "\<lambda>_. Background"
        and txID = "\<lambda>_. ''z''" and w = "\<lambda>_. W4" and cmd = "\<lambda>b. if b then pay_cmd else back_cmd" and held = "\<lambda>_. 1"])
    (simp_all add: W4_eq)

end
