(* ===== verification/Publisher.thy ===== *)
theory Publisher
  imports Outbox Observability Complex_Main
begin

text \<open>
  \<open>internal/kafka/producer.go\<close> (\<open>Publish\<close>), \<open>internal/outbox/publisher.go\<close> and
  \<open>internal/outbox/replay.go\<close>. The broker keeps the messages it accepted in a log; what it
  answers to a write is a parameter: an acknowledgement, an error before the write, or an
  error after it (the acknowledgement is lost). \<open>float64\<close> arithmetic of the delays is exact
  here, over rationals; logging and metrics are left out.
\<close>

subsection \<open>The broker\<close>

record Message =
  m_Topic :: string
  m_Key :: string
  m_Value :: json
  m_Headers :: "(string \<times> string) list"

datatype ack = Acked | NotWritten goerr | WrittenUnacked goerr

type_synonym broker = "nat \<Rightarrow> ack"
type_synonym 'a kcomp = "world \<times> Message list \<Rightarrow> 'a result \<times> (world \<times> Message list)"

text \<open>A call on the database, seen beside another part of the outside (the broker's log).\<close>

definition onDB :: "'a comp \<Rightarrow> world \<times> 'l \<Rightarrow> 'a result \<times> (world \<times> 'l)" where
  "onDB m s = (case m (fst s) of (r, w') \<Rightarrow> (r, (w', snd s)))"

text \<open>A call whose error the caller inspects instead of returning it.\<close>

definition attempt :: "('s \<Rightarrow> 'a result \<times> 's) \<Rightarrow> 's \<Rightarrow> (goerr + 'a) result \<times> 's" where
  "attempt m s =
     (case m s of (Ret x, s') \<Rightarrow> (Ret (Inr x), s') | (Err e, s') \<Rightarrow> (Ret (Inl e), s') | (Panic p, s') \<Rightarrow> (Panic p, s'))"

definition Publish :: "broker \<Rightarrow> Message \<Rightarrow> unit kcomp" where
  "Publish brk msg s =
     (let w = fst s; failed = (\<lambda>e. Err (Wrap (Sprintf ''kafka: publish to %s: %w'' [AStr (m_Topic msg)]) e))
      in case brk (tick w) of
           Acked \<Rightarrow> (Ret (), (tickw w, snd s @ [msg]))
         | NotWritten e \<Rightarrow> (failed e, (tickw w, snd s))
         | WrittenUnacked e \<Rightarrow> (failed e, (tickw w, snd s @ [msg])))"

subsection \<open>Delays\<close>

text \<open>\<open>time.Duration(x)\<close> truncates towards zero.\<close>

definition trunc :: "rat \<Rightarrow> int" where
  "trunc x = (if x < 0 then \<lceil>x\<rceil> else \<lfloor>x\<rfloor>)"

text \<open>The jitter \<open>u\<close> is the result of \<open>rand.Float64\<close>.\<close>

definition Backoff :: "int \<Rightarrow> time \<Rightarrow> time \<Rightarrow> rat \<Rightarrow> time" where
  "Backoff n base maxDelay u =
     (let n' = (if n < 1 then 1 else n);
          e0 = of_int base * 2 ^ nat (n' - 1);
          e = (if e0 > of_int maxDelay then of_int maxDelay else e0);
          minDelay = of_int base / 2
      in if e \<le> minDelay then trunc e else trunc (minDelay + u * (e - minDelay)))"

text \<open>\<open>rand.Float64\<close>: a multiple of \<open>2 ^ -53\<close> in the half-open unit interval.\<close>

definition float64_of :: "env \<Rightarrow> nat \<Rightarrow> rat" where
  "float64_of env n = of_int (rnd env n mod 2 ^ 53) / 2 ^ 53"

subsection \<open>Publishing\<close>

definition withEventHeaders :: "outbox_record \<Rightarrow> (string \<times> string) list" where
  "withEventHeaders rec =
     AList.update ''event_type'' (or_EventType rec)
       (AList.update ''transaction_id'' (or_AggregateID rec)
         (AList.update ''event_id'' (or_ID rec) (or_Headers rec)))"

definition eventMessage :: "outbox_record \<Rightarrow> Message" where
  "eventMessage rec = \<lparr>m_Topic = or_Topic rec, m_Key = or_PartitionKey rec, m_Value = or_Payload rec,
     m_Headers = withEventHeaders rec\<rparr>"

definition publishToDLQ :: "env \<Rightarrow> Config \<Rightarrow> broker \<Rightarrow> outbox_record \<Rightarrow> goerr \<Rightarrow> unit kcomp" where
  "publishToDLQ env cfg brk rec cause =
     andThen (onDB (goNow env)) (\<lambda>now.
       let payload = JObj [(''attempts'', JNum (or_Attempts rec + 1)), (''dead_lettered_at'', JTime now),
             (''error'', JStr (err_text env cause)), (''event_id'', JStr (or_ID rec)),
             (''event_type'', JStr (or_EventType rec)), (''original'', or_Payload rec),
             (''topic'', JStr (or_Topic rec)), (''transaction_id'', JStr (or_AggregateID rec))]
       in andThen (attempt (Publish brk \<lparr>m_Topic = TopicPaymentsDLQ cfg, m_Key = or_PartitionKey rec,
            m_Value = payload, m_Headers = withEventHeaders rec\<rparr>)) (\<lambda>_. ret ()))"

definition jitter :: "env \<Rightarrow> rat comp" where
  "jitter env w = (Ret (float64_of env (tick w)), tickw w)"

definition fail :: "env \<Rightarrow> Config \<Rightarrow> broker \<Rightarrow> outbox_record \<Rightarrow> goerr \<Rightarrow> unit kcomp" where
  "fail env cfg brk rec cause =
     andThen (onDB (jitter env)) (\<lambda>u.
       let delay = Backoff (or_Attempts rec + 1) (OutboxBaseBackoff cfg) (OutboxMaxBackoff cfg) u in
       andThen (attempt (onDB (MarkFailed env (or_ID rec) (err_text env cause) delay (OutboxMaxAttempts cfg)))) (\<lambda>r.
         case r of
           Inl e \<Rightarrow> ret ()
         | Inr (attempts, dead) \<Rightarrow> if dead then publishToDLQ env cfg brk rec cause else ret ()))"

definition publishOne :: "env \<Rightarrow> Config \<Rightarrow> broker \<Rightarrow> ctx \<Rightarrow> outbox_record \<Rightarrow> bool kcomp" where
  "publishOne env cfg brk ctx0 rec =
     (let ctx1 = WithTransactionID ctx0 (or_AggregateID rec);
          cid = (case map_of (or_Headers rec) ''correlation_id'' of None \<Rightarrow> [] | Some c \<Rightarrow> c);
          ctx = (if cid \<noteq> [] then WithCorrelationID ctx1 cid else ctx1)
      in andThen (attempt (onDB (fpEval (cx_failpoints ctx) BeforeKafkaPublish))) (\<lambda>r.
         case r of
           Inl e \<Rightarrow> andThen (fail env cfg brk rec e) (\<lambda>_. ret False)
         | Inr _ \<Rightarrow>
           andThen (attempt (Publish brk (eventMessage rec))) (\<lambda>r.
           case r of
             Inl e \<Rightarrow> andThen (fail env cfg brk rec e) (\<lambda>_. ret False)
           | Inr _ \<Rightarrow>
             andThen (attempt (onDB (fpEval (cx_failpoints ctx) AfterKafkaPublish))) (\<lambda>r.
             case r of
               Inl e \<Rightarrow> ret False
             | Inr _ \<Rightarrow>
               andThen (attempt (onDB (MarkPublished env (or_ID rec)))) (\<lambda>r.
                 case r of Inl e \<Rightarrow> ret False | Inr _ \<Rightarrow> ret True)))))"

text \<open>\<open>ctx.Err()\<close>\<close>

definition ctxErr :: "env \<Rightarrow> unit comp" where
  "ctxErr env w = (case ctx_done env (tick w) of Some e \<Rightarrow> (Err e, tickw w) | None \<Rightarrow> (Ret (), tickw w))"

text \<open>
  Like \<open>RunOnce\<close>, the loop returns the number published together with the error, if any.
\<close>

fun publishLoop :: "env \<Rightarrow> Config \<Rightarrow> broker \<Rightarrow> ctx \<Rightarrow> outbox_record list \<Rightarrow> int \<Rightarrow> (int \<times> goerr option) kcomp" where
  "publishLoop env cfg brk ctx [] published = ret (published, None)"
| "publishLoop env cfg brk ctx (rec # batch) published =
     andThen (attempt (onDB (ctxErr env))) (\<lambda>r.
       case r of
         Inl e \<Rightarrow> ret (published, Some e)
       | Inr _ \<Rightarrow> andThen (publishOne env cfg brk ctx rec) (\<lambda>ok.
           publishLoop env cfg brk ctx batch (if ok then published + 1 else published)))"

definition RunOnce :: "env \<Rightarrow> Config \<Rightarrow> broker \<Rightarrow> ctx \<Rightarrow> (string \<Rightarrow> bool) \<Rightarrow> (int \<times> goerr option) kcomp" where
  "RunOnce env cfg brk ctx locked =
     andThen (attempt (onDB (Backlog env))) (\<lambda>_.
     andThen (attempt (onDB (ClaimOutbox env (OutboxWorkerID cfg) (OutboxBatchSize cfg) (OutboxClaimTTL cfg) locked))) (\<lambda>r.
       case r of
         Inl e \<Rightarrow> ret (0, Some e)
       | Inr batch \<Rightarrow> publishLoop env cfg brk ctx batch 0))"

subsection \<open>Replay\<close>

record ReplayRequest =
  rq_TransactionID :: string
  rq_From :: "time option"
  rq_To :: "time option"
  rq_Limit :: int
  rq_RequestedBy :: string
  rq_DryRun :: bool

record ReplayResult =
  rr_ReplayID :: string
  rr_Matched :: int
  rr_Published :: int
  rr_Failed :: int
  rr_DryRun :: bool
  rr_EventIDs :: "string list"

definition ValidateReplay :: "ReplayRequest \<Rightarrow> goerr option" where
  "ValidateReplay r =
     (if rq_TransactionID r = [] \<and> rq_From r = None \<and> rq_To r = None then
        Some (InvalidRequest ''replay requires transaction_id and/or a from/to time range'' [])
      else if (case (rq_From r, rq_To r) of (Some f, Some t) \<Rightarrow> t < f | _ \<Rightarrow> False) then
        Some (InvalidRequest ''to must not be before from'' [])
      else if rq_Limit r < 0 \<or> rq_Limit r > 10000 then
        Some (InvalidRequest ''limit must be between 0 and 10000'' [])
      else None)"

text \<open>
  \<open>json.Unmarshal\<close> into the structs of an event: an absent or null member leaves the zero
  value, a member of another type is an error, other members are ignored. Member names are
  compared exactly.
\<close>

definition member_of :: "(string \<times> json) list \<Rightarrow> string \<Rightarrow> json" where
  "member_of ms k = (case map_of (rev ms) k of None \<Rightarrow> JNull | Some j \<Rightarrow> j)"

fun as_str :: "json \<Rightarrow> string option" where
  "as_str JNull = Some []" | "as_str (JStr s) = Some s" | "as_str _ = None"
fun as_int :: "json \<Rightarrow> int option" where
  "as_int JNull = Some 0" | "as_int (JNum n) = (if in64 n then Some n else None)" | "as_int _ = None"
fun as_bool :: "json \<Rightarrow> bool option" where
  "as_bool JNull = Some False" | "as_bool (JBool b) = Some b" | "as_bool _ = None"
fun as_time :: "json \<Rightarrow> time option" where
  "as_time JNull = Some 0" | "as_time (JTime t) = Some t" | "as_time _ = None"

definition unmarshalReplayMeta :: "json \<Rightarrow> ReplayMeta option option" where
  "unmarshalReplayMeta j =
     (case j of
        JNull \<Rightarrow> Some None
      | JObj ms \<Rightarrow>
          (case (as_bool (member_of ms ''is_replay''), as_str (member_of ms ''replay_id''),
                 as_time (member_of ms ''replayed_at''), as_str (member_of ms ''replayed_by''),
                 as_int (member_of ms ''original_seq'')) of
             (Some b, Some i, Some t, Some by', Some n) \<Rightarrow>
               Some (Some \<lparr>rm_IsReplay = b, rm_ReplayID = i, rm_ReplayedAt = t, rm_ReplayedBy = by', rm_OriginalSeq = n\<rparr>)
           | _ \<Rightarrow> None)
      | _ \<Rightarrow> None)"

definition unmarshalEnvelope :: "json \<Rightarrow> Envelope option" where
  "unmarshalEnvelope j =
     (case j of
        JNull \<Rightarrow> Some \<lparr>ev_EventID = [], ev_EventType = [], ev_SchemaVersion = 0, ev_TransactionID = [],
                  ev_OccurredAt = 0, ev_CorrelationID = [], ev_Replay = None, ev_Data = JNull\<rparr>
      | JObj ms \<Rightarrow>
          (case (as_str (member_of ms ''event_id''), as_str (member_of ms ''event_type''),
                 as_int (member_of ms ''schema_version''), as_str (member_of ms ''transaction_id''),
                 as_time (member_of ms ''occurred_at''), as_str (member_of ms ''correlation_id''),
                 unmarshalReplayMeta (member_of ms ''replay'')) of
             (Some i, Some ty, Some v, Some tx, Some t, Some c, Some m) \<Rightarrow>
               Some \<lparr>ev_EventID = i, ev_EventType = ty, ev_SchemaVersion = v, ev_TransactionID = tx,
                 ev_OccurredAt = t, ev_CorrelationID = c, ev_Replay = m, ev_Data = member_of ms ''data''\<rparr>
           | _ \<Rightarrow> None)
      | _ \<Rightarrow> None)"

definition markReplayed :: "json \<Rightarrow> ReplayMeta \<Rightarrow> json option" where
  "markReplayed payload meta =
     map_option (\<lambda>e. marshalEnvelope (e\<lparr>ev_Replay := Some meta\<rparr>)) (unmarshalEnvelope payload)"

definition replayMessage :: "outbox_record \<Rightarrow> json \<Rightarrow> string \<Rightarrow> Message" where
  "replayMessage rec payload replayID = \<lparr>m_Topic = or_Topic rec, m_Key = or_PartitionKey rec, m_Value = payload,
     m_Headers = AList.update ''replay_id'' replayID (AList.update ''replay'' ''true'' (withEventHeaders rec))\<rparr>"

fun replayLoop :: "broker \<Rightarrow> ReplayRequest \<Rightarrow> string \<Rightarrow> time \<Rightarrow> nat \<Rightarrow> outbox_record list \<Rightarrow> ReplayResult \<Rightarrow> ReplayResult kcomp" where
  "replayLoop brk req replayID replayedAt i [] result = ret result"
| "replayLoop brk req replayID replayedAt i (rec # records) result =
     (let result = result\<lparr>rr_EventIDs := rr_EventIDs result @ [or_ID rec]\<rparr>;
          continue = replayLoop brk req replayID replayedAt (Suc i) records
      in if rq_DryRun req then continue result
         else case markReplayed (or_Payload rec) \<lparr>rm_IsReplay = True, rm_ReplayID = replayID,
                rm_ReplayedAt = replayedAt, rm_ReplayedBy = rq_RequestedBy req, rm_OriginalSeq = int i\<rparr> of
           None \<Rightarrow> continue (result\<lparr>rr_Failed := rr_Failed result + 1\<rparr>)
         | Some payload \<Rightarrow>
             andThen (attempt (Publish brk (replayMessage rec payload replayID))) (\<lambda>r.
               case r of
                 Inl e \<Rightarrow> continue (result\<lparr>rr_Failed := rr_Failed result + 1\<rparr>)
               | Inr _ \<Rightarrow> continue (result\<lparr>rr_Published := rr_Published result + 1\<rparr>)))"

definition Replay :: "env \<Rightarrow> broker \<Rightarrow> ReplayRequest \<Rightarrow> ReplayResult kcomp" where
  "Replay env brk req =
     (case ValidateReplay req of
        Some e \<Rightarrow> throw e
      | None \<Rightarrow>
          (let limit = (if rq_Limit req = 0 then 1000 else rq_Limit req) in
           andThen (onDB (ListForReplay env (rq_TransactionID req) (rq_From req) (rq_To req) limit)) (\<lambda>records.
           andThen (onDB (newUUID env)) (\<lambda>replayID.
           andThen (onDB (goNow env)) (\<lambda>replayedAt.
           replayLoop brk req replayID replayedAt 0 records
             \<lparr>rr_ReplayID = replayID, rr_Matched = int (length records), rr_Published = 0, rr_Failed = 0,
              rr_DryRun = rq_DryRun req, rr_EventIDs = []\<rparr>)))))"

end
