(* ===== verification/Publisher_Facts.thy ===== *)
theory Publisher_Facts
  imports Publisher "HOL-Library.Sublist"
begin

text \<open>
  What the publisher and the replayer do to the database and to the broker's log, whatever
  fails: they touch no table but \<open>outbox_events\<close>, never change what an event says, never
  take back a publication, only append to the log, and mark an event as published only
  after the log holds it.
\<close>

named_theorems frame_rules \<open>calls that stay in the frame of the publisher\<close>

subsection \<open>How an outbox row may change\<close>

definition event_identity ::
  "outbox_row \<Rightarrow> string \<times> string \<times> string \<times> string \<times> string \<times> json \<times> (string \<times> string) list \<times> time" where
  "event_identity r = (o_id r, o_topic r, o_event_type r, o_aggregate_id r, o_partition_key r, o_payload r,
     o_headers r, o_created_at r)"

definition stamped :: "outbox_row \<Rightarrow> bool" where
  "stamped r \<longleftrightarrow> (o_status r = StatusPublished) = (o_published_at r \<noteq> None)"

definition evolves :: "outbox_row \<Rightarrow> outbox_row \<Rightarrow> bool" where
  "evolves r r' \<longleftrightarrow> event_identity r' = event_identity r \<and>
     (stamped r \<longrightarrow> stamped r' \<and> (o_status r = StatusPublished \<longrightarrow> r' = r))"

lemma evolves_refl [simp]: "evolves r r"
  by (simp add: evolves_def)

lemma evolves_trans: "evolves a b \<Longrightarrow> evolves b c \<Longrightarrow> evolves a c"
  by (auto simp: evolves_def)

definition outbox_evolves :: "database \<Rightarrow> database \<Rightarrow> bool" where
  "outbox_evolves d d' \<longleftrightarrow>
     (distinct (map o_id (outbox_events d)) \<longrightarrow> list_all2 evolves (outbox_events d) (outbox_events d'))"

lemma evolved_ids: "list_all2 evolves rs rs' \<Longrightarrow> map event_identity rs' = map event_identity rs \<and> map o_id rs' = map o_id rs"
  by (induction rule: list_all2_induct) (auto simp: evolves_def event_identity_def)

lemma outbox_evolves_refl [simp]: "outbox_evolves d d"
  by (simp add: outbox_evolves_def list_all2_refl)

lemma outbox_evolves_trans: "outbox_evolves a b \<Longrightarrow> outbox_evolves b c \<Longrightarrow> outbox_evolves a c"
  unfolding outbox_evolves_def
proof
  assume ab: "distinct (map o_id (outbox_events a)) \<longrightarrow> list_all2 evolves (outbox_events a) (outbox_events b)"
    and bc: "distinct (map o_id (outbox_events b)) \<longrightarrow> list_all2 evolves (outbox_events b) (outbox_events c)"
    and "distinct (map o_id (outbox_events a))"
  then have 1: "list_all2 evolves (outbox_events a) (outbox_events b)" and 2: "distinct (map o_id (outbox_events b))"
    using evolved_ids by auto
  with bc have 3: "list_all2 evolves (outbox_events b) (outbox_events c)" by blast
  show "list_all2 evolves (outbox_events a) (outbox_events c)"
    using list_all2_trans[OF _ 1 3] evolves_trans by blast
qed

definition other_tables :: "database \<Rightarrow> database \<Rightarrow> bool" where
  "other_tables d d' \<longleftrightarrow> accounts d' = accounts d \<and> balances d' = balances d \<and>
     ledger_transactions d' = ledger_transactions d \<and> ledger_entries d' = ledger_entries d \<and>
     reversals d' = reversals d \<and> idempotency_records d' = idempotency_records d \<and>
     webhook_deliveries d' = webhook_deliveries d"

lemma other_tables_refl [simp]: "other_tables d d"
  by (simp add: other_tables_def)

lemma other_tables_trans: "other_tables a b \<Longrightarrow> other_tables b c \<Longrightarrow> other_tables a c"
  by (simp add: other_tables_def)

lemma other_tables_update [simp]: "other_tables d (d\<lparr>outbox_events := x\<rparr>)"
  by (simp add: other_tables_def)

definition pub_frame :: "world \<times> Message list \<Rightarrow> world \<times> Message list \<Rightarrow> bool" where
  "pub_frame s s' \<longleftrightarrow> other_tables (db (fst s)) (db (fst s')) \<and> outbox_evolves (db (fst s)) (db (fst s')) \<and>
     prefix (snd s) (snd s')"

interpretation frame: step_rel pub_frame
  by unfold_locales (auto simp: pub_frame_def intro: other_tables_trans outbox_evolves_trans prefix_order.trans)

lemmas frame_basic [frame_rules] = frame.stays_ret frame.stays_throw frame.stays_mapErr frame.stays_andThen

lemma fr_attempt [frame_rules]: "stays pub_frame m \<Longrightarrow> stays pub_frame (attempt m)"
  by (auto simp: stays_def attempt_def split: prod.splits res.splits) (metis snd_conv)+

text \<open>A call on the database keeps the frame when its statements do.\<close>

lemma onDB_andThen: "onDB (andThen m f) = andThen (onDB m) (\<lambda>x. onDB (f x))"
  by (rule ext) (auto simp: onDB_def andThen_def split: prod.splits res.splits)

lemma onDB_mapErr: "onDB (mapErr g m) = mapErr g (onDB m)"
  by (rule ext) (auto simp: onDB_def mapErr_def split: prod.splits res.splits)

lemma onDB_ret: "onDB (ret x) = ret x"
  by (rule ext) (simp add: onDB_def ret_def)

text \<open>What a pool statement has done to the database, whatever its caller sees.\<close>

lemma onDB_pool_effect:
  assumes "onDB (mapErr g (pool_sql env stmt)) s = (r, s')"
  obtains "db (fst s') = db (fst s)" "snd s' = snd s"
  | x d where "stmt (pg_clock env (tick (fst s))) (db (fst s)) = Inr (x, d)" "db (fst s') = d" "snd s' = snd s"
proof -
  obtain y w' where y: "pool_sql env stmt (fst s) = (y, w')" by (meson surj_pair)
  then have "s' = (w', snd s)" using assms by (cases y) (auto simp: onDB_def mapErr_def)
  with pool_sql_effect[OF y] that show ?thesis by auto
qed

lemma fr_pool_sql:
  assumes "\<And>now d x d'. stmt now d = Inr (x, d') \<Longrightarrow> other_tables d d' \<and> outbox_evolves d d'"
  shows "stays pub_frame (onDB (pool_sql env stmt))"
  using assms by (fastforce simp: stays_def onDB_def pub_frame_def pool_sql_def sql_def split: commit_fault.splits option.splits sum.splits prod.splits)

lemma fr_same_db:
  assumes "\<And>w r w'. m w = (r, w') \<Longrightarrow> db w' = db w"
  shows "stays pub_frame (onDB m)"
  using assms by (force simp: stays_def onDB_def pub_frame_def split: prod.splits)

lemma fr_fpEval [frame_rules]: "stays pub_frame (onDB (fpEval ov n))"
  by (rule fr_same_db) (rule fpEval_db)

lemma fr_clock [frame_rules]:
  "stays pub_frame (onDB (goNow env))" "stays pub_frame (onDB (newUUID env))"
  "stays pub_frame (onDB (jitter env))" "stays pub_frame (onDB (ctxErr env))"
  by (rule fr_same_db, force simp: goNow_def newUUID_def jitter_def ctxErr_def split: option.splits)+

lemma fr_Publish [frame_rules]: "stays pub_frame (Publish brk msg)"
  by (auto simp: stays_def Publish_def pub_frame_def Let_def split: ack.splits)

lemma list_all2_map_self: "(\<And>x. x \<in> set xs \<Longrightarrow> P x (f x)) \<Longrightarrow> list_all2 P xs (map f xs)"
  by (induction xs) auto

lemma map_update_evolves:
  assumes "distinct (map o_id rs)" and "find (\<lambda>r. o_id r = u) rs = Some r" and "evolves r (f r)"
  shows "list_all2 evolves rs (map (\<lambda>x. if o_id x = u then f x else x) rs)"
proof -
  have "x = r" if "x \<in> set rs" "o_id x = u" for x
    using assms(1,2) that find_Some_mem[OF assms(2)] by (metis distinct_map inj_onD)
  with assms(3) show ?thesis by (intro list_all2_map_self) auto
qed

lemma evolves_published:
  assumes "o_status r \<noteq> StatusPublished"
  shows "evolves r (published_row now r)"
  using assms by (simp add: evolves_def event_identity_def published_row_def stamped_def)

lemma evolves_failed:
  assumes "\<forall>c \<in> set (outbox_check (failed_row cause delay n now r)). fst c"
  shows "evolves r (failed_row cause delay n now r)"
  using assms
  by (auto simp: evolves_def event_identity_def failed_row_def stamped_def outbox_check_def outbox_status_defs split: if_splits)

lemma mark_published_frame:
  "mark_published_stmt env i now d = Inr (x, d') \<Longrightarrow> other_tables d d' \<and> outbox_evolves d d'"
  by (auto simp: mark_published_stmt_def checked_Inr outbox_evolves_def outbox_of_def
      split: option.splits if_splits intro!: map_update_evolves evolves_published list.rel_refl_strong)

lemma mark_failed_frame:
  "mark_failed_stmt env i cause delay n now d = Inr (x, d') \<Longrightarrow> other_tables d d' \<and> outbox_evolves d d'"
  by (auto simp: mark_failed_stmt_def checked_Inr outbox_evolves_def outbox_of_def Let_def
      split: option.splits if_splits intro!: map_update_evolves evolves_failed list.rel_refl_strong)

lemma claim_frame:
  "claim_outbox_stmt wid limit ttl locked now d = Inr (x, d') \<Longrightarrow> other_tables d d' \<and> outbox_evolves d d'"
proof -
  assume run: "claim_outbox_stmt wid limit ttl locked now d = Inr (x, d')"
  let ?ids = "map o_id (take (nat limit) (filter (\<lambda>r. \<not> locked (o_id r))
      (sort_key (\<lambda>r. (o_created_at r, o_id r)) (filter (claimable ttl now) (outbox_events d)))))"
  let ?f = "\<lambda>r. if o_id r \<in> set ?ids then r\<lparr>o_status := StatusPublishing, o_claimed_by := Some wid,
      o_claimed_at := Some now\<rparr> else r"
  have d': "d' = d\<lparr>outbox_events := map ?f (outbox_events d)\<rparr>"
    using run by (auto simp: claim_outbox_stmt_def Let_def split: if_splits)
  have "list_all2 evolves (outbox_events d) (map ?f (outbox_events d))" if dist: "distinct (map o_id (outbox_events d))"
  proof -
    have "evolves r (?f r)" if mem: "r \<in> set (outbox_events d)" for r
    proof (cases "o_id r \<in> set ?ids")
      case True
      then obtain q where q: "q \<in> set (outbox_events d)" "claimable ttl now q" "o_id q = o_id r"
        by (auto dest!: in_set_takeD)
      then have "q = r" using dist mem by (metis distinct_map inj_onD)
      with q(2) have "o_status r = StatusPending \<or> o_status r = StatusPublishing" by (simp add: claimable_def)
      then show ?thesis by (auto simp: evolves_def event_identity_def stamped_def outbox_status_defs)
    qed (simp del: map_append)
    then show ?thesis by (rule list_all2_map_self)
  qed
  then show ?thesis by (simp add: d' outbox_evolves_def)
qed

lemma fr_repo [frame_rules]:
  "stays pub_frame (onDB (MarkPublished env i))" "stays pub_frame (onDB (MarkFailed env i cause delay n))"
  "stays pub_frame (onDB (ClaimOutbox env wid limit ttl locked))" "stays pub_frame (onDB (Backlog env))"
  "stays pub_frame (onDB (ListForReplay env tx f t limit))"
proof -
  show "stays pub_frame (onDB (MarkPublished env i))"
    unfolding MarkPublished_def onDB_mapErr by (intro frame_basic fr_pool_sql) (rule mark_published_frame)
  show "stays pub_frame (onDB (MarkFailed env i cause delay n))"
    unfolding MarkFailed_def onDB_mapErr onDB_andThen
    by (auto simp: onDB_ret split: prod.splits intro!: frame_basic fr_pool_sql dest: mark_failed_frame)
  show "stays pub_frame (onDB (ClaimOutbox env wid limit ttl locked))"
    unfolding ClaimOutbox_def onDB_mapErr by (intro frame_basic fr_pool_sql) (rule claim_frame)
  show "stays pub_frame (onDB (Backlog env))" "stays pub_frame (onDB (ListForReplay env tx f t limit))"
    unfolding Backlog_def ListForReplay_def onDB_mapErr
    by (intro frame_basic fr_pool_sql; auto simp: backlog_stmt_def list_for_replay_stmt_def split: if_splits)+
qed

lemma fr_fail [frame_rules]: "stays pub_frame (fail env cfg brk rec e)"
  unfolding fail_def publishToDLQ_def Let_def
  by (auto intro!: frame_rules split: sum.splits prod.splits)

lemma fr_publishOne [frame_rules]: "stays pub_frame (publishOne env cfg brk ctx rec)"
  unfolding publishOne_def Let_def by (auto intro!: frame_rules split: sum.splits)

lemma fr_publishLoop [frame_rules]: "stays pub_frame (publishLoop env cfg brk ctx batch n)"
  by (induction batch arbitrary: n) (auto intro!: frame_rules split: sum.splits)

lemma fr_RunOnce [frame_rules]: "stays pub_frame (RunOnce env cfg brk ctx locked)"
  unfolding RunOnce_def by (auto intro!: frame_rules split: sum.splits)

lemma fr_replayLoop [frame_rules]: "stays pub_frame (replayLoop brk req i t n recs res)"
  by (induction recs arbitrary: n res) (auto intro!: frame_rules simp: Let_def split: sum.splits option.splits)

lemma fr_Replay [frame_rules]: "stays pub_frame (Replay env brk req)"
  unfolding Replay_def Let_def by (auto intro!: frame_rules split: option.splits)

subsection \<open>Published means written\<close>

text \<open>
  The state of outbox and broker is sound when identifiers are unique and canonical and every
  row marked as published is in the log.
\<close>

definition sound :: "(string \<Rightarrow> string option) \<Rightarrow> world \<times> Message list \<Rightarrow> bool" where
  "sound uin s \<longleftrightarrow> distinct (map o_id (outbox_events (db (fst s)))) \<and>
     (\<forall>r \<in> set (outbox_events (db (fst s))). uin (o_id r) = Some (o_id r)) \<and>
     (\<forall>r \<in> set (outbox_events (db (fst s))). o_status r = StatusPublished \<longrightarrow>
        eventMessage (outbox_record_of r) \<in> set (snd s))"

lemma eventMessage_identity:
  "event_identity r = event_identity r' \<Longrightarrow> eventMessage (outbox_record_of r) = eventMessage (outbox_record_of r')"
  by (simp add: event_identity_def eventMessage_def withEventHeaders_def outbox_record_of_def)

text \<open>A record that agrees with the row of its identifier on everything a message says.\<close>

definition reflects :: "outbox_record \<Rightarrow> database \<Rightarrow> bool" where
  "reflects rec d \<longleftrightarrow> (\<exists>r \<in> set (outbox_events d). o_id r = or_ID rec \<and> eventMessage (outbox_record_of r) = eventMessage rec)"

lemma evolved_mem:
  assumes "list_all2 evolves rs rs'" and "r \<in> set rs"
  shows "\<exists>r' \<in> set rs'. evolves r r'"
  using assms by (induction rule: list_all2_induct) auto

lemma evolved_mem2:
  assumes "list_all2 evolves rs rs'" and "r' \<in> set rs'"
  shows "\<exists>r \<in> set rs. evolves r r'"
  using assms by (induction rule: list_all2_induct) auto

lemma reflects_kept:
  assumes "reflects rec (db (fst s))" and "distinct (map o_id (outbox_events (db (fst s))))" and "pub_frame s s'"
  shows "reflects rec (db (fst s'))"
proof -
  have ev: "list_all2 evolves (outbox_events (db (fst s))) (outbox_events (db (fst s')))"
    using assms(2,3) by (simp add: pub_frame_def outbox_evolves_def)
  from assms(1) obtain r where r: "r \<in> set (outbox_events (db (fst s)))" "o_id r = or_ID rec"
    "eventMessage (outbox_record_of r) = eventMessage rec" by (auto simp: reflects_def)
  from evolved_mem[OF ev r(1)] obtain r' where r': "r' \<in> set (outbox_events (db (fst s')))" "evolves r r'" by blast
  then have "event_identity r' = event_identity r" by (simp add: evolves_def)
  with eventMessage_identity[OF this] r r'(1) show ?thesis by (auto simp: reflects_def event_identity_def)
qed

text \<open>A step within the frame keeps soundness when every row it marks as published is in the log.\<close>

lemma sound_kept:
  assumes "sound uin s" and fr: "pub_frame s s'"
    and new: "\<And>r r'. r \<in> set (outbox_events (db (fst s))) \<Longrightarrow> r' \<in> set (outbox_events (db (fst s'))) \<Longrightarrow>
      evolves r r' \<Longrightarrow> o_status r' = StatusPublished \<Longrightarrow> o_status r \<noteq> StatusPublished \<Longrightarrow>
      eventMessage (outbox_record_of r') \<in> set (snd s')"
  shows "sound uin s'"
proof -
  have dist: "distinct (map o_id (outbox_events (db (fst s))))" using assms(1) by (simp add: sound_def)
  then have ev: "list_all2 evolves (outbox_events (db (fst s))) (outbox_events (db (fst s')))"
    using fr by (simp add: pub_frame_def outbox_evolves_def)
  have pre: "set (snd s) \<subseteq> set (snd s')" using fr by (simp add: pub_frame_def set_mono_prefix)
  have "uin (o_id r') = Some (o_id r') \<and> (o_status r' = StatusPublished \<longrightarrow> eventMessage (outbox_record_of r') \<in> set (snd s'))"
    if mem: "r' \<in> set (outbox_events (db (fst s')))" for r'
  proof -
    from evolved_mem2[OF ev mem] obtain r where r: "r \<in> set (outbox_events (db (fst s)))" "evolves r r'" by blast
    have i: "event_identity r' = event_identity r" using r(2) by (simp add: evolves_def)
    then have "o_id r' = o_id r" by (simp add: event_identity_def)
    with assms(1) r new[OF r(1) mem r(2)] eventMessage_identity[OF i] pre show ?thesis
      by (cases "o_status r = StatusPublished") (auto simp: sound_def)
  qed
  moreover have "distinct (map o_id (outbox_events (db (fst s'))))" using evolved_ids[OF ev] dist by simp
  ultimately show ?thesis by (simp add: sound_def)
qed

definition sound_step :: "(string \<Rightarrow> string option) \<Rightarrow> world \<times> Message list \<Rightarrow> world \<times> Message list \<Rightarrow> bool" where
  "sound_step uin s s' \<longleftrightarrow> pub_frame s s' \<and> (sound uin s \<longrightarrow> sound uin s')"

interpretation sstep: step_rel "sound_step uin" for uin
  by unfold_locales (auto simp: sound_step_def intro: frame.R_refl frame.R_trans)

lemmas sound_basic = sstep.stays_ret sstep.stays_throw sstep.stays_mapErr sstep.stays_andThen

lemma ss_attempt: "stays (sound_step uin) m \<Longrightarrow> stays (sound_step uin) (attempt m)"
  by (auto simp: stays_def attempt_def split: prod.splits res.splits) (metis snd_conv)+

text \<open>Every step but \<open>MarkPublished\<close> marks nothing as published.\<close>

lemma ss_no_mark:
  assumes fr: "stays pub_frame m"
    and same: "\<And>s r s' x'. m s = (r, s') \<Longrightarrow> distinct (map o_id (outbox_events (db (fst s)))) \<Longrightarrow>
      x' \<in> set (outbox_events (db (fst s'))) \<Longrightarrow> o_status x' = StatusPublished \<Longrightarrow> x' \<in> set (outbox_events (db (fst s)))"
  shows "stays (sound_step uin) m"
  unfolding stays_def sound_step_def
proof (intro allI conjI impI)
  fix s
  show frs: "pub_frame s (snd (m s))" using fr unfolding stays_def by blast
  have pre: "set (snd s) \<subseteq> set (snd (snd (m s)))" using frs by (simp add: pub_frame_def set_mono_prefix)
  assume so: "sound uin s"
  show "sound uin (snd (m s))"
  proof (rule sound_kept[OF so frs])
    fix r r' assume "r' \<in> set (outbox_events (db (fst (snd (m s)))))" "o_status r' = StatusPublished"
    with same[of s "fst (m s)" "snd (m s)" r'] so have "r' \<in> set (outbox_events (db (fst s)))" by (simp add: sound_def)
    with so \<open>o_status r' = StatusPublished\<close> pre show "eventMessage (outbox_record_of r') \<in> set (snd (snd (m s)))"
      by (auto simp: sound_def)
  qed
qed

lemma ss_quiet:
  assumes "stays pub_frame m" and "\<And>s r s'. m s = (r, s') \<Longrightarrow> db (fst s') = db (fst s)"
  shows "stays (sound_step uin) m"
  by (rule ss_no_mark[OF assms(1)]) (simp add: assms(2))

lemma ss_steps:
  "stays (sound_step uin) (onDB (fpEval ov n))" "stays (sound_step uin) (onDB (goNow env))"
  "stays (sound_step uin) (onDB (jitter env))" "stays (sound_step uin) (onDB (ctxErr env))"
  "stays (sound_step uin) (Publish brk msg)"
  by (rule ss_quiet; (rule frame_rules)?;
      force simp: onDB_def Publish_def goNow_def jitter_def ctxErr_def Let_def dest: fpEval_db split: prod.splits ack.splits option.splits)+

lemma ss_pool_sql:
  assumes "\<And>now d x d'. stmt now d = Inr (x, d') \<Longrightarrow> other_tables d d' \<and> outbox_evolves d d'"
    and "\<And>now d x d' r. stmt now d = Inr (x, d') \<Longrightarrow> r \<in> set (outbox_events d') \<Longrightarrow> o_status r = StatusPublished \<Longrightarrow>
      r \<in> set (outbox_events d)"
  shows "stays (sound_step uin) (onDB (pool_sql env stmt))"
proof (rule ss_no_mark[OF fr_pool_sql])
  fix s :: "world \<times> Message list" and r s' x'
  assume "onDB (pool_sql env stmt) s = (r, s')" "x' \<in> set (outbox_events (db (fst s')))" "o_status x' = StatusPublished"
  with assms(2) show "x' \<in> set (outbox_events (db (fst s)))"
    by (auto simp: onDB_def pool_sql_def sql_def split: commit_fault.splits prod.splits option.splits sum.splits)
qed (rule assms(1))

lemma mark_failed_no_mark:
  "mark_failed_stmt env i cause delay n now d = Inr (x, d') \<Longrightarrow> r \<in> set (outbox_events d') \<Longrightarrow>
     o_status r = StatusPublished \<Longrightarrow> r \<in> set (outbox_events d)"
  by (auto simp: mark_failed_stmt_def checked_Inr Let_def failed_row_def outbox_status_defs
      split: option.splits if_splits)

lemma claim_no_mark:
  "claim_outbox_stmt wid limit ttl locked now d = Inr (x, d') \<Longrightarrow> r \<in> set (outbox_events d') \<Longrightarrow>
     o_status r = StatusPublished \<Longrightarrow> r \<in> set (outbox_events d)"
  by (auto simp: claim_outbox_stmt_def Let_def outbox_status_defs split: if_splits)

lemma ss_MarkFailed: "stays (sound_step uin) (onDB (MarkFailed env i cause delay n))"
  unfolding MarkFailed_def onDB_mapErr onDB_andThen
  by (auto simp: onDB_ret split: prod.splits intro!: sound_basic ss_pool_sql dest: mark_failed_frame mark_failed_no_mark)

lemma ss_ClaimOutbox: "stays (sound_step uin) (onDB (ClaimOutbox env wid limit ttl locked))"
  unfolding ClaimOutbox_def onDB_mapErr
  by (intro sound_basic ss_pool_sql) (blast dest: claim_frame claim_no_mark)+

lemma ss_Backlog: "stays (sound_step uin) (onDB (Backlog env))"
  unfolding Backlog_def onDB_mapErr by (intro sound_basic ss_pool_sql) (auto simp: backlog_stmt_def)

lemma ss_fail: "stays (sound_step uin) (fail env cfg brk rec e)"
  unfolding fail_def publishToDLQ_def Let_def
  by (auto intro!: sound_basic ss_attempt ss_steps ss_MarkFailed split: sum.splits prod.splits)

text \<open>\<open>MarkPublished\<close> keeps soundness when the log already holds the event.\<close>

lemma MarkPublished_sound:
  assumes so: "sound uin s" and uin: "uuid_in env = uin" and rf: "reflects rec (db (fst s))"
    and logged: "eventMessage rec \<in> set (snd s)" and run: "onDB (MarkPublished env (or_ID rec)) s = (r, s')"
  shows "sound uin s'"
proof -
  have fr: "pub_frame s s'" using staysD[OF fr_repo(1) run] .
  from rf obtain q where q: "q \<in> set (outbox_events (db (fst s)))" "o_id q = or_ID rec"
    "eventMessage (outbox_record_of q) = eventMessage rec" by (auto simp: reflects_def)
  have can: "uuid_in env (or_ID rec) = Some (or_ID rec)" using so q(1,2) uin by (auto simp: sound_def)
  show ?thesis
  proof (rule sound_kept[OF so fr])
    fix x x' assume x: "x \<in> set (outbox_events (db (fst s)))" and x': "x' \<in> set (outbox_events (db (fst s')))"
      and ev: "evolves x x'" and pub: "o_status x' = StatusPublished" "o_status x \<noteq> StatusPublished"
    have id: "o_id x' = o_id x" using ev by (simp add: evolves_def event_identity_def)
    have "o_id x = or_ID rec"
    proof (rule ccontr)
      assume ne: "o_id x \<noteq> or_ID rec"
      have "x' \<in> set (outbox_events (db (fst s)))"
        using run[unfolded MarkPublished_def]
        by (rule onDB_pool_effect)
          (use x' ne id can in \<open>auto simp: mark_published_stmt_def checked_def published_row_def split: option.splits if_splits\<close>)
      with x id so have "x' = x" by (metis distinct_map inj_onD sound_def)
      with pub show False by simp
    qed
    then have "x = q" using x q(1,2) so by (metis distinct_map inj_onD sound_def)
    with ev q(3) eventMessage_identity have "eventMessage (outbox_record_of x') = eventMessage rec"
      by (metis evolves_def)
    moreover have "set (snd s) \<subseteq> set (snd s')" using fr by (simp add: pub_frame_def set_mono_prefix)
    ultimately show "eventMessage (outbox_record_of x') \<in> set (snd s')" using logged by auto
  qed
qed

lemma andThen_attempt:
  "andThen (attempt m) f s =
     (case m s of (Ret x, s') \<Rightarrow> f (Inr x) s' | (Err e, s') \<Rightarrow> f (Inl e) s' | (Panic p, s') \<Rightarrow> (Panic p, s'))"
  by (auto simp: andThen_def attempt_def split: prod.splits res.splits)

lemma publishOne_sound:
  assumes uin: "uuid_in env = uin" and so: "sound uin s" and rf: "reflects rec (db (fst s))"
    and run: "publishOne env cfg brk ctx rec s = (r, s')"
  shows "sound uin s'"
proof -
  define cx where "cx = (let ctx1 = WithTransactionID ctx (or_AggregateID rec);
      cid = (case map_of (or_Headers rec) ''correlation_id'' of None \<Rightarrow> [] | Some c \<Rightarrow> c)
      in if cid \<noteq> [] then WithCorrelationID ctx1 cid else ctx1)"
  note run' = run[unfolded publishOne_def Let_def, folded cx_def[unfolded Let_def], unfolded andThen_attempt]
  have failing: "sound uin s2" if "sound uin s1" "andThen (fail env cfg brk rec e) (\<lambda>_. ret False) s1 = (r, s2)" for s1 s2 e
    using staysD[OF sstep.stays_andThen[OF ss_fail sstep.stays_ret] that(2), of uin] that(1) by (simp add: sound_step_def)
  obtain ra s1 where a: "onDB (fpEval (cx_failpoints cx) BeforeKafkaPublish) s = (ra, s1)" by (meson surj_pair)
  obtain rp s2 where p: "Publish brk (eventMessage rec) s1 = (rp, s2)" by (meson surj_pair)
  obtain rb s3 where b: "onDB (fpEval (cx_failpoints cx) AfterKafkaPublish) s2 = (rb, s3)" by (meson surj_pair)
  obtain rm s4 where m: "onDB (MarkPublished env (or_ID rec)) s3 = (rm, s4)" by (meson surj_pair)
  have so1: "sound uin s1" using staysD[OF ss_steps(1) a, of uin] so by (simp add: sound_step_def)
  have so2: "sound uin s2" using staysD[OF ss_steps(5) p, of uin] so1 by (simp add: sound_step_def)
  have so3: "sound uin s3" using staysD[OF ss_steps(1) b, of uin] so2 by (simp add: sound_step_def)
  have fr: "pub_frame s s3"
    using staysD[OF fr_fpEval a] staysD[OF fr_Publish p] staysD[OF fr_fpEval b] frame.R_trans by blast
  have rf3: "reflects rec (db (fst s3))" using reflects_kept[OF rf _ fr] so by (simp add: sound_def)
  have so4: "sound uin s4" if "rp = Ret ()"
  proof (rule MarkPublished_sound[OF so3 uin rf3 _ m])
    have "eventMessage rec \<in> set (snd s2)" using p that by (auto simp: Publish_def Let_def split: ack.splits)
    then show "eventMessage rec \<in> set (snd s3)"
      using staysD[OF fr_fpEval b] set_mono_prefix by (force simp: pub_frame_def)
  qed
  show ?thesis
    using run' a p b m so1 so2 so3 so4 failing[OF so1] failing[OF so2]
    by (auto simp: ret_def split: res.splits)
qed

lemma publishLoop_sound:
  assumes "uuid_in env = uin" and "sound uin s" and "\<forall>rec \<in> set batch. reflects rec (db (fst s))"
    and "publishLoop env cfg brk ctx batch n s = (r, s')"
  shows "sound uin s'"
  using assms(2-)
proof (induction batch arbitrary: s n)
  case Nil
  then show ?case by (simp add: ret_def)
next
  case (Cons rec batch)
  obtain rc s1 where c: "onDB (ctxErr env) s = (rc, s1)" by (meson surj_pair)
  obtain rp s2 where p: "publishOne env cfg brk ctx rec s1 = (rp, s2)" by (meson surj_pair)
  have so1: "sound uin s1" using staysD[OF ss_steps(4) c, of uin] Cons.prems(1) by (simp add: sound_step_def)
  have dist: "distinct (map o_id (outbox_events (db (fst s))))" using Cons.prems(1) by (simp add: sound_def)
  have rf: "reflects x (db (fst s1))" if "x \<in> set (rec # batch)" for x
    using reflects_kept[OF _ dist staysD[OF fr_clock(4) c]] Cons.prems(2) that by blast
  have so2: "sound uin s2" using publishOne_sound[OF assms(1) so1 _ p] rf by simp
  have rf2: "\<forall>x \<in> set batch. reflects x (db (fst s2))"
    using reflects_kept[OF _ _ staysD[OF fr_publishOne p]] rf so1 by (simp add: sound_def)
  show ?case
    using Cons.prems(3) c p so1 so2 Cons.IH[OF so2 rf2]
    by (auto simp: attempt_def andThen_def ret_def split: res.splits)
qed

lemma claimed_reflect:
  assumes "claim_outbox_stmt wid limit ttl locked now d = Inr (batch, d')" and "rec \<in> set batch"
  shows "reflects rec d'"
proof -
  from assms obtain rows P where "d' = d\<lparr>outbox_events := rows\<rparr>" and "batch = map outbox_record_of (filter P rows)"
    by (simp add: claim_outbox_stmt_def Let_def del: map_append split: if_splits) blast
  with assms(2) obtain r where "r \<in> set (outbox_events d')" "rec = outbox_record_of r" by auto
  moreover from this have "o_id r = or_ID rec" by (simp add: outbox_record_of_def)
  ultimately show ?thesis by (auto simp: reflects_def)
qed

lemma RunOnce_sound:
  assumes uin: "uuid_in env = uin" and so: "sound uin s" and run: "RunOnce env cfg brk ctx locked s = (r, s')"
  shows "sound uin s'"
proof -
  obtain rb s1 where b: "onDB (Backlog env) s = (rb, s1)" by (meson surj_pair)
  obtain rc s2 where c: "onDB (ClaimOutbox env (OutboxWorkerID cfg) (OutboxBatchSize cfg) (OutboxClaimTTL cfg) locked) s1 = (rc, s2)"
    by (meson surj_pair)
  have so1: "sound uin s1" using staysD[OF ss_Backlog b, of uin] so by (simp add: sound_step_def)
  have so2: "sound uin s2" using staysD[OF ss_ClaimOutbox c, of uin] so1 by (simp add: sound_step_def)
  have rf: "\<forall>rec \<in> set batch. reflects rec (db (fst s2))" if "rc = Ret batch" for batch
    using c that
    by (auto simp: onDB_def ClaimOutbox_def mapErr_def pool_sql_def sql_def dest: claimed_reflect
        split: commit_fault.splits prod.splits res.splits option.splits sum.splits)
  show ?thesis
  proof (cases rc)
    case (Ret batch)
    then show ?thesis
      using run b c so1 so2 publishLoop_sound[OF uin so2 rf[OF Ret]]
      by (auto simp: RunOnce_def andThen_attempt split: res.splits)
  qed (use run b c so1 so2 in \<open>auto simp: RunOnce_def andThen_attempt ret_def split: res.splits\<close>)
qed

subsection \<open>Replay reads only\<close>

definition same_db :: "world \<times> Message list \<Rightarrow> world \<times> Message list \<Rightarrow> bool" where
  "same_db s s' \<longleftrightarrow> db (fst s') = db (fst s)"

interpretation sdb: step_rel same_db
  by unfold_locales (simp_all add: same_db_def)

lemmas sdb_basic = sdb.stays_ret sdb.stays_throw sdb.stays_mapErr sdb.stays_andThen

lemma sdb_attempt: "stays same_db m \<Longrightarrow> stays same_db (attempt m)"
  by (auto simp: stays_def attempt_def split: prod.splits res.splits) (metis snd_conv)+

lemma sdb_Publish: "stays same_db (Publish brk msg)"
  by (auto simp: stays_def same_db_def Publish_def Let_def split: ack.splits)

lemma sdb_replayLoop: "stays same_db (replayLoop brk req i t n recs res)"
  by (induction recs arbitrary: n res)
    (auto simp: Let_def intro!: sdb_basic sdb_attempt sdb_Publish split: option.splits sum.splits)

lemma sdb_onDB:
  assumes "\<And>w r w'. m w = (r, w') \<Longrightarrow> db w' = db w"
  shows "stays same_db (onDB m)"
  using assms by (force simp: stays_def same_db_def onDB_def split: prod.splits)

lemma list_for_replay_same: "pool_sql env (list_for_replay_stmt tx f t limit) w = (r, w') \<Longrightarrow> db w' = db w"
  by (drule pool_sql_effect) (auto simp: list_for_replay_stmt_def split: if_splits)

lemma sdb_Replay: "stays same_db (Replay env brk req)"
proof -
  have l: "stays same_db (onDB (ListForReplay env tx f t limit))" for tx f t limit
    unfolding ListForReplay_def onDB_mapErr
    by (intro sdb_basic sdb_onDB) (auto dest: list_for_replay_same)
  have u: "stays same_db (onDB (newUUID env))" "stays same_db (onDB (goNow env))"
    by (rule sdb_onDB, force simp: newUUID_def goNow_def)+
  show ?thesis unfolding Replay_def Let_def
    by (auto intro!: sdb_basic l u sdb_replayLoop split: option.splits)
qed

end
