(* ===== verification/Webhook.thy ===== *)
theory Webhook
  imports Publisher
begin

text \<open>
  \<open>internal/webhook/store.go\<close> and \<open>internal/webhook/worker.go\<close>: the delivery rows and the
  worker. What an endpoint does with a request is a parameter of each call; the requests
  endpoints have answered with a 2xx status are kept in a log. The signature of a payload
  (\<open>sign\<close>: HMAC-SHA256 of its bytes) is a parameter, since payloads are documents here.
\<close>

definition StatusDelivered :: string where "StatusDelivered = ''delivered''"

record Delivery =
  dl_ID :: string
  dl_EventID :: string
  dl_Endpoint :: string
  dl_EventType :: string
  dl_TransactionID :: string
  dl_Payload :: json
  dl_Status :: string
  dl_Attempts :: int
  dl_LastError :: string
  dl_LastStatusCode :: int
  dl_NextAttemptAt :: time
  dl_DeliveredAt :: "time option"
  dl_CreatedAt :: time

subsection \<open>Statements\<close>

definition delivery_of :: "webhook_row \<Rightarrow> Delivery" where
  "delivery_of r = \<lparr>dl_ID = wh_id r, dl_EventID = wh_event_id r, dl_Endpoint = wh_endpoint r,
     dl_EventType = wh_event_type r, dl_TransactionID = wh_transaction_id r, dl_Payload = wh_payload r,
     dl_Status = wh_status r, dl_Attempts = wh_attempts r,
     dl_LastError = (case wh_last_error r of None \<Rightarrow> [] | Some e \<Rightarrow> e),
     dl_LastStatusCode = (case wh_last_status_code r of None \<Rightarrow> 0 | Some c \<Rightarrow> c),
     dl_NextAttemptAt = wh_next_attempt_at r, dl_DeliveredAt = wh_delivered_at r, dl_CreatedAt = wh_created_at r\<rparr>"

definition webhook_of :: "database \<Rightarrow> string \<Rightarrow> webhook_row option" where
  "webhook_of d i = find (\<lambda>r. wh_id r = i) (webhook_deliveries d)"

definition new_webhook_row :: "env \<Rightarrow> string \<Rightarrow> string \<Rightarrow> Delivery \<Rightarrow> time \<Rightarrow> webhook_row" where
  "new_webhook_row env i ev dl now = \<lparr>wh_id = i, wh_event_id = ev, wh_endpoint = dl_Endpoint dl,
     wh_event_type = dl_EventType dl, wh_transaction_id = dl_TransactionID dl, wh_payload = jsonb env (dl_Payload dl),
     wh_status = StatusPending, wh_attempts = 0, wh_last_error = None, wh_last_status_code = None,
     wh_next_attempt_at = now, wh_delivered_at = None, wh_created_at = now, wh_updated_at = now\<rparr>"

definition enqueue_stmt :: "env \<Rightarrow> Delivery \<Rightarrow> time \<Rightarrow> database \<Rightarrow> goerr + nat \<times> database" where
  "enqueue_stmt env dl now d =
     (case (uuid_in env (dl_ID dl), uuid_in env (dl_EventID dl)) of
        (Some i, Some ev) \<Rightarrow>
          if list_ex (\<lambda>r. wh_event_id r = ev \<and> wh_endpoint r = dl_Endpoint dl) (webhook_deliveries d) then Inr (0, d)
          else checked (webhook_check (new_webhook_row env i ev dl now) @
              [(list_all (\<lambda>r. wh_id r \<noteq> i) (webhook_deliveries d), unique_violation ''webhook_deliveries_pkey'')])
            (1, d\<lparr>webhook_deliveries := webhook_deliveries d @ [new_webhook_row env i ev dl now]\<rparr>)
      | _ \<Rightarrow> Inl uuid_syntax)"

definition claim_due_stmt :: "int \<Rightarrow> time \<Rightarrow> database \<Rightarrow> goerr + Delivery list \<times> database" where
  "claim_due_stmt limit now d =
     (if limit < 0 then Inl (PgError ''2201W'' [] ''LIMIT must not be negative'')
      else Inr (map delivery_of (take (nat limit) (sort_key (\<lambda>r. (wh_next_attempt_at r, wh_created_at r))
        (filter (\<lambda>r. wh_status r = StatusPending \<and> wh_next_attempt_at r \<le> now) (webhook_deliveries d)))), d))"

definition delivered_row :: "int \<Rightarrow> time \<Rightarrow> webhook_row \<Rightarrow> webhook_row" where
  "delivered_row code now r = r\<lparr>wh_status := StatusDelivered,
     wh_delivered_at := (case wh_delivered_at r of None \<Rightarrow> Some now | Some t \<Rightarrow> Some t),
     wh_attempts := wh_attempts r + 1, wh_last_status_code := Some code, wh_last_error := None, wh_updated_at := now\<rparr>"

definition mark_delivered_stmt :: "env \<Rightarrow> string \<Rightarrow> int \<Rightarrow> time \<Rightarrow> database \<Rightarrow> goerr + unit \<times> database" where
  "mark_delivered_stmt env i code now d =
     (case uuid_in env i of
        None \<Rightarrow> Inl uuid_syntax
      | Some u \<Rightarrow>
          (case webhook_of d u of
             None \<Rightarrow> Inr ((), d)
           | Some r \<Rightarrow>
               if wh_status r = StatusDelivered then Inr ((), d)
               else checked ((in32 (wh_attempts r + 1), int_out_of_range) # webhook_check (delivered_row code now r))
                 ((), d\<lparr>webhook_deliveries :=
                    map (\<lambda>x. if wh_id x = u then delivered_row code now x else x) (webhook_deliveries d)\<rparr>)))"

definition undelivered_row :: "string \<Rightarrow> int \<Rightarrow> time \<Rightarrow> int \<Rightarrow> time \<Rightarrow> webhook_row \<Rightarrow> webhook_row" where
  "undelivered_row cause code delay maxAttempts now r = r\<lparr>wh_attempts := wh_attempts r + 1,
     wh_last_error := Some cause, wh_last_status_code := Some code,
     wh_status := (if wh_attempts r + 1 \<ge> maxAttempts then StatusDeadLetter else StatusPending),
     wh_next_attempt_at := now + delay, wh_updated_at := now\<rparr>"

definition mark_undelivered_stmt ::
  "env \<Rightarrow> string \<Rightarrow> string \<Rightarrow> int \<Rightarrow> time \<Rightarrow> int \<Rightarrow> time \<Rightarrow> database \<Rightarrow> goerr + (int \<times> string) \<times> database" where
  "mark_undelivered_stmt env i cause code delay maxAttempts now d =
     (case uuid_in env i of
        None \<Rightarrow> Inl uuid_syntax
      | Some u \<Rightarrow>
          (case webhook_of d u of
             None \<Rightarrow> Inl ErrNoRows
           | Some r \<Rightarrow>
               (let f = undelivered_row cause code delay maxAttempts now
                in checked ((in32 (wh_attempts r + 1), int_out_of_range) # webhook_check (f r))
                  ((wh_attempts (f r), wh_status (f r)),
                   d\<lparr>webhook_deliveries := map (\<lambda>x. if wh_id x = u then f x else x) (webhook_deliveries d)\<rparr>))))"

definition get_delivery_stmt :: "env \<Rightarrow> string \<Rightarrow> string \<Rightarrow> time \<Rightarrow> database \<Rightarrow> goerr + Delivery \<times> database" where
  "get_delivery_stmt env eventID endpoint now d =
     (case uuid_in env eventID of
        None \<Rightarrow> Inl uuid_syntax
      | Some ev \<Rightarrow>
          (case find (\<lambda>r. wh_event_id r = ev \<and> wh_endpoint r = endpoint) (webhook_deliveries d) of
             None \<Rightarrow> Inl ErrNoRows | Some r \<Rightarrow> Inr (delivery_of r, d)))"

definition count_by_status_stmt :: "time \<Rightarrow> database \<Rightarrow> goerr + (string \<times> int) list \<times> database" where
  "count_by_status_stmt now d =
     (let st = map wh_status (webhook_deliveries d)
      in Inr (map (\<lambda>s. (s, int (length (filter (\<lambda>x. x = s) st)))) (remdups st), d))"

subsection \<open>The store\<close>

definition Enqueue :: "env \<Rightarrow> Delivery \<Rightarrow> bool comp" where
  "Enqueue env dl =
     andThen (mapErr (Wrap (Sprintf ''webhook: enqueue: %w'' [])) (pool_sql env (enqueue_stmt env dl)))
       (\<lambda>affected. ret (affected = 1))"

definition ClaimDue :: "env \<Rightarrow> int \<Rightarrow> Delivery list comp" where
  "ClaimDue env limit =
     mapErr (Wrap (Sprintf ''webhook: claim due: %w'' [])) (pool_sql env (claim_due_stmt limit))"

definition MarkDelivered :: "env \<Rightarrow> string \<Rightarrow> int \<Rightarrow> unit comp" where
  "MarkDelivered env i code =
     mapErr (Wrap (Sprintf ''webhook: mark delivered: %w'' [])) (pool_sql env (mark_delivered_stmt env i code))"

definition MarkUndelivered :: "env \<Rightarrow> string \<Rightarrow> string \<Rightarrow> int \<Rightarrow> time \<Rightarrow> int \<Rightarrow> (int \<times> bool) comp" where
  "MarkUndelivered env i cause code delay maxAttempts =
     andThen (mapErr (Wrap (Sprintf ''webhook: mark failed: %w'' []))
         (pool_sql env (mark_undelivered_stmt env i (Outbox.truncate cause 2000) code delay maxAttempts)))
       (\<lambda>(attempts, status). ret (attempts, status = StatusDeadLetter))"

definition GetDelivery :: "env \<Rightarrow> string \<Rightarrow> string \<Rightarrow> Delivery comp" where
  "GetDelivery env eventID endpoint =
     mapErr (\<lambda>e. if e = ErrNoRows then ErrNoRows else Wrap (Sprintf ''webhook: get: %w'' []) e)
       (pool_sql env (get_delivery_stmt env eventID endpoint))"

definition CountByStatus :: "env \<Rightarrow> (string \<times> int) list comp" where
  "CountByStatus env =
     mapErr (Wrap (Sprintf ''webhook: count by status: %w'' [])) (pool_sql env count_by_status_stmt)"

subsection \<open>The worker\<close>

fun enqueueLoop :: "env \<Rightarrow> Envelope \<Rightarrow> json \<Rightarrow> string list \<Rightarrow> unit comp" where
  "enqueueLoop env e payload [] = ret ()"
| "enqueueLoop env e payload (endpoint # endpoints) =
     andThen (newUUID env) (\<lambda>i.
     andThen (Enqueue env \<lparr>dl_ID = i, dl_EventID = ev_EventID e, dl_Endpoint = endpoint, dl_EventType = ev_EventType e,
         dl_TransactionID = ev_TransactionID e, dl_Payload = payload, dl_Status = [], dl_Attempts = 0, dl_LastError = [],
         dl_LastStatusCode = 0, dl_NextAttemptAt = 0, dl_DeliveredAt = None, dl_CreatedAt = 0\<rparr>) (\<lambda>created.
       enqueueLoop env e payload endpoints))"

definition HandleEvent :: "env \<Rightarrow> Config \<Rightarrow> ctx \<Rightarrow> Message \<Rightarrow> unit comp" where
  "HandleEvent env cfg ctx0 msg =
     (case unmarshalEnvelope (m_Value msg) of
        None \<Rightarrow> ret ()
      | Some e \<Rightarrow>
          if ev_EventID e = [] then ret ()
          else
            let ctx1 = WithTransactionID ctx0 (ev_TransactionID e);
                ctx = (if ev_CorrelationID e \<noteq> [] then WithCorrelationID ctx1 (ev_CorrelationID e) else ctx1)
            in andThen (mapErr (Wrap (Sprintf ''webhook: failpoint before persist: %w'' []))
                 (fpEval (cx_failpoints ctx) BeforeWebhookPersist)) (\<lambda>_.
               enqueueLoop env e (m_Value msg) (WebhookEndpoints cfg)))"

text \<open>A request as the endpoint receives it.\<close>

record Post =
  p_Endpoint :: string
  p_EventID :: string
  p_EventType :: string
  p_TransactionID :: string
  p_Attempt :: int
  p_Signature :: "string option"
  p_Body :: json

datatype reply = BadRequest goerr | NoReply goerr | Reply int

type_synonym 'a wcomp = "world \<times> Post list \<Rightarrow> 'a result \<times> (world \<times> Post list)"

text \<open>\<open>http.NewRequestWithContext\<close> and \<open>client.Do\<close>; the result is the status code with the error, if any.\<close>

definition post :: "Config \<Rightarrow> (string \<Rightarrow> json \<Rightarrow> string) \<Rightarrow> (nat \<Rightarrow> reply) \<Rightarrow> Delivery \<Rightarrow> (int \<times> goerr option) wcomp" where
  "post cfg signer http dl s =
     (let w = fst s;
          req = \<lparr>p_Endpoint = dl_Endpoint dl, p_EventID = dl_EventID dl, p_EventType = dl_EventType dl,
            p_TransactionID = dl_TransactionID dl, p_Attempt = dl_Attempts dl + 1,
            p_Signature = (if WebhookSigningSecret cfg \<noteq> [] then Some (signer (WebhookSigningSecret cfg) (dl_Payload dl)) else None),
            p_Body = dl_Payload dl\<rparr>
      in case http (tick w) of
           BadRequest e \<Rightarrow> (Ret (0, Some (Wrap (Sprintf ''webhook: build request: %w'' []) e)), (tickw w, snd s))
         | NoReply e \<Rightarrow> (Ret (0, Some (Wrap (Sprintf ''webhook: post: %w'' []) e)), (tickw w, snd s))
         | Reply code \<Rightarrow>
             if code < 200 \<or> code \<ge> 300
             then (Ret (code, Some (ErrOther (''webhook: endpoint returned '' @ decimal code))), (tickw w, snd s))
             else (Ret (code, None), (tickw w, snd s @ [req])))"

definition recordFailure :: "env \<Rightarrow> Config \<Rightarrow> Delivery \<Rightarrow> string \<Rightarrow> int \<Rightarrow> unit wcomp" where
  "recordFailure env cfg dl cause code =
     andThen (onDB (jitter env)) (\<lambda>u.
       let delay = Backoff (dl_Attempts dl + 1) (WebhookBaseBackoff cfg) (WebhookMaxBackoff cfg) u in
       andThen (attempt (onDB (MarkUndelivered env (dl_ID dl) cause code delay (WebhookMaxAttempts cfg)))) (\<lambda>_. ret ()))"

definition deliver :: "env \<Rightarrow> Config \<Rightarrow> (string \<Rightarrow> json \<Rightarrow> string) \<Rightarrow> (nat \<Rightarrow> reply) \<Rightarrow> ctx \<Rightarrow> Delivery \<Rightarrow> bool wcomp" where
  "deliver env cfg signer http ctx0 dl =
     (let ctx = WithTransactionID ctx0 (dl_TransactionID dl)
      in andThen (attempt (onDB (fpEval (cx_failpoints ctx) BeforeWebhookSend))) (\<lambda>r.
         case r of
           Inl e \<Rightarrow> andThen (recordFailure env cfg dl (err_text env e) 0) (\<lambda>_. ret False)
         | Inr _ \<Rightarrow>
           andThen (post cfg signer http dl) (\<lambda>(code, err).
             case err of
               Some e \<Rightarrow> andThen (recordFailure env cfg dl (err_text env e) code) (\<lambda>_. ret False)
             | None \<Rightarrow>
                 andThen (attempt (onDB (MarkDelivered env (dl_ID dl) code))) (\<lambda>r.
                   case r of Inl e \<Rightarrow> ret False | Inr _ \<Rightarrow> ret True))))"

fun deliverLoop :: "env \<Rightarrow> Config \<Rightarrow> (string \<Rightarrow> json \<Rightarrow> string) \<Rightarrow> (nat \<Rightarrow> reply) \<Rightarrow> ctx \<Rightarrow> Delivery list \<Rightarrow> int \<Rightarrow> (int \<times> goerr option) wcomp" where
  "deliverLoop env cfg signer http ctx [] n = ret (n, None)"
| "deliverLoop env cfg signer http ctx (dl # batch) n =
     andThen (attempt (onDB (ctxErr env))) (\<lambda>r.
       case r of
         Inl e \<Rightarrow> ret (n, Some e)
       | Inr _ \<Rightarrow> andThen (deliver env cfg signer http ctx dl) (\<lambda>ok.
           deliverLoop env cfg signer http ctx batch (if ok then n + 1 else n)))"

definition DeliverOnce :: "env \<Rightarrow> Config \<Rightarrow> (string \<Rightarrow> json \<Rightarrow> string) \<Rightarrow> (nat \<Rightarrow> reply) \<Rightarrow> ctx \<Rightarrow> (int \<times> goerr option) wcomp" where
  "DeliverOnce env cfg signer http ctx =
     andThen (attempt (onDB (ClaimDue env (WebhookBatchSize cfg)))) (\<lambda>r.
       case r of
         Inl e \<Rightarrow> ret (0, Some e)
       | Inr batch \<Rightarrow> deliverLoop env cfg signer http ctx batch 0)"

end
