(* ===== verification/Retry_Queue.thy ===== *)
theory Retry_Queue
  imports Webhook
begin

text \<open>
  The retry discipline the outbox and the webhook deliveries share: a failure adds one to
  the attempts of a row, and dead-letters it exactly when the attempts reach the budget.
\<close>

locale retry_queue =
  fixes fail_row :: "'p \<Rightarrow> int \<Rightarrow> 'r \<Rightarrow> 'r" and attempts :: "'r \<Rightarrow> int" and dead :: "'r \<Rightarrow> bool"
  assumes fail_counts: "attempts (fail_row p n r) = attempts r + 1"
    and fail_dead: "dead (fail_row p n r) \<longleftrightarrow> n \<le> attempts r + 1"
begin

lemma attempts_after: "attempts (fold (\<lambda>p. fail_row p n) ps r) = attempts r + int (length ps)"
  by (induction ps arbitrary: r) (simp_all add: fail_counts)

lemma dead_after:
  assumes "ps \<noteq> []"
  shows "dead (fold (\<lambda>p. fail_row p n) ps r) \<longleftrightarrow> n \<le> attempts r + int (length ps)"
proof -
  obtain qs p where ps: "ps = qs @ [p]" using assms by (cases ps rule: rev_cases) auto
  show ?thesis by (simp add: ps fail_dead attempts_after ac_simps)
qed

text \<open>A new row survives exactly \<open>n - 1\<close> failures.\<close>

lemma budget:
  assumes "attempts r = 0" and "0 < n" and "ps \<noteq> []"
  shows "dead (fold (\<lambda>p. fail_row p n) ps r) \<longleftrightarrow> nat n \<le> length ps"
  using dead_after[OF assms(3), of n r] assms(1,2) by (simp add: nat_le_iff)

end

interpretation outbox_retry: retry_queue "\<lambda>(cause, delay, now) n. failed_row cause delay n now" o_attempts
    "\<lambda>r. o_status r = StatusDeadLetter"
  by unfold_locales (auto simp: failed_row_def outbox_status_defs split: if_splits)

interpretation webhook_retry: retry_queue "\<lambda>(cause, code, delay, now) n. undelivered_row cause code delay n now"
    wh_attempts "\<lambda>r. wh_status r = StatusDeadLetter"
  by unfold_locales (auto simp: undelivered_row_def outbox_status_defs split: if_splits)

end
