(* ===== verification/Messaging_Properties.thy ===== *)
theory Messaging_Properties
  imports Publisher_Facts Retry_Queue Demo
begin

text \<open>
  The properties of the outbox publisher and of replay, stated over any behaviour of
  database and broker.
\<close>


definition demo_replay :: ReplayRequest where
  "demo_replay = ReplayRequest.make ''='' None None 0 ''ops'' False"


text \<open>
  C14. At-least-once: an outbox row is marked as published only when the broker's log holds its
  event, with its topic, key, payload and headers. A cycle of the publisher keeps this, whatever
  the database and the broker answer (lost acknowledgements included) and wherever it is
  interrupted.
\<close>

theorem published_is_written:
  assumes "sound (uuid_in env) (w, msgs)" and "RunOnce env cfg brk ctx locked (w, msgs) = (r, (w', msgs'))"
    and "q \<in> set (outbox_events (db w'))" and "o_status q = StatusPublished"
  shows "eventMessage (outbox_record_of q) \<in> set msgs'"
  using RunOnce_sound[OF refl assms(1,2)] assms(3,4) by (simp add: sound_def)

lemma sound_W4: "sound (uuid_in demo_env) (W4, [])"
  by (simp add: sound_def W4_eq demo_env_def StatusPublished_def)

lemma publish_run:
  "map o_status (outbox_events (db (fst (snd (RunOnce demo_env demo_cfg (\<lambda>_. Acked) Background (\<lambda>_. False) (W4, [])))))) = [''published'']"
  unfolding W4_eq by code_simp

theorem published_is_written_witness:
  "\<exists>q w' msgs'. snd (RunOnce demo_env demo_cfg (\<lambda>_. Acked) Background (\<lambda>_. False) (W4, [])) = (w', msgs') \<and>
     outbox_events (db w') = [q] \<and> eventMessage (outbox_record_of q) \<in> set msgs'"
proof -
  obtain r w' msgs' where 1: "RunOnce demo_env demo_cfg (\<lambda>_. Acked) Background (\<lambda>_. False) (W4, []) = (r, (w', msgs'))"
    by (metis surj_pair)
  with publish_run have "map o_status (outbox_events (db w')) = [StatusPublished]" by (simp add: StatusPublished_def)
  then obtain q where q: "outbox_events (db w') = [q]" "o_status q = StatusPublished" by (cases "outbox_events (db w')") auto
  from published_is_written[OF sound_W4 1, of q] q 1 show ?thesis by auto
qed

text \<open>
  C15. Events are immutable and publication is final: a cycle keeps the list of events with
  their identifiers, topics, keys, payloads and creation times, and changes nothing of a row
  that is already published (with its time stamp).
\<close>

theorem publication_final:
  assumes "distinct (map o_id (outbox_events (db w)))" and "RunOnce env cfg brk ctx locked (w, msgs) = (r, (w', msgs'))"
  shows "map event_identity (outbox_events (db w')) = map event_identity (outbox_events (db w)) \<and>
    (\<forall>i < length (outbox_events (db w)). stamped (outbox_events (db w) ! i) \<and>
       o_status (outbox_events (db w) ! i) = StatusPublished \<longrightarrow> outbox_events (db w') ! i = outbox_events (db w) ! i) \<and>
    prefix msgs msgs'"
proof -
  note fr = staysD[OF fr_RunOnce assms(2)]
  have ev: "list_all2 evolves (outbox_events (db w)) (outbox_events (db w'))"
    using fr assms(1) by (simp add: pub_frame_def outbox_evolves_def)
  show ?thesis
    using evolved_ids[OF ev] list_all2_nthD[OF ev] fr by (auto simp: evolves_def pub_frame_def)
qed

theorem publication_final_witness:
  "map event_identity (outbox_events (db (fst (snd (RunOnce demo_env demo_cfg (\<lambda>_. Acked) Background (\<lambda>_. False) (W5, []))))))
     = map event_identity (outbox_events (db W5))"
proof -
  obtain r w' msgs' where 1: "RunOnce demo_env demo_cfg (\<lambda>_. Acked) Background (\<lambda>_. False) (W5, []) = (r, (w', msgs'))"
    by (metis surj_pair)
  have "distinct (map o_id (outbox_events (db W5)))" by (simp add: W5_eq)
  from publication_final[OF this 1] show ?thesis by (simp add: 1)
qed

subsection \<open>Failures\<close>

text \<open>
  C16. Retry or dead letter: a failure that is recorded adds one to the attempts, schedules the
  next attempt after the delay, releases the claim, and dead-letters the event exactly when the
  attempts have reached the budget. The outcome of a published row is never overwritten: the
  call fails and changes nothing.
\<close>

theorem mark_failed_outcome:
  assumes "outbox_of (db w) i = Some q" and "uuid_in env i = Some i" and "stamped q"
    and "MarkFailed env i cause delay n w = (r, w')"
  shows "(o_status q = StatusPublished \<longrightarrow> (\<exists>e. r = Err e) \<and> db w' = db w) \<and>
    (\<forall>k dead. r = Ret (k, dead) \<longrightarrow> (\<exists>q'. outbox_of (db w') i = Some q' \<and> k = o_attempts q + 1 \<and> o_attempts q' = k \<and>
       (dead \<longleftrightarrow> n \<le> k) \<and> o_status q' = (if dead then StatusDeadLetter else StatusPending) \<and>
       o_next_attempt_at q' = pg_clock env (tick w) + delay \<and> o_claimed_by q' = None \<and>
       o_last_error q' = Some (Outbox.truncate cause 2000)))"
proof -
  let ?now = "pg_clock env (tick w)" and ?c = "Outbox.truncate cause 2000"
  let ?f = "failed_row ?c delay n ?now"
  have upd: "find (\<lambda>x. o_id x = i) (map (\<lambda>x. if o_id x = i then ?f x else x) (outbox_events (db w))) = Some (?f q)"
    using assms(1) find_map_upd[of "\<lambda>x. o_id x = i" "\<lambda>x. if o_id x = i then ?f x else x" "outbox_events (db w)"]
    by (auto simp: outbox_of_def failed_row_def dest: find_Some_mem)
  have pub: "\<not> (\<forall>c \<in> set (outbox_check (?f q)). fst c)" if "o_status q = StatusPublished"
    using assms(3) that by (auto simp: outbox_check_def failed_row_def stamped_def outbox_status_defs)
  show ?thesis
  proof (cases "fault env (tick w)")
    case (Some e)
    with assms(4) show ?thesis by (auto simp: MarkFailed_def andThen_def mapErr_def pool_sql_def sql_def)
  next
    case None
    have stmt: "mark_failed_stmt env i ?c delay n ?now (db w) =
        checked ((in32 (o_attempts q + 1), int_out_of_range) # outbox_check (?f q))
          ((o_attempts (?f q), o_status (?f q)),
           (db w)\<lparr>outbox_events := map (\<lambda>x. if o_id x = i then ?f x else x) (outbox_events (db w))\<rparr>)"
      by (simp add: mark_failed_stmt_def assms(1,2) Let_def)
    show ?thesis
    proof (cases "first_violation ((in32 (o_attempts q + 1), int_out_of_range) # outbox_check (?f q))")
      case (Some e)
      then have "mark_failed_stmt env i ?c delay n ?now (db w) = Inl e" by (simp add: stmt checked_def)
      with assms(4) None show ?thesis
        by (auto simp: MarkFailed_def andThen_def mapErr_def pool_sql_def sql_def)
    next
      case ok: None
      then have "o_status q \<noteq> StatusPublished" using pub by (simp only: first_violation_None list.set ball_simps) blast
      moreover have "mark_failed_stmt env i ?c delay n ?now (db w) = Inr ((o_attempts (?f q), o_status (?f q)),
           (db w)\<lparr>outbox_events := map (\<lambda>x. if o_id x = i then ?f x else x) (outbox_events (db w))\<rparr>)"
        using ok by (simp add: stmt checked_def)
      ultimately show ?thesis using assms(4) None upd
        by (auto simp: MarkFailed_def andThen_def mapErr_def pool_sql_def sql_def ret_def outbox_of_def failed_row_def
            outbox_status_defs split: commit_fault.splits option.splits if_splits)
    qed
  qed
qed

theorem mark_failed_outcome_witness:
  "\<exists>w'. MarkFailed demo_env ''K'' ''broker down'' 7 3 W4 = (Ret (1, False), w') \<and>
     (\<exists>q'. outbox_of (db w') ''K'' = Some q' \<and> o_attempts q' = 1 \<and> o_status q' = StatusPending)"
proof -
  obtain q where q: "outbox_of (db W4) ''K'' = Some q" "stamped q"
    by (auto simp: outbox_of_def W4_eq stamped_def StatusPublished_def)
  have u: "uuid_in demo_env ''K'' = Some ''K''" by (simp add: demo_env_def)
  have "fst (MarkFailed demo_env ''K'' ''broker down'' 7 3 W4) = Ret (1, False)" unfolding W4_eq by code_simp
  then obtain w' where w': "MarkFailed demo_env ''K'' ''broker down'' 7 3 W4 = (Ret (1, False), w')" by (metis prod.collapse)
  from mark_failed_outcome[OF q(1) u q(2) w'] w' show ?thesis by auto
qed

text \<open>
  A new event survives exactly \<open>OutboxMaxAttempts - 1\<close> failures, whatever their causes,
  delays and times: it is a dead letter after a sequence of failures exactly when the sequence is
  at least as long as the budget.
\<close>

lemma outbox_retry_budget:
  assumes "o_attempts q = 0" and "0 < n" and "ps \<noteq> []"
  shows "o_status (fold (\<lambda>(cause, delay, now). failed_row cause delay n now) ps q) = StatusDeadLetter \<longleftrightarrow> nat n \<le> length ps"
  using outbox_retry.budget[OF assms] by (simp add: split_def)

end
