(* ===== verification/Replay_Properties.thy ===== *)
theory Replay_Properties
  imports Messaging_Properties
begin

text \<open>Claims of the outbox, delays between attempts, and the identity of replayed events.\<close>

subsection \<open>Claims\<close>

text \<open>A claim marks the rows of a set of identifiers, each of a row that could be claimed.\<close>

lemma claim_split:
  assumes "claim_outbox_stmt wid limit ttl locked now d = Inr (batch, d')"
  obtains I where "\<forall>i \<in> I. \<exists>q \<in> set (outbox_events d). o_id q = i \<and> claimable ttl now q"
    and "outbox_events d' = map (\<lambda>r. if o_id r \<in> I then r\<lparr>o_status := StatusPublishing, o_claimed_by := Some wid,
      o_claimed_at := Some now\<rparr> else r) (outbox_events d)"
    and "batch = map outbox_record_of (filter (\<lambda>r. o_id r \<in> I) (outbox_events d'))"
proof -
  let ?ids = "map o_id (take (nat limit) (filter (\<lambda>r. \<not> locked (o_id r))
      (sort_key (\<lambda>r. (o_created_at r, o_id r)) (filter (claimable ttl now) (outbox_events d)))))"
  have neg: "\<not> limit < 0" using assms by (auto simp: claim_outbox_stmt_def)
  have "\<forall>i \<in> set ?ids. \<exists>q \<in> set (outbox_events d). o_id q = i \<and> claimable ttl now q"
    by (auto dest!: in_set_takeD)
  moreover define I where "I = set ?ids"
  ultimately have 1: "\<forall>i \<in> I. \<exists>q \<in> set (outbox_events d). o_id q = i \<and> claimable ttl now q" by simp
  let ?rows = "map (\<lambda>r. if o_id r \<in> I then r\<lparr>o_status := StatusPublishing, o_claimed_by := Some wid,
      o_claimed_at := Some now\<rparr> else r) (outbox_events d)"
  have "Inr (batch, d') = (Inr (map outbox_record_of (filter (\<lambda>r. o_id r \<in> I) ?rows), d\<lparr>outbox_events := ?rows\<rparr>) :: goerr + _)"
    unfolding assms[symmetric] claim_outbox_stmt_def Let_def I_def List.member_iff using neg by (simp only: if_False)
  then have "batch = map outbox_record_of (filter (\<lambda>r. o_id r \<in> I) ?rows)" "d' = d\<lparr>outbox_events := ?rows\<rparr>" by blast+
  with 1 show ?thesis by (intro that[of I]) simp_all
qed

lemma claim_rows:
  assumes "claim_outbox_stmt wid limit ttl locked now d = Inr (batch, d')" and "rec \<in> set batch"
  shows "\<exists>q' \<in> set (outbox_events d'). o_id q' = or_ID rec \<and> o_status q' = StatusPublishing \<and> o_claimed_at q' = Some now"
    and "\<exists>q \<in> set (outbox_events d). o_id q = or_ID rec \<and> claimable ttl now q"
proof -
  obtain I where I: "\<forall>i \<in> I. \<exists>q \<in> set (outbox_events d). o_id q = i \<and> claimable ttl now q"
    and rows: "outbox_events d' = map (\<lambda>r. if o_id r \<in> I then r\<lparr>o_status := StatusPublishing, o_claimed_by := Some wid,
      o_claimed_at := Some now\<rparr> else r) (outbox_events d)"
    and batch: "batch = map outbox_record_of (filter (\<lambda>r. o_id r \<in> I) (outbox_events d'))"
    using assms(1) by (rule claim_split)
  from assms(2) batch obtain q' where q': "q' \<in> set (outbox_events d')" "o_id q' \<in> I" "o_id q' = or_ID rec"
    by (auto simp: outbox_record_of_def)
  then have "o_status q' = StatusPublishing \<and> o_claimed_at q' = Some now" by (auto simp: rows split: if_splits)
  with q' show "\<exists>q' \<in> set (outbox_events d'). o_id q' = or_ID rec \<and> o_status q' = StatusPublishing \<and> o_claimed_at q' = Some now" by blast
  show "\<exists>q \<in> set (outbox_events d). o_id q = or_ID rec \<and> claimable ttl now q" using I q'(2,3) by metis
qed

lemma ClaimOutbox_Ret:
  "ClaimOutbox env wid limit ttl locked w = (Ret b, w') \<Longrightarrow>
     claim_outbox_stmt wid limit ttl locked (pg_clock env (tick w)) (db w) = Inr (b, db w')"
  by (auto simp: ClaimOutbox_def ret_inv)



subsection \<open>Delays\<close>



subsection \<open>The event on the wire\<close>

lemma unmarshal_meta_round_trip:
  "in64 (rm_OriginalSeq m) \<Longrightarrow> unmarshalReplayMeta (marshalReplayMeta m) = Some (Some m)"
  by (cases "rm_ReplayedBy m = []"; cases "rm_OriginalSeq m = 0")
    (simp_all add: unmarshalReplayMeta_def marshalReplayMeta_def member_of_def omit_str_def)

definition envelope_in_range :: "Envelope \<Rightarrow> bool" where
  "envelope_in_range e \<longleftrightarrow> in64 (ev_SchemaVersion e) \<and> (case ev_Replay e of None \<Rightarrow> True | Some m \<Rightarrow> in64 (rm_OriginalSeq m))"

lemma envelope_round_trip_lemma:
  assumes "envelope_in_range e"
  shows "unmarshalEnvelope (marshalEnvelope e) = Some e"
proof -
  have meta: "unmarshalReplayMeta (case ev_Replay e of None \<Rightarrow> JNull | Some m \<Rightarrow> marshalReplayMeta m) = Some (ev_Replay e)"
  proof (cases "ev_Replay e")
    case (Some m)
    then show ?thesis using assms by (simp add: envelope_in_range_def unmarshal_meta_round_trip)
  qed (simp add: unmarshalReplayMeta_def)
  have v: "in64 (ev_SchemaVersion e)" using assms by (simp add: envelope_in_range_def)
  show ?thesis
    using meta v by (cases "ev_CorrelationID e = []"; cases "ev_Replay e")
      (simp_all add: unmarshalEnvelope_def marshalEnvelope_def member_of_def omit_str_def)
qed


definition demo_meta :: ReplayMeta where
  "demo_meta = \<lparr>rm_IsReplay = True, rm_ReplayID = ''r'', rm_ReplayedAt = 9, rm_ReplayedBy = [], rm_OriginalSeq = 0\<rparr>"

definition demo_envelope :: Envelope where
  "demo_envelope = \<lparr>ev_EventID = ''e'', ev_EventType = ''payment.created'', ev_SchemaVersion = 1, ev_TransactionID = ''t'',
     ev_OccurredAt = 7, ev_CorrelationID = [], ev_Replay = Some demo_meta, ev_Data = JObj []\<rparr>"


subsection \<open>Replayed events\<close>

text \<open>What a replay may write to the broker for a recorded event.\<close>

definition replayed_from :: "string \<Rightarrow> string \<Rightarrow> outbox_record \<Rightarrow> Message \<Rightarrow> bool" where
  "replayed_from rid who rec m \<longleftrightarrow>
     m_Topic m = or_Topic rec \<and> m_Key m = or_PartitionKey rec \<and>
     map_of (m_Headers m) ''event_id'' = Some (or_ID rec) \<and> map_of (m_Headers m) ''replay_id'' = Some rid \<and>
     (\<exists>e e'. unmarshalEnvelope (or_Payload rec) = Some e \<and> unmarshalEnvelope (m_Value m) = Some e' \<and>
       e' = e\<lparr>ev_Replay := ev_Replay e'\<rparr> \<and>
       (\<exists>meta. ev_Replay e' = Some meta \<and> rm_IsReplay meta \<and> rm_ReplayID meta = rid \<and> rm_ReplayedBy meta = who))"

lemma unmarshal_in64: "unmarshalEnvelope j = Some e \<Longrightarrow> in64 (ev_SchemaVersion e)"
  by (auto simp: unmarshalEnvelope_def in64_def split: json.splits option.splits if_splits elim!: as_int.elims)

lemma replayMessage_from:
  assumes "markReplayed (or_Payload rec) meta = Some p" and "in64 (rm_OriginalSeq meta)" and "rm_IsReplay meta"
    and "rm_ReplayID meta = rid"
  shows "replayed_from rid (rm_ReplayedBy meta) rec (replayMessage rec p rid)"
proof -
  from assms(1) obtain e where e: "unmarshalEnvelope (or_Payload rec) = Some e" and p: "p = marshalEnvelope (e\<lparr>ev_Replay := Some meta\<rparr>)"
    by (auto simp: markReplayed_def)
  have "envelope_in_range (e\<lparr>ev_Replay := Some meta\<rparr>)" using unmarshal_in64[OF e] assms(2) by (simp add: envelope_in_range_def)
  then have rt: "unmarshalEnvelope p = Some (e\<lparr>ev_Replay := Some meta\<rparr>)" unfolding p by (rule envelope_round_trip_lemma)
  show ?thesis using e rt assms(3,4) by (simp add: replayed_from_def replayMessage_def withEventHeaders_def update_conv)
qed

lemma replayLoop_from:
  assumes "replayLoop brk req rid t i recs res (w, msgs) = (r, (w', msgs'))" and "i + length recs < 2 ^ 63"
  shows "(\<exists>res'. r = Ret res' \<and> rr_EventIDs res' = rr_EventIDs res @ map or_ID recs \<and> rr_Matched res' = rr_Matched res \<and>
      rr_ReplayID res' = rr_ReplayID res \<and>
      (if rq_DryRun req then rr_Published res' + rr_Failed res' = rr_Published res + rr_Failed res \<and> msgs' = msgs
       else rr_Published res' + rr_Failed res' = rr_Published res + rr_Failed res + int (length recs))) \<and>
    (\<exists>new. msgs' = msgs @ new \<and> (\<forall>m \<in> set new. \<exists>rec \<in> set recs. replayed_from rid (rq_RequestedBy req) rec m))"
  using assms
proof (induction recs arbitrary: i res w msgs)
  case Nil
  then show ?case by (auto simp: ret_def)
next
  case (Cons rec recs)
  let ?res = "res\<lparr>rr_EventIDs := rr_EventIDs res @ [or_ID rec]\<rparr>"
  let ?meta = "\<lparr>rm_IsReplay = True, rm_ReplayID = rid, rm_ReplayedAt = t, rm_ReplayedBy = rq_RequestedBy req, rm_OriginalSeq = int i\<rparr>"
  have bound: "Suc i + length recs < 2 ^ 63" using Cons.prems(2) by simp
  have i64: "in64 (int i)" using Cons.prems(2) by (simp add: in64_def)
  show ?case
  proof (cases "rq_DryRun req")
    case True
    with Cons.prems(1) have "replayLoop brk req rid t (Suc i) recs ?res (w, msgs) = (r, (w', msgs'))" by (simp add: Let_def)
    from Cons.IH[OF this bound] True show ?thesis by auto
  next
    case wet: False
    show ?thesis
    proof (cases "markReplayed (or_Payload rec) ?meta")
      case None
      with Cons.prems(1) wet have "replayLoop brk req rid t (Suc i) recs (?res\<lparr>rr_Failed := rr_Failed res + 1\<rparr>) (w, msgs) = (r, (w', msgs'))"
        by (simp add: Let_def)
      from Cons.IH[OF this bound] wet show ?thesis by auto
    next
      case (Some p)
      have rf: "replayed_from rid (rq_RequestedBy req) rec (replayMessage rec p rid)"
        using replayMessage_from[OF Some] i64 by simp
      obtain res1 new1 w1 where "replayLoop brk req rid t (Suc i) recs res1 (w1, msgs @ new1) = (r, (w', msgs'))"
          and n1: "new1 = [] \<or> new1 = [replayMessage rec p rid]"
          and r1: "rr_EventIDs res1 = rr_EventIDs ?res" "rr_ReplayID res1 = rr_ReplayID res" "rr_Matched res1 = rr_Matched res"
            "rr_Published res1 + rr_Failed res1 = rr_Published res + rr_Failed res + 1"
      proof (cases "brk (tick w)")
        case Acked
        with Cons.prems(1) wet Some that[of "?res\<lparr>rr_Published := rr_Published res + 1\<rparr>" "tickw w" "[replayMessage rec p rid]"]
        show ?thesis by (simp add: Let_def andThen_def attempt_def Publish_def)
      next
        case (NotWritten e)
        with Cons.prems(1) wet Some that[of "?res\<lparr>rr_Failed := rr_Failed res + 1\<rparr>" "tickw w" "[]"]
        show ?thesis by (simp add: Let_def andThen_def attempt_def Publish_def)
      next
        case (WrittenUnacked e)
        with Cons.prems(1) wet Some that[of "?res\<lparr>rr_Failed := rr_Failed res + 1\<rparr>" "tickw w" "[replayMessage rec p rid]"]
        show ?thesis by (simp add: Let_def andThen_def attempt_def Publish_def)
      qed
      from Cons.IH[OF this(1) bound] wet n1 r1 rf show ?thesis by auto
    qed
  qed
qed

lemma ListForReplay_Ret:
  assumes "ListForReplay env tx f t limit w = (Ret recs, w')"
  shows "length recs \<le> nat limit" and "rec \<in> set recs \<Longrightarrow> \<exists>q \<in> set (outbox_events (db w)). replay_filter tx f t q \<and> rec = outbox_record_of q"
proof -
  from assms have recs: "recs = map outbox_record_of (take (nat limit) (sort_key (\<lambda>r. (o_created_at r, o_id r))
      (filter (replay_filter tx f t) (outbox_events (db w)))))"
    by (auto simp: ListForReplay_def ret_inv list_for_replay_stmt_def split: if_splits)
  then show "length recs \<le> nat limit" by simp
  show "\<exists>q \<in> set (outbox_events (db w)). replay_filter tx f t q \<and> rec = outbox_record_of q" if "rec \<in> set recs"
    using that unfolding recs set_map by (elim imageE) (auto dest!: in_set_takeD)
qed

text \<open>
  C21. A replay re-emits recorded facts and nothing else: every message it writes keeps the topic,
  the partition key and the event identifier of an event of the outbox in the requested range, and
  decodes to the recorded envelope except for its replay annotation, which names this replay and who
  asked for it. A dry run writes nothing; otherwise every matched event is counted once, as
  published or as failed.
\<close>

theorem replay_identity:
  assumes "Replay env brk req (w, msgs) = (Ret res, (w', msgs'))"
  shows "\<exists>new. msgs' = msgs @ new \<and> (rq_DryRun req \<longrightarrow> new = []) \<and>
    rr_Matched res = int (length (rr_EventIDs res)) \<and>
    (\<not> rq_DryRun req \<longrightarrow> rr_Published res + rr_Failed res = rr_Matched res) \<and>
    (\<forall>m \<in> set new. \<exists>q \<in> set (outbox_events (db w)). replay_filter (rq_TransactionID req) (rq_From req) (rq_To req) q \<and>
       replayed_from (rr_ReplayID res) (rq_RequestedBy req) (outbox_record_of q) m)"
proof -
  let ?limit = "if rq_Limit req = 0 then 1000 else rq_Limit req"
  from assms have valid: "ValidateReplay req = None" by (cases "ValidateReplay req") (auto simp: Replay_def throw_def)
  then have lim: "?limit \<le> 10000" by (auto simp: ValidateReplay_def split: if_splits)
  from assms valid obtain recs w1 rid t w3 where ls: "ListForReplay env (rq_TransactionID req) (rq_From req) (rq_To req) ?limit w = (Ret recs, w1)"
    and loop: "replayLoop brk req rid t 0 recs \<lparr>rr_ReplayID = rid, rr_Matched = int (length recs), rr_Published = 0, rr_Failed = 0,
        rr_DryRun = rq_DryRun req, rr_EventIDs = []\<rparr> (w3, msgs) = (Ret res, (w', msgs'))"
    by (auto simp: Replay_def Let_def ret_inv onDB_def split: prod.splits)
  have "length recs < 2 ^ 63" using ListForReplay_Ret(1)[OF ls] lim by simp
  with replayLoop_from[OF loop] have L: "rr_EventIDs res = map or_ID recs" "rr_Matched res = int (length recs)" "rr_ReplayID res = rid"
    "rq_DryRun req \<Longrightarrow> msgs' = msgs" "\<not> rq_DryRun req \<Longrightarrow> rr_Published res + rr_Failed res = int (length recs)"
    and new: "\<exists>new. msgs' = msgs @ new \<and> (\<forall>m \<in> set new. \<exists>rec \<in> set recs. replayed_from rid (rq_RequestedBy req) rec m)"
    by (auto split: if_splits)
  from new obtain new where n: "msgs' = msgs @ new" "\<forall>m \<in> set new. \<exists>rec \<in> set recs. replayed_from rid (rq_RequestedBy req) rec m" by blast
  show ?thesis
    by (rule exI[of _ new]) (use n L ListForReplay_Ret(2)[OF ls] in \<open>fastforce\<close>)
qed

theorem replay_identity_witness:
  "\<exists>res w' m. Replay demo_env (\<lambda>_. Acked) demo_replay (W4, []) = (Ret res, (w', [m])) \<and>
     replayed_from (rr_ReplayID res) ''ops'' (outbox_record_of (hd (outbox_events (db W4)))) m"
proof -
  have "case Replay demo_env (\<lambda>_. Acked) demo_replay (W4, []) of (Ret res, (w', ms)) \<Rightarrow> length ms = 1 | _ \<Rightarrow> False"
    unfolding W4_eq by code_simp
  then obtain res w' ms where r: "Replay demo_env (\<lambda>_. Acked) demo_replay (W4, []) = (Ret res, (w', ms))" "length ms = 1"
    by (auto split: prod.splits res.splits)
  then obtain m where m: "ms = [m]" by (cases ms) auto
  have "outbox_events (db W4) = [hd (outbox_events (db W4))]" by (simp add: W4_eq)
  with replay_identity[OF r(1)] m have "replayed_from (rr_ReplayID res) (rq_RequestedBy demo_replay) (outbox_record_of (hd (outbox_events (db W4)))) m"
    by (metis append_Nil list.set_intros(1) empty_iff empty_set set_ConsD)
  then show ?thesis using r m by (auto simp: demo_replay_def ReplayRequest.defs)
qed

text \<open>The status of an event does not matter: pending and dead events are listed for replay too.\<close>

lemma replay_any_status:
  assumes "r \<in> set (outbox_events d)" and "o_aggregate_id r = i" "i \<noteq> []" and "int (length (outbox_events d)) \<le> limit"
  shows "\<exists>recs. list_for_replay_stmt i None None limit now d = Inr (recs, d) \<and> outbox_record_of r \<in> set recs"
proof -
  let ?rs = "sort_key (\<lambda>r. (o_created_at r, o_id r)) (filter (replay_filter i None None) (outbox_events d))"
  have "length ?rs \<le> length (outbox_events d)" by simp
  then have "take (nat limit) ?rs = ?rs" using assms(4) by (intro take_all) linarith
  moreover have "r \<in> set ?rs" using assms(1-3) by (simp add: replay_filter_def)
  ultimately show ?thesis using assms(4) by (simp add: list_for_replay_stmt_def)
qed

end
