(* ===== verification/Reconciliation.thy ===== *)
theory Reconciliation
  imports Storage
begin

text \<open>
  \<open>internal/reconciliation/reconcile.go\<close>: the audit of balances against entries. \<open>SUM\<close> over
  BIGINT is NUMERIC; scanning it into an \<open>int64\<close> fails outside the 64-bit range. The
  \<open>Duration\<close> is kept as a number of nanoseconds (Go stores its text); the metrics are left out.
\<close>

record Mismatch =
  mm_AccountID :: string
  mm_Stored :: int
  mm_Computed :: int
  mm_Delta :: int

record Report =
  rep_RanAt :: time
  rep_AccountsChecked :: int
  rep_TransactionsChecked :: int
  rep_Mismatches :: "Mismatch list"
  rep_UnbalancedTxIDs :: "string list"
  rep_Duration :: time

definition OK :: "Report \<Rightarrow> bool" where
  "OK r \<longleftrightarrow> rep_Mismatches r = [] \<and> rep_UnbalancedTxIDs r = []"

definition balance_sums_stmt :: "time \<Rightarrow> database \<Rightarrow> goerr + (string \<times> int \<times> int) list \<times> database" where
  "balance_sums_stmt now d =
     Inr (map (\<lambda>b. (b_account_id b, b_amount b, sum_list (map e_amount (account_entries d (b_account_id b))))) (balances d), d)"

definition transaction_sums_stmt :: "time \<Rightarrow> database \<Rightarrow> goerr + (string \<times> int \<times> int) list \<times> database" where
  "transaction_sums_stmt now d =
     Inr (map (\<lambda>t. (t_id t, sum_list (map e_amount (entries_of d (t_id t))), int (length (entries_of d (t_id t)))))
       (ledger_transactions d), d)"

fun scanBalances :: "(string \<times> int \<times> int) list \<Rightarrow> Report \<Rightarrow> Report comp" where
  "scanBalances [] report = ret report"
| "scanBalances ((i, stored, computed) # rows) report =
     (if \<not> in64 computed then throw (Wrap (Sprintf ''reconciliation: scan balance: %w'' []) (ErrOther ''cannot scan numeric''))
      else
        let report = report\<lparr>rep_AccountsChecked := rep_AccountsChecked report + 1\<rparr>
        in scanBalances rows
          (if stored \<noteq> computed
           then report\<lparr>rep_Mismatches := rep_Mismatches report @
             [\<lparr>mm_AccountID = i, mm_Stored = stored, mm_Computed = computed, mm_Delta = wrap64 (stored - computed)\<rparr>]\<rparr>
           else report))"

fun scanTransactions :: "(string \<times> int \<times> int) list \<Rightarrow> Report \<Rightarrow> Report comp" where
  "scanTransactions [] report = ret report"
| "scanTransactions ((i, txTotal, entryCount) # rows) report =
     (if \<not> in64 txTotal then throw (Wrap (Sprintf ''reconciliation: scan transaction: %w'' []) (ErrOther ''cannot scan numeric''))
      else
        let report = report\<lparr>rep_TransactionsChecked := rep_TransactionsChecked report + 1\<rparr>
        in scanTransactions rows
          (if txTotal \<noteq> 0 \<or> entryCount < 2
           then report\<lparr>rep_UnbalancedTxIDs := rep_UnbalancedTxIDs report @ [i]\<rparr> else report))"

definition RunReconciliation :: "env \<Rightarrow> Report comp" where
  "RunReconciliation env =
     andThen (goNow env) (\<lambda>start.
     andThen (mapErr (Wrap (Sprintf ''reconciliation: balances: %w'' [])) (pool_sql env balance_sums_stmt)) (\<lambda>rows.
     andThen (scanBalances rows \<lparr>rep_RanAt = start, rep_AccountsChecked = 0, rep_TransactionsChecked = 0,
         rep_Mismatches = [], rep_UnbalancedTxIDs = [], rep_Duration = 0\<rparr>) (\<lambda>report.
     andThen (mapErr (Wrap (Sprintf ''reconciliation: transactions: %w'' [])) (pool_sql env transaction_sums_stmt)) (\<lambda>txRows.
     andThen (scanTransactions txRows report) (\<lambda>report.
     andThen (goNow env) (\<lambda>finish. ret (report\<lparr>rep_Duration := finish - start\<rparr>)))))))"

subsection \<open>What the audit reports\<close>

lemma scanBalances_Ret:
  assumes "scanBalances rows r w = (Ret r', w')"
  shows "w' = w \<and> (\<forall>(i, s, c) \<in> set rows. in64 c) \<and> rep_AccountsChecked r' = rep_AccountsChecked r + int (length rows) \<and>
    rep_TransactionsChecked r' = rep_TransactionsChecked r \<and> rep_UnbalancedTxIDs r' = rep_UnbalancedTxIDs r \<and>
    map mm_AccountID (rep_Mismatches r') = map mm_AccountID (rep_Mismatches r) @ map fst (filter (\<lambda>(i, s, c). s \<noteq> c) rows)"
  using assms
  by (induction rows r arbitrary: w rule: scanBalances.induct) (auto simp: ret_inv Let_def split: if_splits)

lemma scanTransactions_Ret:
  assumes "scanTransactions rows r w = (Ret r', w')"
  shows "w' = w \<and> (\<forall>(i, s, c) \<in> set rows. in64 s) \<and>
    rep_TransactionsChecked r' = rep_TransactionsChecked r + int (length rows) \<and>
    rep_AccountsChecked r' = rep_AccountsChecked r \<and> rep_Mismatches r' = rep_Mismatches r \<and>
    rep_UnbalancedTxIDs r' = rep_UnbalancedTxIDs r @ map fst (filter (\<lambda>(i, s, c). s \<noteq> 0 \<or> c < 2) rows)"
  using assms
  by (induction rows r arbitrary: w rule: scanTransactions.induct) (auto simp: ret_inv Let_def split: if_splits)

lemma scanBalances_run:
  "(\<forall>(i, s, c) \<in> set rows. in64 c) \<Longrightarrow> \<exists>r'. scanBalances rows r w = (Ret r', w)"
  by (induction rows r rule: scanBalances.induct) (auto simp: ret_def Let_def)

lemma scanTransactions_run:
  "(\<forall>(i, s, c) \<in> set rows. in64 s) \<Longrightarrow> \<exists>r'. scanTransactions rows r w = (Ret r', w)"
  by (induction rows r rule: scanTransactions.induct) (auto simp: ret_def Let_def)

end
