(* ===== verification/Audit_Properties.thy ===== *)
theory Audit_Properties
  imports Reconciliation Demo
begin

text \<open>Properties of the reconciliation audit and of the transaction runner.\<close>

subsection \<open>Reconciliation\<close>

definition balance_agrees :: "database \<Rightarrow> balance_row \<Rightarrow> bool" where
  "balance_agrees d b \<longleftrightarrow> b_amount b = sum_list (map e_amount (account_entries d (b_account_id b)))"

definition tx_balanced :: "database \<Rightarrow> tx_row \<Rightarrow> bool" where
  "tx_balanced d t \<longleftrightarrow> sum_list (map e_amount (entries_of d (t_id t))) = 0 \<and> 2 \<le> length (entries_of d (t_id t))"

lemma map_fst_filter: "map fst (filter P (map (\<lambda>x. (f x, g x)) xs)) = map f (filter (\<lambda>x. P (f x, g x)) xs)"
  by (induction xs) auto

lemma pool_read:
  assumes "healthy env" and "stmt (pg_clock env (tick w)) (db w) = Inr (x, db w)"
  shows "\<exists>w'. pool_sql env stmt w = (Ret x, w') \<and> db w' = db w"
  using assms by (simp add: pool_sql_def sql_def healthy_def)

lemma reconciliation_report:
  assumes "RunReconciliation env w = (Ret rep, w')"
  shows "db w' = db w" and "rep_AccountsChecked rep = int (length (balances (db w)))"
    and "rep_TransactionsChecked rep = int (length (ledger_transactions (db w)))"
    and "map mm_AccountID (rep_Mismatches rep) = map b_account_id (filter (\<lambda>b. \<not> balance_agrees (db w) b) (balances (db w)))"
    and "rep_UnbalancedTxIDs rep = map t_id (filter (\<lambda>t. \<not> tx_balanced (db w) t) (ledger_transactions (db w)))"
proof -
  let ?rows = "map (\<lambda>b. (b_account_id b, b_amount b, sum_list (map e_amount (account_entries (db w) (b_account_id b))))) (balances (db w))"
  let ?txs = "map (\<lambda>t. (t_id t, sum_list (map e_amount (entries_of (db w) (t_id t))), int (length (entries_of (db w) (t_id t))))) (ledger_transactions (db w))"
  from assms obtain t w0 rows w1 rep1 w2 txs w3 rep2 w4 fin w5 where 0: "goNow env w = (Ret t, w0)"
    and b: "pool_sql env balance_sums_stmt w0 = (Ret rows, w1)"
    and 2: "scanBalances rows \<lparr>rep_RanAt = t, rep_AccountsChecked = 0, rep_TransactionsChecked = 0,
         rep_Mismatches = [], rep_UnbalancedTxIDs = [], rep_Duration = 0\<rparr> w1 = (Ret rep1, w2)"
    and x: "pool_sql env transaction_sums_stmt w2 = (Ret txs, w3)" and 5: "scanTransactions txs rep1 w3 = (Ret rep2, w4)"
    and 6: "goNow env w4 = (Ret fin, w5)" and 7: "ret (rep2\<lparr>rep_Duration := fin - t\<rparr>) w5 = (Ret rep :: Report result, w')"
    unfolding RunReconciliation_def andThen_Ret mapErr_Ret by (elim exE conjE) (rule that; assumption)
  have d0: "db w0 = db w" using 0 by (auto simp: ret_inv)
  then have 1: "rows = ?rows" "db w1 = db w" using b by (auto simp: ret_inv balance_sums_stmt_def)
  have "w2 = w1" using scanBalances_Ret[OF 2] by blast
  then have 3: "txs = ?txs" "db w3 = db w" using x 1(2) by (auto simp: ret_inv transaction_sums_stmt_def)
  have fin: "rep = rep2\<lparr>rep_Duration := fin - t\<rparr>" "db w' = db w4" using 6 7 by (auto simp: ret_inv)
  note sb = scanBalances_Ret[OF 2] and st = scanTransactions_Ret[OF 5]
  show "db w' = db w" using st 3 fin by simp
  show "rep_AccountsChecked rep = int (length (balances (db w)))" using sb st 1 3 fin by simp
  show "rep_TransactionsChecked rep = int (length (ledger_transactions (db w)))" using sb st 1 3 fin by simp
  show "map mm_AccountID (rep_Mismatches rep) = map b_account_id (filter (\<lambda>b. \<not> balance_agrees (db w) b) (balances (db w)))"
    using sb st 1 3 fin by (simp add: map_fst_filter balance_agrees_def)
  have "rep_UnbalancedTxIDs rep = map t_id (filter (\<lambda>t. sum_list (map e_amount (entries_of (db w) (t_id t))) \<noteq> 0 \<or>
      int (length (entries_of (db w) (t_id t))) < 2) (ledger_transactions (db w)))"
    using sb st 1 3 fin by (simp add: map_fst_filter)
  also have "\<dots> = map t_id (filter (\<lambda>t. \<not> tx_balanced (db w) t) (ledger_transactions (db w)))"
    by (intro arg_cong[of _ _ "map t_id"] filter_cong) (auto simp: tx_balanced_def)
  finally show "rep_UnbalancedTxIDs rep = map t_id (filter (\<lambda>t. \<not> tx_balanced (db w) t) (ledger_transactions (db w)))" .
qed

text \<open>
  C26. The audit is exact: a report counts every balance and every transaction, lists exactly the
  accounts whose stored balance differs from the sum of their entries and exactly the transactions
  that do not sum to zero or have fewer than two entries, and changes nothing. It is OK exactly when
  there are none.
\<close>

theorem reconciliation_exact:
  assumes "RunReconciliation env w = (Ret rep, w')"
  shows "db w' = db w \<and> rep_AccountsChecked rep = int (length (balances (db w))) \<and>
    rep_TransactionsChecked rep = int (length (ledger_transactions (db w))) \<and>
    map mm_AccountID (rep_Mismatches rep) = map b_account_id (filter (\<lambda>b. \<not> balance_agrees (db w) b) (balances (db w))) \<and>
    rep_UnbalancedTxIDs rep = map t_id (filter (\<lambda>t. \<not> tx_balanced (db w) t) (ledger_transactions (db w))) \<and>
    (OK rep \<longleftrightarrow> (\<forall>b \<in> set (balances (db w)). balance_agrees (db w) b) \<and> (\<forall>t \<in> set (ledger_transactions (db w)). tx_balanced (db w) t))"
proof -
  have "rep_Mismatches rep = [] \<longleftrightarrow> (\<forall>b \<in> set (balances (db w)). balance_agrees (db w) b)"
    using reconciliation_report(4)[OF assms] by (metis (no_types, lifting) filter_empty_conv map_is_Nil_conv)
  then show ?thesis using reconciliation_report[OF assms] by (simp add: OK_def filter_empty_conv)
qed

theorem reconciliation_exact_witness:
  "\<exists>rep w'. RunReconciliation demo_env W5 = (Ret rep, w') \<and> rep_AccountsChecked rep = 3 \<and> rep_TransactionsChecked rep = 2"
proof -
  have "case fst (RunReconciliation demo_env W5) of Ret _ \<Rightarrow> True | _ \<Rightarrow> False" unfolding W5_eq by code_simp
  then obtain rep w' where 1: "RunReconciliation demo_env W5 = (Ret rep, w')" by (cases "RunReconciliation demo_env W5") (auto split: res.splits)
  from reconciliation_exact[OF 1] 1 show ?thesis by (simp add: W5_eq)
qed

text \<open>
  C27. A ledger that was only ever changed by the service passes its audit: on every reachable
  database, with no statement failing, the audit runs to the end and its report is OK.
\<close>

theorem reconciliation_clean:
  assumes "ledger_reachable uin (db w)" and "healthy env"
  shows "\<exists>rep w'. RunReconciliation env w = (Ret rep, w') \<and> OK rep"
proof -
  note inv = reachable_inv[OF assms(1), unfolded ledger_inv_def core_inv_def]
  have agree: "balance_agrees (db w) b \<and> in64 (sum_list (map e_amount (account_entries (db w) (b_account_id b))))"
    if "b \<in> set (balances (db w))" for b
  proof -
    have "row_ok b" using inv that by (simp add: accounts_ok_def balances_ok_def list_all_iff)
    then show ?thesis using inv that by (simp add: balances_agree_def balance_agrees_def sum_of_def row_ok_def)
  qed
  have zero: "tx_balanced (db w) t" if "t \<in> set (ledger_transactions (db w))" for t
    using inv that by (simp add: double_entry_def tx_balanced_def sum_of_def)
  let ?rows = "map (\<lambda>b. (b_account_id b, b_amount b, sum_list (map e_amount (account_entries (db w) (b_account_id b))))) (balances (db w))"
  let ?txs = "map (\<lambda>t. (t_id t, sum_list (map e_amount (entries_of (db w) (t_id t))), int (length (entries_of (db w) (t_id t))))) (ledger_transactions (db w))"
  have b: "\<exists>r'. scanBalances ?rows r v = (Ret r', v)" for r v
    by (rule scanBalances_run) (use agree in auto)
  have t: "\<exists>r'. scanTransactions ?txs r v = (Ret r', v)" for r v
    by (rule scanTransactions_run) (use zero in \<open>auto simp: tx_balanced_def in64_def\<close>)
  obtain rep w' where run: "RunReconciliation env w = (Ret rep, w')"
  proof -
    obtain w1 where w1: "pool_sql env balance_sums_stmt (tickw w) = (Ret ?rows, w1)" "db w1 = db w"
      using pool_read[OF assms(2), of balance_sums_stmt "tickw w"] by (auto simp: balance_sums_stmt_def)
    obtain r1 where r1: "scanBalances ?rows \<lparr>rep_RanAt = go_clock env (tick w), rep_AccountsChecked = 0, rep_TransactionsChecked = 0,
         rep_Mismatches = [], rep_UnbalancedTxIDs = [], rep_Duration = 0\<rparr> w1 = (Ret r1, w1)" using b by blast
    obtain w2 where w2: "pool_sql env transaction_sums_stmt w1 = (Ret ?txs, w2)"
      using pool_read[OF assms(2), of transaction_sums_stmt w1] w1(2) by (auto simp: transaction_sums_stmt_def)
    obtain r2 where "scanTransactions ?txs r1 w2 = (Ret r2, w2)" using t by blast
    then have "\<exists>r w'. RunReconciliation env w = (Ret r, w')"
      using w1 r1 w2 by (simp add: RunReconciliation_def andThen_def mapErr_def goNow_def ret_def)
    then show ?thesis using that by blast
  qed
  have "map mm_AccountID (rep_Mismatches rep) = []" "rep_UnbalancedTxIDs rep = []"
    using reconciliation_report(4,5)[OF run] agree zero by (simp_all add: filter_empty_conv)
  with run show ?thesis by (auto simp: OK_def)
qed

theorem reconciliation_clean_witness: "\<exists>rep w'. RunReconciliation demo_env W5 = (Ret rep, w') \<and> OK rep"
  by (rule reconciliation_clean[OF reach_W5 demo_healthy])

subsection \<open>Transactions\<close>

text \<open>
  C28. Transactions are all or nothing: whatever the body does and whatever fails, the database
  after \<open>InTx\<close> is the one before it, or the one a single complete run of the body produced from it,
  which passed the deferred triggers. A returned value means the latter; an error with a changed
  database means that the acknowledgement of the COMMIT was lost.
\<close>

theorem in_tx_atomic:
  assumes "InTx env k body w = (r, w')"
  shows "(db w' = db w \<and> (\<forall>x. r \<noteq> Ret x)) \<or>
    (\<exists>x w0 w1. db w0 = db w \<and> body w0 = (Ret x, w1) \<and> deferred_triggers (db w) (db w1) = None \<and> db w' = db w1 \<and>
       (r = Ret x \<or> (\<exists>m. r = Err (Wrap (Sprintf ''storage: commit: %w'' []) (ErrOther m)))))"
  using InTx_outcome[OF assms] unfolding committed_def ack_lost_def by blast

theorem in_tx_atomic_witness:
  "\<exists>w'. InTx demo_env 3 (\<lambda>w. (Err (ErrOther ''x''), w\<lparr>db := empty_database\<rparr>)) W5 = (Err (ErrOther ''x'') :: unit result, w') \<and> db w' = db W5"
proof -
  let ?b = "\<lambda>w. (Err (ErrOther ''x'') :: unit result, w\<lparr>db := empty_database\<rparr>)"
  have "InTx demo_env 3 ?b W5 = (Err (ErrOther ''x''), rollback (db W5) ((begun demo_env W5)\<lparr>db := empty_database\<rparr>))"
    by (rule InTx_healthy_Err[OF demo_healthy]) (simp_all add: retryReason_def)
  from in_tx_atomic[OF this] this show ?thesis by auto
qed

text \<open>
  C29. The delay before a retry is between 5 ms and 505 ms for every attempt up to the 40th. At
  attempt 41 the shift \<open>base << attempt\<close> overflows to a negative number, the cap does not apply, and
  \<open>rand.Int63n\<close> panics.
\<close>

theorem retry_delay_bounds:
  assumes "n \<le> 40"
  shows "(\<exists>t w'. backoff env n w = (Ret t, w') \<and> 5 * 10 ^ 6 \<le> t \<and> t < 505 * 10 ^ 6) \<and>
    fst (backoff env 41 w) = Panic ''invalid argument to Int63n''"
proof
  define p where "p = (2::int) ^ n"
  have "p \<le> 2 ^ 40" unfolding p_def by (rule power_increasing) (use assms in auto)
  moreover have "1 \<le> p" by (simp add: p_def)
  ultimately have "in64 (5 * 10 ^ 6 * p)" "0 < 5 * 10 ^ 6 * p" by (simp_all add: in64_def)
  then have pos: "0 < backoff_delay n" "backoff_delay n \<le> 500 * 10 ^ 6" unfolding p_def
    by (simp_all only: backoff_delay_def Let_def wrap64_id) simp_all
  define j where "j = rnd env (tick w) mod backoff_delay n"
  have "j < backoff_delay n" unfolding j_def using pos(1) by (rule pos_mod_bound)
  then have j: "0 \<le> j" "j < 500 * 10 ^ 6"
    using pos by (simp add: j_def, linarith)
  have "backoff env n w = (Ret (wrap64 (j + 5 * 10 ^ 6)), tickw w)"
    using pos by (simp add: backoff_def andThen_def Int63n_def ret_def j_def)
  moreover have "wrap64 (j + 5 * 10 ^ 6) = j + 5 * 10 ^ 6" using j by (simp add: wrap64_id in64_def)
  ultimately show "\<exists>t w'. backoff env n w = (Ret t, w') \<and> 5 * 10 ^ 6 \<le> t \<and> t < 505 * 10 ^ 6" using j by simp
  have "backoff_delay 41 \<le> 0" by (simp add: backoff_delay_def wrap64_def)
  then show "fst (backoff env 41 w) = Panic ''invalid argument to Int63n''" by (simp add: backoff_def andThen_def Int63n_def)
qed

theorem retry_delay_bounds_witness:
  "(\<exists>t w'. backoff demo_env 4 W0 = (Ret t, w') \<and> 5 * 10 ^ 6 \<le> t \<and> t < 505 * 10 ^ 6)"
  using retry_delay_bounds[of 4 demo_env W0] by simp

end
