(* ===== verification/Strconv.thy ===== *)
theory Strconv
  imports Prelude
begin

text \<open>
  The functions of Go's \<open>strings\<close>, \<open>strconv\<close> and \<open>time\<close> that the configuration, the failpoint
  specifications, the migrations and the cursors use, over bytes. White space is ASCII white
  space; the fraction of a duration is computed exactly, where Go uses \<open>float64\<close>.
\<close>

subsection \<open>strings\<close>

text \<open>\<open>strings.Cut\<close> around a one-byte separator; \<open>None\<close> when it does not occur.\<close>

fun cut :: "char \<Rightarrow> string \<Rightarrow> (string \<times> string) option" where
  "cut sep [] = None"
| "cut sep (c # cs) =
     (if c = sep then Some ([], cs) else map_option (\<lambda>(a, b). (c # a, b)) (cut sep cs))"

text \<open>\<open>before, after, _ := strings.Cut(s, sep)\<close>\<close>

definition cut_or_all :: "char \<Rightarrow> string \<Rightarrow> string \<times> string" where
  "cut_or_all sep s = (case cut sep s of None \<Rightarrow> (s, []) | Some p \<Rightarrow> p)"

text \<open>\<open>strings.Split\<close> on a one-byte separator.\<close>

fun split_on :: "char \<Rightarrow> string \<Rightarrow> string list" where
  "split_on sep [] = [[]]"
| "split_on sep (c # cs) =
     (if c = sep then [] # split_on sep cs
      else (case split_on sep cs of [] \<Rightarrow> [[c]] | p # ps \<Rightarrow> (c # p) # ps))"

definition is_space :: "char \<Rightarrow> bool" where
  "is_space c = List.member [CHR 0x20, CHR 0x09, CHR 0x0A, CHR 0x0B, CHR 0x0C, CHR 0x0D] c"

definition trimSpace :: "string \<Rightarrow> string" where
  "trimSpace s = rev (dropWhile is_space (rev (dropWhile is_space s)))"

definition hasSuffix :: "string \<Rightarrow> string \<Rightarrow> bool" where
  "hasSuffix s suf \<longleftrightarrow> length suf \<le> length s \<and> drop (length s - length suf) s = suf"

definition trimSuffix :: "string \<Rightarrow> string \<Rightarrow> string" where
  "trimSuffix s suf = (if hasSuffix s suf then take (length s - length suf) s else s)"

subsection \<open>strconv\<close>

definition is_digit :: "char \<Rightarrow> bool" where
  "is_digit c \<longleftrightarrow> 48 \<le> (of_char c :: nat) \<and> (of_char c :: nat) \<le> 57"

definition digit_value :: "char \<Rightarrow> nat" where
  "digit_value c = of_char c - 48"

definition digits_value :: "string \<Rightarrow> nat" where
  "digits_value s = foldl (\<lambda>n c. n * 10 + digit_value c) 0 s"

text \<open>\<open>strconv.Atoi\<close>: an optional sign and at least one digit, in the range of \<open>int\<close>.\<close>

definition Atoi :: "string \<Rightarrow> int option" where
  "Atoi s =
     (let (neg, ds) = (case s of [] \<Rightarrow> (False, []) | c # cs \<Rightarrow>
            if c = CHR ''-'' then (True, cs) else if c = CHR ''+'' then (False, cs) else (False, s));
          n = (if neg then - int (digits_value ds) else int (digits_value ds))
      in if ds = [] \<or> \<not> list_all is_digit ds then None else if in64 n then Some n else None)"

definition ParseBool :: "string \<Rightarrow> bool option" where
  "ParseBool s =
     (if List.member [''1'', ''t'', ''T'', ''TRUE'', ''true'', ''True''] s then Some True
      else if List.member [''0'', ''f'', ''F'', ''FALSE'', ''false'', ''False''] s then Some False
      else None)"

subsection \<open>time.ParseDuration\<close>

definition unit_of :: "string \<Rightarrow> nat option" where
  "unit_of u = map_of
     [(''ns'', 1), (''us'', 1000), ([CHR 0xC2, CHR 0xB5, CHR ''s''], 1000), ([CHR 0xCE, CHR 0xBC, CHR ''s''], 1000),
      (''ms'', 1000000), (''s'', 1000000000), (''m'', 60000000000), (''h'', 3600000000000)] u"

definition is_numeral :: "char \<Rightarrow> bool" where
  "is_numeral c \<longleftrightarrow> c = CHR ''.'' \<or> is_digit c"

text \<open>
  One component of a duration, as in \<open>1.5h\<close>: its value in nanoseconds and the rest. The integer
  part, the fraction and the unit; at least one digit, and a unit that is known.
\<close>

definition duration_part :: "string \<Rightarrow> (nat \<times> string) option" where
  "duration_part s =
     (let ds = takeWhile is_digit s; s1 = dropWhile is_digit s;
          (fs, s2) = (case s1 of c # cs \<Rightarrow> if c = CHR ''.'' then (takeWhile is_digit cs, dropWhile is_digit cs) else ([], s1)
                      | [] \<Rightarrow> ([], s1));
          u = takeWhile (\<lambda>c. \<not> is_numeral c) s2; rest = dropWhile (\<lambda>c. \<not> is_numeral c) s2;
          v = digits_value ds; f = digits_value fs
      in if ds = [] \<and> fs = [] then None
         else if v > 2 ^ 63 then None
         else case unit_of u of
           None \<Rightarrow> None
         | Some unit \<Rightarrow>
             if v > 2 ^ 63 div unit then None
             else let total = v * unit + f * unit div 10 ^ length fs
                  in if total > 2 ^ 63 then None else Some (total, rest))"

lemma dropWhile_length: "length (dropWhile P xs) \<le> length xs"
  by (induction xs) auto

lemma duration_part_shrinks:
  assumes "duration_part s = Some (n, rest)"
  shows "length rest < length s"
proof -
  define s1 where "s1 = dropWhile is_digit s"
  define p where "p = (case s1 of c # cs \<Rightarrow> if c = CHR ''.'' then (takeWhile is_digit cs, dropWhile is_digit cs) else ([], s1) | [] \<Rightarrow> ([], s1))"
  have some: "\<not> (takeWhile is_digit s = [] \<and> fst p = [])" and rest: "rest = dropWhile (\<lambda>c. \<not> is_numeral c) (snd p)"
    using assms by (auto simp: duration_part_def Let_def s1_def[symmetric] p_def[symmetric] split_def split: if_splits option.splits)
  have l1: "length s = length (takeWhile is_digit s) + length s1"
    unfolding s1_def by (metis length_append takeWhile_dropWhile_id)
  have l2: "length (fst p) + length (snd p) \<le> length s1" unfolding p_def
    by (auto split: list.splits) (metis length_append takeWhile_dropWhile_id le_SucI order_refl)
  have l3: "length rest \<le> length (snd p)" unfolding rest by (rule dropWhile_length)
  show ?thesis
  proof (cases "takeWhile is_digit s = []")
    case True
    then have "0 < length (fst p)" using some by simp
    with l1 l2 l3 show ?thesis by linarith
  next
    case False
    then have "0 < length (takeWhile is_digit s)" by simp
    with l1 l2 l3 show ?thesis by linarith
  qed
qed

function duration_sum :: "nat \<Rightarrow> string \<Rightarrow> nat option" where
  "duration_sum d s =
     (if s = [] then Some d
      else case duration_part s of
        None \<Rightarrow> None
      | Some (n, rest) \<Rightarrow> if d + n > 2 ^ 63 then None else duration_sum (d + n) rest)"
  by pat_completeness auto
termination by (relation "measure (\<lambda>(d, s). length s)") (auto dest: duration_part_shrinks)

declare duration_sum.simps [simp del]

definition ParseDuration :: "string \<Rightarrow> time option" where
  "ParseDuration orig =
     (let (neg, s) = (case orig of [] \<Rightarrow> (False, []) | c # cs \<Rightarrow>
            if c = CHR ''-'' then (True, cs) else if c = CHR ''+'' then (False, cs) else (False, orig))
      in if s = ''0'' then Some 0
         else if s = [] then None
         else case duration_sum 0 s of
           None \<Rightarrow> None
         | Some d \<Rightarrow> if neg then Some (- int d) else if d > 2 ^ 63 - 1 then None else Some (int d))"

subsection \<open>Facts\<close>

lemma cut_first: "c \<notin> set a \<Longrightarrow> cut c (a @ c # b) = Some (a, b)"
  by (induction a) auto

lemma decimal_digit: "n < 10 \<Longrightarrow> is_digit (char_of (48 + n)) \<and> digit_value (char_of (48 + n)) = n"
  by (simp add: is_digit_def digit_value_def of_char_of)

lemma digits_value_append: "digits_value (s @ [c]) = digits_value s * 10 + digit_value c"
  by (simp add: digits_value_def)

lemma decimal_nat_digits: "list_all is_digit (decimal_nat n) \<and> decimal_nat n \<noteq> [] \<and> digits_value (decimal_nat n) = n"
proof (induction n rule: decimal_nat.induct)
  case (1 n)
  show ?case
  proof (cases "n < 10")
    case True
    then show ?thesis using decimal_digit[OF True] by (simp add: decimal_nat.simps[of n] digits_value_def)
  next
    case False
    have d: "is_digit (char_of (48 + n mod 10))" "digit_value (char_of (48 + n mod 10)) = n mod 10"
      using decimal_digit[of "n mod 10"] by auto
    have "decimal_nat n = decimal_nat (n div 10) @ [char_of (48 + n mod 10)]" using False by (simp add: decimal_nat.simps[of n])
    with 1[OF False] d show ?thesis by (simp add: digits_value_append)
  qed
qed

lemma no_sign: "is_digit c \<Longrightarrow> c \<noteq> CHR ''-'' \<and> c \<noteq> CHR ''+''"
  by (auto simp: is_digit_def)

lemma Atoi_decimal:
  assumes "n < 2 ^ 63"
  shows "Atoi (decimal_nat n) = Some (int n)"
proof -
  obtain c cs where s: "decimal_nat n = c # cs" using decimal_nat_digits[of n] by (cases "decimal_nat n") auto
  have "c \<noteq> CHR ''-''" "c \<noteq> CHR ''+''" using decimal_nat_digits[of n] s no_sign by auto
  moreover have "in64 (int n)" using assms by (simp add: in64_def)
  ultimately show ?thesis using decimal_nat_digits[of n] s by (simp add: Atoi_def)
qed

end
