(* ===== verification/Ledger_Pages.thy ===== *)
theory Ledger_Pages
  imports Ledger_Repo Strconv "HOL-Library.Product_Lexorder"
begin

text \<open>
  \<open>ListEntries\<close> of \<open>internal/ledger/repo.go\<close>: the entries of an account, newest first, in pages
  linked by opaque cursors. A cursor is the unpadded URL base64 of the instant and the identifier
  of the last entry of a page. The text of an instant in RFC 3339 form and its parser are
  parameters; \<open>base64\<close> is modelled here.
\<close>

subsection \<open>base64.RawURLEncoding\<close>

definition b64_alphabet :: string where
  "b64_alphabet = ''ABCDEFGHIJKLMNOPQRSTUVWXYZabcdefghijklmnopqrstuvwxyz0123456789-_''"

definition b64_char :: "nat \<Rightarrow> char" where
  "b64_char n = b64_alphabet ! n"

text \<open>The octets of a string, most significant sextet first.\<close>

fun b64_sextets :: "nat list \<Rightarrow> nat list" where
  "b64_sextets [] = []"
| "b64_sextets [a] = [a div 4, a mod 4 * 16]"
| "b64_sextets [a, b] = [a div 4, a mod 4 * 16 + b div 16, b mod 16 * 4]"
| "b64_sextets (a # b # c # rest) =
     a div 4 # (a mod 4 * 16 + b div 16) # (b mod 16 * 4 + c div 64) # c mod 64 # b64_sextets rest"

definition b64_encode :: "string \<Rightarrow> string" where
  "b64_encode s = map b64_char (b64_sextets (map of_char s))"

text \<open>Decoding ignores the unused low bits of the last sextet; a single sextet is no octet.\<close>

fun b64_octets :: "nat list \<Rightarrow> nat list option" where
  "b64_octets [] = Some []"
| "b64_octets [a] = None"
| "b64_octets [a, b] = Some [a * 4 + b div 16]"
| "b64_octets [a, b, c] = Some [a * 4 + b div 16, b mod 16 * 16 + c div 4]"
| "b64_octets (a # b # c # d # rest) =
     map_option (\<lambda>os. (a * 4 + b div 16) # (b mod 16 * 16 + c div 4) # (c mod 4 * 64 + d) # os) (b64_octets rest)"

fun index_of :: "char \<Rightarrow> char list \<Rightarrow> nat option" where
  "index_of c [] = None"
| "index_of c (x # xs) = (if x = c then Some 0 else map_option Suc (index_of c xs))"

fun b64_values :: "string \<Rightarrow> nat list option" where
  "b64_values [] = Some []"
| "b64_values (c # cs) =
     (case (index_of c b64_alphabet, b64_values cs) of (Some v, Some vs) \<Rightarrow> Some (v # vs) | _ \<Rightarrow> None)"

text \<open>Line breaks in the input are skipped.\<close>

definition b64_decode :: "string \<Rightarrow> string option" where
  "b64_decode s =
     (case b64_values (filter (\<lambda>c. c \<noteq> CHR 0x0A \<and> c \<noteq> CHR 0x0D) s) of
        None \<Rightarrow> None
      | Some vs \<Rightarrow> map_option (map char_of) (b64_octets vs))"

subsection \<open>Cursors\<close>

definition encodeCursor :: "(time \<Rightarrow> string) \<Rightarrow> time \<Rightarrow> string \<Rightarrow> string" where
  "encodeCursor fmt ts i = b64_encode (fmt ts @ ''|'' @ i)"

definition decodeCursor :: "(string \<Rightarrow> time option) \<Rightarrow> string \<Rightarrow> (time \<times> string) option" where
  "decodeCursor parse cursor =
     (case b64_decode cursor of
        None \<Rightarrow> None
      | Some raw \<Rightarrow>
          (case cut CHR ''|'' raw of
             None \<Rightarrow> None
           | Some (tsStr, i) \<Rightarrow> map_option (\<lambda>ts. (ts, i)) (parse tsStr)))"

definition nullUUID :: "string \<Rightarrow> string option" where
  "nullUUID i = (if i = [] then None else Some i)"

subsection \<open>The query\<close>

definition entry_pos :: "Entry \<Rightarrow> time \<times> string" where
  "entry_pos e = (e_created_at e, e_id e)"

text \<open>
  \<open>(created_at, id) < (cursor time, cursor id)\<close>; with a NULL identifier the comparison is only
  true when the instants decide it.
\<close>

definition before_cursor :: "time \<Rightarrow> string option \<Rightarrow> Entry \<Rightarrow> bool" where
  "before_cursor ts i e \<longleftrightarrow>
     (case i of None \<Rightarrow> e_created_at e < ts | Some u \<Rightarrow> entry_pos e < (ts, u))"

definition list_entries_stmt ::
  "env \<Rightarrow> string \<Rightarrow> (time \<times> string) option \<Rightarrow> int \<Rightarrow> time \<Rightarrow> database \<Rightarrow> goerr + Entry list \<times> database" where
  "list_entries_stmt env accountID cursor limit now d =
     (case (case cursor of None \<Rightarrow> Inr None | Some (ts, i) \<Rightarrow> uuid_param env (nullUUID i)) of
        Inl e \<Rightarrow> Inl e
      | Inr u \<Rightarrow>
          (let rows = filter (\<lambda>e. case cursor of None \<Rightarrow> True | Some (ts, i) \<Rightarrow> before_cursor ts u e) (account_entries d accountID)
           in Inr (take (nat limit) (rev (sort_key entry_pos rows)), d)))"

definition ListEntries ::
  "env \<Rightarrow> (time \<Rightarrow> string) \<Rightarrow> (string \<Rightarrow> time option) \<Rightarrow> string \<Rightarrow> int \<Rightarrow> string \<Rightarrow> EntryPage comp" where
  "ListEntries env fmt parse accountID limit0 cursor =
     andThen (GetAccount env accountID) (\<lambda>_.
       let limit = (if limit0 \<le> 0 \<or> limit0 > 500 then 100 else limit0) in
       andThen (if cursor = [] then ret None
                else case decodeCursor parse cursor of
                  None \<Rightarrow> throw (InvalidRequest ''invalid cursor'' [])
                | Some c \<Rightarrow> ret (Some c)) (\<lambda>pos.
       andThen (mapErr (Wrap (Sprintf ''ledger: list entries: %w'' []))
           (pool_sql env (list_entries_stmt env accountID pos (limit + 1)))) (\<lambda>rows.
       if int (length rows) > limit
       then let e = rows ! nat (limit - 1)
            in ret \<lparr>page_Entries = take (nat limit) rows, page_NextCursor = encodeCursor fmt (e_created_at e) (e_id e)\<rparr>
       else ret \<lparr>page_Entries = rows, page_NextCursor = []\<rparr>)))"

end
