(* ===== verification/Page_Properties.thy ===== *)
theory Page_Properties
  imports Ledger_Pages Demo
begin

text \<open>Cursors decode to what they encode, and pages cover the history of an account without gaps.\<close>

subsection \<open>base64\<close>

lemma octets_sextets:
  assumes "\<forall>a \<in> set xs. a < 256"
  shows "b64_octets (b64_sextets xs) = Some xs \<and> (\<forall>v \<in> set (b64_sextets xs). v < 64)"
  using assms
proof (induction xs rule: b64_sextets.induct)
  case (4 a b c rest)
  have bounds: "a < 256" "b < 256" "c < 256" using "4.prems" by auto
  have "a div 4 * 4 + (a mod 4 * 16 + b div 16) div 16 = a" using bounds by simp
  moreover have "(a mod 4 * 16 + b div 16) mod 16 * 16 + (b mod 16 * 4 + c div 64) div 4 = b" using bounds by simp
  moreover have "(b mod 16 * 4 + c div 64) mod 4 * 64 + c mod 64 = c" using bounds by simp
  moreover have "a div 4 < 64" "a mod 4 * 16 + b div 16 < 64" "b mod 16 * 4 + c div 64 < 64"
    using bounds by (simp_all add: less_mult_imp_div_less)
  ultimately show ?case using 4 by simp
qed (auto; presburger)+

lemma alphabet_index: "\<forall>v < 64. index_of (b64_char v) b64_alphabet = Some v \<and> b64_char v \<noteq> CHR 0x0A \<and> b64_char v \<noteq> CHR 0x0D"
  by code_simp

lemma values_chars:
  "\<forall>v \<in> set vs. v < 64 \<Longrightarrow> b64_values (map b64_char vs) = Some vs \<and>
     filter (\<lambda>c. c \<noteq> CHR 0x0A \<and> c \<noteq> CHR 0x0D) (map b64_char vs) = map b64_char vs"
  by (induction vs) (use alphabet_index in auto)

lemma b64_round_trip: "b64_decode (b64_encode s) = Some s"
proof -
  let ?xs = "map of_char s :: nat list"
  have "\<forall>a \<in> set ?xs. a < 256" by auto
  note os = octets_sextets[OF this]
  have "map char_of ?xs = s" by (simp add: comp_def)
  with os values_chars[of "b64_sextets ?xs"] show ?thesis by (simp add: b64_decode_def b64_encode_def)
qed

text \<open>
  C30. Cursors are faithful: decoding the cursor made from an instant and an identifier gives
  them back, provided the text of instants parses to the instant and has no \<open>|\<close> in it (RFC 3339
  text has none).
\<close>

theorem cursor_round_trip:
  assumes "parse (fmt ts) = Some ts" and "CHR ''|'' \<notin> set (fmt ts)"
  shows "decodeCursor parse (encodeCursor fmt ts i) = Some (ts, i)"
  using assms by (simp add: decodeCursor_def encodeCursor_def b64_round_trip cut_first)

definition unary :: "time \<Rightarrow> string" where "unary t = replicate (nat t) CHR ''1''"
definition read_unary :: "string \<Rightarrow> time option" where "read_unary s = Some (int (length s))"

theorem cursor_round_trip_witness: "decodeCursor read_unary (encodeCursor unary 3 ''x|y'') = Some (3, ''x|y'')"
  by (rule cursor_round_trip) (simp_all add: unary_def read_unary_def)

subsection \<open>Pages\<close>

text \<open>The history of an account, newest first, and what is left of it after a position.\<close>

definition history :: "database \<Rightarrow> string \<Rightarrow> Entry list" where
  "history d i = rev (sort_key entry_pos (account_entries d i))"

definition history_after :: "database \<Rightarrow> string \<Rightarrow> (time \<times> string) option \<Rightarrow> Entry list" where
  "history_after d i pos = filter (\<lambda>e. case pos of None \<Rightarrow> True | Some p \<Rightarrow> entry_pos e < p) (history d i)"

definition page_limit :: "int \<Rightarrow> nat" where
  "page_limit limit = nat (if limit \<le> 0 \<or> limit > 500 then 100 else limit)"

lemma history_mset: "mset (history d i) = mset (account_entries d i)"
  by (simp add: history_def)

lemma history_strict:
  assumes "distinct (map e_id (account_entries d i))"
  shows "sorted_wrt (\<lambda>x y. entry_pos y < entry_pos x) (history d i)"
proof -
  let ?xs = "sort_key entry_pos (account_entries d i)"
  have "mset (map e_id ?xs) = mset (map e_id (account_entries d i))" by simp
  then have "distinct (map e_id ?xs)" using assms mset_eq_imp_distinct_iff by blast
  then have "distinct (map entry_pos ?xs)" by (auto simp: distinct_map inj_on_def entry_pos_def)
  then have "sorted_wrt (<) (map entry_pos ?xs)" by (simp add: strict_sorted_iff)
  then have "sorted_wrt (\<lambda>x y. entry_pos x < entry_pos y) ?xs" by (simp add: sorted_wrt_map)
  then show ?thesis by (simp add: history_def sorted_wrt_rev)
qed

lemma filter_below:
  assumes "sorted_wrt (\<lambda>x y. f y < (f x :: 'b :: linorder)) (us @ e # vs)"
  shows "filter (\<lambda>x. f x < f e) (us @ e # vs) = vs"
proof -
  have "filter (\<lambda>x. f x < f e) us = []" using assms by (fastforce simp: filter_empty_conv sorted_wrt_append)
  moreover have "filter (\<lambda>x. f x < f e) vs = vs" using assms by (simp add: filter_id_conv sorted_wrt_append)
  ultimately show ?thesis by simp
qed

lemma history_next:
  assumes "distinct (map e_id (account_entries d i))" and "n < length (history_after d i pos)" and "e = history_after d i pos ! n"
  shows "history_after d i (Some (entry_pos e)) = drop (Suc n) (history_after d i pos)"
proof -
  let ?h = "history_after d i pos"
  have st: "sorted_wrt (\<lambda>x y. entry_pos y < entry_pos x) ?h"
    using history_strict[OF assms(1)] by (simp add: history_after_def sorted_wrt_filter)
  have split: "?h = take n ?h @ e # drop (Suc n) ?h" using assms(2,3) id_take_nth_drop by metis
  have e: "e \<in> set ?h" using assms(2,3) by simp
  have "history_after d i (Some (entry_pos e)) = filter (\<lambda>x. entry_pos x < entry_pos e) ?h"
    using e by (auto simp: history_after_def intro!: filter_cong split: option.splits)
  also have "\<dots> = drop (Suc n) ?h" using filter_below[of entry_pos "take n ?h" e "drop (Suc n) ?h"] st split by simp
  finally show ?thesis .
qed

text \<open>The position a cursor stands for.\<close>

definition cursor_pos :: "(string \<Rightarrow> time option) \<Rightarrow> string \<Rightarrow> (time \<times> string) option" where
  "cursor_pos parse cursor = (if cursor = [] then None else decodeCursor parse cursor)"

lemma stmt_history:
  assumes "pos = None \<or> (\<exists>ts u. pos = Some (ts, u) \<and> u \<noteq> [] \<and> uuid_in env u = Some u)"
  shows "list_entries_stmt env i pos n now d = Inr (take (nat n) (history_after d i pos), d)"
proof -
  have h: "history_after d i pos = rev (sort_key entry_pos (filter (\<lambda>e. case pos of None \<Rightarrow> True | Some p \<Rightarrow> entry_pos e < p) (account_entries d i)))"
    by (simp add: history_after_def history_def rev_filter[symmetric] filter_sort)
  from assms show ?thesis unfolding h
    by (elim disjE exE conjE) (simp_all add: list_entries_stmt_def nullUUID_def uuid_param_def before_cursor_def Let_def)
qed

lemma encodeCursor_nonempty: "encodeCursor fmt ts i \<noteq> []"
proof
  assume "encodeCursor fmt ts i = []"
  then have "b64_decode [] = Some (fmt ts @ ''|'' @ i)" using b64_round_trip[of "fmt ts @ ''|'' @ i"] by (simp add: encodeCursor_def)
  then show False by (simp add: b64_decode_def)
qed

lemma ListEntries_run:
  assumes h: "healthy env" and "account_of (db w) i \<noteq> None"
    and "cursor = [] \<or> (\<exists>ts u. decodeCursor parse cursor = Some (ts, u) \<and> u \<noteq> [] \<and> uuid_in env u = Some u)"
  shows "\<exists>w'. db w' = db w \<and> ListEntries env fmt parse i limit cursor w =
    (let h = history_after (db w) i (cursor_pos parse cursor); n = page_limit limit; e = h ! (n - 1) in
     (Ret \<lparr>page_Entries = take n h,
        page_NextCursor = (if n < length h then encodeCursor fmt (e_created_at e) (e_id e) else [])\<rparr>, w'))"
proof -
  let ?h = "history_after (db w) i (cursor_pos parse cursor)"
  have up: "fault env k = None" "commit_fault env k = None" for k using h by (simp_all add: healthy_def)
  define L where "L = (if limit \<le> 0 \<or> limit > 500 then 100 else limit)"
  have n: "nat L = page_limit limit" "int (page_limit limit) = L" "0 < page_limit limit" by (auto simp: page_limit_def L_def)
  obtain a where a: "account_of (db w) i = Some a" using assms(2) by blast
  have pos: "cursor_pos parse cursor = None \<or> (\<exists>ts u. cursor_pos parse cursor = Some (ts, u) \<and> u \<noteq> [] \<and> uuid_in env u = Some u)"
    using assms(3) by (auto simp: cursor_pos_def)
  have cur: "(if cursor = [] then ret None else case decodeCursor parse cursor of
      None \<Rightarrow> throw (InvalidRequest ''invalid cursor'' []) | Some c \<Rightarrow> ret (Some c)) = ret (cursor_pos parse cursor)"
    using assms(3) by (auto simp: cursor_pos_def)
  define w1 where "w1 = (tickw (w\<lparr>tx_now := pg_clock env (tick w)\<rparr>))\<lparr>db := db w\<rparr>"
  have w1: "db w1 = db w" by (simp add: w1_def)
  have acc: "\<exists>x. GetAccount env i w = (Ret x, w1)"
    by (simp add: GetAccount_def mapErr_def andThen_def pool_sql_def sql_def up select_account_stmt_def a ret_def w1_def)
  define w2 where "w2 = (tickw (w1\<lparr>tx_now := pg_clock env (tick w1)\<rparr>))\<lparr>db := db w1\<rparr>"
  have qry: "mapErr g (pool_sql env (list_entries_stmt env i (cursor_pos parse cursor) (int (page_limit limit) + 1))) w1 =
      (Ret (take (Suc (page_limit limit)) ?h), w2)" for g
    using n by (simp add: mapErr_def pool_sql_def sql_def up stmt_history[OF pos] w1 w2_def nat_add_distrib)
  have idx: "nat (int (page_limit limit) - 1) = page_limit limit - 1" using n(3) by linarith
  have nth: "take (Suc (page_limit limit)) ?h ! (page_limit limit - 1) = ?h ! (page_limit limit - 1)" using n(3) by simp
  have "ListEntries env fmt parse i limit cursor w = (Ret \<lparr>page_Entries = take (page_limit limit) ?h,
      page_NextCursor = (if page_limit limit < length ?h then encodeCursor fmt (e_created_at (?h ! (page_limit limit - 1)))
        (e_id (?h ! (page_limit limit - 1))) else [])\<rparr>, w2)"
    using acc unfolding ListEntries_def Let_def cur L_def[symmetric]
    by (auto simp: andThen_def ret_def qry nth n(2)[symmetric] idx)
  moreover have "db w2 = db w" by (simp add: w2_def w1)
  ultimately show ?thesis unfolding Let_def by blast
qed

text \<open>A client that follows the cursors until there is none.\<close>

fun readAll :: "env \<Rightarrow> (time \<Rightarrow> string) \<Rightarrow> (string \<Rightarrow> time option) \<Rightarrow> string \<Rightarrow> int \<Rightarrow> nat \<Rightarrow> string \<Rightarrow> Entry list comp" where
  "readAll env fmt parse i limit 0 cursor = throw (ErrOther ''too many pages'')"
| "readAll env fmt parse i limit (Suc n) cursor =
     andThen (ListEntries env fmt parse i limit cursor) (\<lambda>page.
       if page_NextCursor page = [] then ret (page_Entries page)
       else andThen (readAll env fmt parse i limit n (page_NextCursor page)) (\<lambda>rest. ret (page_Entries page @ rest)))"

definition cursors_ok :: "env \<Rightarrow> (time \<Rightarrow> string) \<Rightarrow> (string \<Rightarrow> time option) \<Rightarrow> database \<Rightarrow> bool" where
  "cursors_ok env fmt parse d \<longleftrightarrow> distinct (map e_id (ledger_entries d)) \<and>
     (\<forall>e \<in> set (ledger_entries d). e_id e \<noteq> [] \<and> uuid_in env (e_id e) = Some (e_id e) \<and>
        parse (fmt (e_created_at e)) = Some (e_created_at e) \<and> CHR ''|'' \<notin> set (fmt (e_created_at e)))"

lemma account_entries_distinct: "distinct (map e_id (ledger_entries d)) \<Longrightarrow> distinct (map e_id (account_entries d i))"
  unfolding account_entries_def by (rule distinct_map_filter)

lemma history_mem: "e \<in> set (history_after d i pos) \<Longrightarrow> e \<in> set (ledger_entries d)"
  by (auto simp: history_after_def history_def account_entries_def)

lemma readAll_history:
  assumes f: "healthy env" and "account_of (db w) i \<noteq> None" and ok: "cursors_ok env fmt parse (db w)"
    and "cursor = [] \<or> (\<exists>ts u. decodeCursor parse cursor = Some (ts, u) \<and> u \<noteq> [] \<and> uuid_in env u = Some u)"
    and "length (history_after (db w) i (cursor_pos parse cursor)) < n"
  shows "\<exists>w'. db w' = db w \<and> readAll env fmt parse i limit n cursor w = (Ret (history_after (db w) i (cursor_pos parse cursor)), w')"
  using assms(2-)
proof (induction n arbitrary: cursor w)
  case 0
  then show ?case by simp
next
  case (Suc n)
  let ?h = "history_after (db w) i (cursor_pos parse cursor)" and ?n = "page_limit limit"
  let ?e = "?h ! (?n - 1)"
  have n0: "0 < ?n" by (simp add: page_limit_def)
  from ListEntries_run[OF f Suc.prems(1,3), of fmt limit] obtain w1 where w1: "db w1 = db w"
    and run: "ListEntries env fmt parse i limit cursor w = (Ret \<lparr>page_Entries = take ?n ?h,
        page_NextCursor = (if ?n < length ?h then encodeCursor fmt (e_created_at ?e) (e_id ?e) else [])\<rparr>, w1)"
    unfolding Let_def by blast
  show ?case
  proof (cases "?n < length ?h")
    case False
    with run w1 show ?thesis by (simp add: andThen_def ret_def)
  next
    case True
    let ?c = "encodeCursor fmt (e_created_at ?e) (e_id ?e)"
    have e: "?e \<in> set (ledger_entries (db w))" using True n0 by (intro history_mem[of _ _ i "cursor_pos parse cursor"] nth_mem) simp
    then have dec: "decodeCursor parse ?c = Some (e_created_at ?e, e_id ?e)" and u: "e_id ?e \<noteq> []" "uuid_in env (e_id ?e) = Some (e_id ?e)"
      using Suc.prems(2) by (auto simp: cursors_ok_def decodeCursor_def encodeCursor_def b64_round_trip cut_first)
    then have pos: "cursor_pos parse ?c = Some (entry_pos ?e)" by (simp add: cursor_pos_def encodeCursor_nonempty entry_pos_def)
    have d: "distinct (map e_id (account_entries (db w) i))"
      using Suc.prems(2) by (intro account_entries_distinct) (simp add: cursors_ok_def)
    have nxt: "history_after (db w) i (cursor_pos parse ?c) = drop ?n ?h"
      unfolding pos using history_next[OF d, of "?n - 1" "cursor_pos parse cursor" ?e] True n0 by simp
    have "length (drop ?n ?h) < n" using Suc.prems(4) n0 True by simp
    then obtain w2 where w2: "db w2 = db w" "readAll env fmt parse i limit n ?c w1 = (Ret (drop ?n ?h), w2)"
      using Suc.IH[of w1 ?c] Suc.prems(1,2) dec u w1 nxt by auto
    have "readAll env fmt parse i limit (Suc n) cursor w = (Ret (take ?n ?h @ drop ?n ?h), w2)"
      using run True w2(2) by (simp add: andThen_def ret_def encodeCursor_nonempty)
    with w2(1) show ?thesis by (metis append_take_drop_id)
  qed
qed

text \<open>
  C31. Paging is complete: following the cursors from the first page to the last reads every entry
  of the account exactly once, newest first, for every page size, and ends. (No statement fails;
  identifiers are canonical UUIDs and unique, as the primary key guarantees.)
\<close>

theorem paging_complete:
  assumes "healthy env" and "account_of (db w) i \<noteq> None" and "cursors_ok env fmt parse (db w)"
    and "length (account_entries (db w) i) < n"
  shows "\<exists>es w'. readAll env fmt parse i limit n [] w = (Ret es, w') \<and> db w' = db w \<and>
    mset es = mset (account_entries (db w) i) \<and> sorted_wrt (\<lambda>x y. entry_pos y < entry_pos x) es"
proof -
  have h: "history_after (db w) i (cursor_pos parse []) = history (db w) i" by (simp add: history_after_def cursor_pos_def)
  have len: "length (history (db w) i) = length (account_entries (db w) i)" by (simp add: history_def)
  from readAll_history[OF assms(1,2,3), of "[]" n limit] assms(4) h len
  obtain w' where "db w' = db w" "readAll env fmt parse i limit n [] w = (Ret (history (db w) i), w')" by auto
  moreover have "sorted_wrt (\<lambda>x y. entry_pos y < entry_pos x) (history (db w) i)"
    using assms(3) by (intro history_strict account_entries_distinct) (simp add: cursors_ok_def)
  ultimately show ?thesis using history_mset by blast
qed

theorem paging_complete_witness:
  "\<exists>es w'. readAll demo_env unary read_unary ''u'' 1 3 [] W5 = (Ret es, w') \<and> mset es = mset (account_entries (db W5) ''u'')"
proof -
  have a: "account_of (db W5) ''u'' \<noteq> None" by (simp add: account_of_def W5_eq)
  have c: "cursors_ok demo_env unary read_unary (db W5)"
    by (simp add: cursors_ok_def W5_eq demo_env_def unary_def read_unary_def)
  have l: "length (account_entries (db W5) ''u'') < 3" by (simp add: account_entries_def W5_eq)
  from paging_complete[OF demo_healthy a c l, of 1] show ?thesis by blast
qed

end
