(* ===== verification/Migrate.thy ===== *)
theory Migrate
  imports Storage Strconv
begin

text \<open>
  \<open>internal/storage/migrate.go\<close>: the embedded migrations and their application. The files are a
  parameter; so is what a script does to the schema and whether it ends with a COMMIT of its own,
  which closes the transaction it runs in (every later statement of that transaction then
  takes effect at once). The migrations table is the list of applied versions.
\<close>

record Migration =
  mg_Version :: int
  mg_Name :: string
  mg_Up :: string
  mg_Down :: string

subsection \<open>LoadMigrations\<close>

text \<open>The map by version, in the order of insertion.\<close>

definition slot :: "(int \<times> Migration) list \<Rightarrow> int \<Rightarrow> Migration" where
  "slot by v = (case map_of by v of Some m \<Rightarrow> m | None \<Rightarrow> \<lparr>mg_Version = v, mg_Name = [], mg_Up = [], mg_Down = []\<rparr>)"

fun readFiles :: "(string \<times> string) list \<Rightarrow> (int \<times> Migration) list \<Rightarrow> goerr + (int \<times> Migration) list" where
  "readFiles [] by = Inr by"
| "readFiles ((name, body) # files) by =
     (if \<not> hasSuffix name ''.sql'' then readFiles files by
      else case cut CHR ''_'' name of
        None \<Rightarrow> Inl (Wrap (Sprintf ''storage: malformed migration name %q'' [AStr name]) (ErrOther []))
      | Some (versionStr, rest) \<Rightarrow>
          (case Atoi versionStr of
             None \<Rightarrow> Inl (Wrap (Sprintf ''storage: malformed migration version in %q: %w'' [AStr name]) (ErrOther []))
           | Some v \<Rightarrow>
               if hasSuffix rest ''.up.sql'' then
                 readFiles files (AList.update v ((slot by v)\<lparr>mg_Name := trimSuffix rest ''.up.sql'', mg_Up := body\<rparr>) by)
               else if hasSuffix rest ''.down.sql'' then
                 readFiles files (AList.update v ((slot by v)\<lparr>mg_Name := trimSuffix rest ''.down.sql'', mg_Down := body\<rparr>) by)
               else Inl (Wrap (Sprintf ''storage: migration %q is neither .up.sql nor .down.sql'' [AStr name]) (ErrOther []))))"

fun checkComplete :: "Migration list \<Rightarrow> goerr option" where
  "checkComplete [] = None"
| "checkComplete (m # ms) =
     (if mg_Up m = [] then Some (Wrap (Sprintf ''storage: migration %d has no up file'' [AInt (mg_Version m)]) (ErrOther []))
      else if mg_Down m = [] then Some (Wrap (Sprintf ''storage: migration %d has no down file'' [AInt (mg_Version m)]) (ErrOther []))
      else checkComplete ms)"

definition LoadMigrations :: "(string \<times> string) list \<Rightarrow> goerr + Migration list" where
  "LoadMigrations files =
     (case readFiles files [] of
        Inl e \<Rightarrow> Inl e
      | Inr by \<Rightarrow>
          (case checkComplete (map snd by) of
             Some e \<Rightarrow> Inl e
           | None \<Rightarrow> Inr (sort_key mg_Version (map snd by))))"

subsection \<open>The database\<close>

text \<open>
  The schema, the rows of the migrations table, and the transaction: what is committed, and
  whether a transaction block is open.
\<close>

record 's mdata =
  md_schema :: 's
  md_versions :: "(int \<times> string) list"

record 's mworld =
  mw_cur :: "'s mdata"
  mw_base :: "'s mdata"
  mw_open :: bool
  mw_tick :: nat

type_synonym ('s, 'a) mcomp = "'s mworld \<Rightarrow> 'a result \<times> 's mworld"

record 's scripts =
  sc_run :: "string \<Rightarrow> 's \<Rightarrow> goerr + 's"
  sc_commits :: "string \<Rightarrow> bool"

text \<open>A statement; outside a transaction block it commits at once.\<close>

definition mexec :: "env \<Rightarrow> ('s mdata \<Rightarrow> goerr + 'a \<times> 's mdata) \<Rightarrow> ('s, 'a) mcomp" where
  "mexec env f w =
     (let w1 = w\<lparr>mw_tick := mw_tick w + 1\<rparr> in
      case fault env (mw_tick w) of
        Some e \<Rightarrow> (Err e, w1)
      | None \<Rightarrow>
          (case f (mw_cur w) of
             Inl e \<Rightarrow> (Err e, w1)
           | Inr (x, d) \<Rightarrow> (Ret x, if mw_open w then w1\<lparr>mw_cur := d\<rparr> else w1\<lparr>mw_cur := d, mw_base := d\<rparr>)))"

text \<open>A script in the simple protocol; a COMMIT at its end closes the block.\<close>

definition execScript :: "env \<Rightarrow> 's scripts \<Rightarrow> string \<Rightarrow> ('s, unit) mcomp" where
  "execScript env sc script w =
     (case mexec env (\<lambda>d. case sc_run sc script (md_schema d) of Inl e \<Rightarrow> Inl e | Inr x \<Rightarrow> Inr ((), d\<lparr>md_schema := x\<rparr>)) w of
        (Ret u, w') \<Rightarrow> (Ret u, if sc_commits sc script then w'\<lparr>mw_base := mw_cur w', mw_open := False\<rparr> else w')
      | other \<Rightarrow> other)"

definition withTx :: "env \<Rightarrow> ('s, unit) mcomp \<Rightarrow> ('s, unit) mcomp" where
  "withTx env fn w =
     (let w0 = w\<lparr>mw_tick := mw_tick w + 1\<rparr> in
      case fault env (mw_tick w) of
        Some e \<Rightarrow> (Err e, w0)
      | None \<Rightarrow>
          (case fn (w0\<lparr>mw_base := mw_cur w, mw_open := True\<rparr>) of
             (Err e, w1) \<Rightarrow> (Err e, w1\<lparr>mw_cur := mw_base w1, mw_open := False\<rparr>)
           | (Panic p, w1) \<Rightarrow> (Panic p, w1\<lparr>mw_cur := mw_base w1, mw_open := False\<rparr>)
           | (Ret u, w1) \<Rightarrow>
               (let w2 = w1\<lparr>mw_tick := mw_tick w1 + 1, mw_open := False\<rparr> in
                case commit_fault env (mw_tick w1) of
                  Some (CommitFailed e) \<Rightarrow> (Err e, w2\<lparr>mw_cur := mw_base w1\<rparr>)
                | Some (AckLost m) \<Rightarrow> (Err (ErrOther m), w2\<lparr>mw_base := mw_cur w1\<rparr>)
                | None \<Rightarrow> (Ret (), w2\<lparr>mw_base := mw_cur w1\<rparr>))))"

definition createTable :: "env \<Rightarrow> ('s, unit) mcomp" where
  "createTable env = mapErr (Wrap (Sprintf ''storage: create migrations table: %w'' [])) (mexec env (\<lambda>d. Inr ((), d)))"

definition appliedVersions :: "env \<Rightarrow> ('s, int list) mcomp" where
  "appliedVersions env =
     mapErr (Wrap (Sprintf ''storage: read applied migrations: %w'' []))
       (mexec env (\<lambda>d. Inr (map fst (md_versions d), d)))"

text \<open>The version column is the primary key.\<close>

definition recordVersion :: "env \<Rightarrow> Migration \<Rightarrow> ('s, unit) mcomp" where
  "recordVersion env m =
     mexec env (\<lambda>d. if List.member (map fst (md_versions d)) (mg_Version m)
       then Inl (unique_violation ''schema_migrations_pkey'')
       else Inr ((), d\<lparr>md_versions := md_versions d @ [(mg_Version m, mg_Name m)]\<rparr>))"

definition forgetVersion :: "env \<Rightarrow> Migration \<Rightarrow> ('s, unit) mcomp" where
  "forgetVersion env m =
     mexec env (\<lambda>d. Inr ((), d\<lparr>md_versions := filter (\<lambda>p. fst p \<noteq> mg_Version m) (md_versions d)\<rparr>))"

subsection \<open>MigrateUp and MigrateDown\<close>

definition stepUp :: "env \<Rightarrow> 's scripts \<Rightarrow> Migration \<Rightarrow> ('s, unit) mcomp" where
  "stepUp env sc m =
     withTx env (andThen (mapErr (Wrap (Sprintf ''apply %d_%s: %w'' [AInt (mg_Version m), AStr (mg_Name m)]))
       (execScript env sc (mg_Up m))) (\<lambda>_. recordVersion env m))"

definition stepDown :: "env \<Rightarrow> 's scripts \<Rightarrow> Migration \<Rightarrow> ('s, unit) mcomp" where
  "stepDown env sc m =
     withTx env (andThen (mapErr (Wrap (Sprintf ''revert %d_%s: %w'' [AInt (mg_Version m), AStr (mg_Name m)]))
       (execScript env sc (mg_Down m))) (\<lambda>_. forgetVersion env m))"

text \<open>
  Once the loop has started, both return the versions done so far together with the error, if any;
  an error before it is a plain error.
\<close>

fun upLoop :: "env \<Rightarrow> 's scripts \<Rightarrow> int list \<Rightarrow> Migration list \<Rightarrow> int list \<Rightarrow> ('s, int list \<times> goerr option) mcomp" where
  "upLoop env sc applied [] finished = ret (finished, None)"
| "upLoop env sc applied (m # ms) finished =
     (if List.member applied (mg_Version m) then upLoop env sc applied ms finished
      else (\<lambda>w. case stepUp env sc m w of
         (Ret _, w') \<Rightarrow> upLoop env sc applied ms (finished @ [mg_Version m]) w'
       | (Err e, w') \<Rightarrow> (Ret (finished, Some (Wrap (Sprintf ''storage: migrate up: %w'' []) e)), w')
       | (Panic p, w') \<Rightarrow> (Panic p, w')))"

fun downLoop :: "env \<Rightarrow> 's scripts \<Rightarrow> int \<Rightarrow> int list \<Rightarrow> Migration list \<Rightarrow> int list \<Rightarrow> ('s, int list \<times> goerr option) mcomp" where
  "downLoop env sc steps applied [] reverted = ret (reverted, None)"
| "downLoop env sc steps applied (m # ms) reverted =
     (if steps > 0 \<and> int (length reverted) \<ge> steps then ret (reverted, None)
      else if \<not> List.member applied (mg_Version m) then downLoop env sc steps applied ms reverted
      else (\<lambda>w. case stepDown env sc m w of
         (Ret _, w') \<Rightarrow> downLoop env sc steps applied ms (reverted @ [mg_Version m]) w'
       | (Err e, w') \<Rightarrow> (Ret (reverted, Some (Wrap (Sprintf ''storage: migrate down: %w'' []) e)), w')
       | (Panic p, w') \<Rightarrow> (Panic p, w')))"

definition withMigrations ::
  "env \<Rightarrow> (string \<times> string) list \<Rightarrow> (Migration list \<Rightarrow> int list \<Rightarrow> ('s, int list \<times> goerr option) mcomp) \<Rightarrow> ('s, int list \<times> goerr option) mcomp" where
  "withMigrations env files go =
     (case LoadMigrations files of
        Inl e \<Rightarrow> throw e
      | Inr ms \<Rightarrow> andThen (createTable env) (\<lambda>_. andThen (appliedVersions env) (go ms)))"

definition MigrateUp :: "env \<Rightarrow> 's scripts \<Rightarrow> (string \<times> string) list \<Rightarrow> ('s, int list \<times> goerr option) mcomp" where
  "MigrateUp env sc files = withMigrations env files (\<lambda>ms applied. upLoop env sc applied ms [])"

definition MigrateDown :: "env \<Rightarrow> 's scripts \<Rightarrow> (string \<times> string) list \<Rightarrow> int \<Rightarrow> ('s, int list \<times> goerr option) mcomp" where
  "MigrateDown env sc files steps = withMigrations env files (\<lambda>ms applied. downLoop env sc steps applied (rev ms) [])"

definition AppliedVersions :: "env \<Rightarrow> ('s, int list) mcomp" where
  "AppliedVersions env = andThen (mexec env (\<lambda>d. Inr ((), d))) (\<lambda>_. andThen (appliedVersions env) (\<lambda>vs. ret (sort (remdups vs))))"

end
