(* ===== verification/Migrate_Properties.thy ===== *)
theory Migrate_Properties
  imports Migrate Demo "HOL-Library.Sublist"
begin

text \<open>Properties of the migrations: order, repetition, and atomicity of each step.\<close>

subsection \<open>Loading\<close>

definition keyed :: "(int \<times> Migration) list \<Rightarrow> bool" where
  "keyed ms \<longleftrightarrow> distinct (map fst ms) \<and> (\<forall>p \<in> set ms. mg_Version (snd p) = fst p)"

lemma keyed_update:
  assumes "keyed ms" and "mg_Version m = v"
  shows "keyed (AList.update v m ms)"
proof -
  have "\<forall>p \<in> set (AList.update v m ms). mg_Version (snd p) = fst p"
    using assms unfolding keyed_def by (induction ms) auto
  then show ?thesis using assms(1) distinct_update by (auto simp: keyed_def)
qed

lemma slot_version: "keyed ms \<Longrightarrow> mg_Version (slot ms v) = v"
  by (auto simp: slot_def keyed_def split: option.splits dest!: map_of_SomeD)

lemma readFiles_keyed: "readFiles files ms = Inr ms' \<Longrightarrow> keyed ms \<Longrightarrow> keyed ms'"
proof (induction files ms rule: readFiles.induct)
  case (2 name body files ms)
  show ?case
  proof (cases "hasSuffix name ''.sql''")
    case sql: True
    with 2(4) obtain vs rest where c: "cut CHR ''_'' name = Some (vs, rest)" by (cases "cut CHR ''_'' name") auto
    with 2(4) sql obtain v where v: "Atoi vs = Some v" by (cases "Atoi vs") auto
    show ?thesis
    proof (cases "hasSuffix rest ''.up.sql''")
      case True
      from 2(2)[OF _ c refl v True] 2(4,5) sql c v True show ?thesis by (simp add: keyed_update slot_version)
    next
      case False
      show ?thesis
      proof (cases "hasSuffix rest ''.down.sql''")
        case down: True
        from 2(3)[OF _ c refl v False down] 2(4,5) sql c v False down show ?thesis by (simp add: keyed_update slot_version)
      qed (use 2(4) sql c v False in simp)
    qed
  qed (use 2 in simp)
qed simp

lemma LoadMigrations_sorted:
  assumes "LoadMigrations files = Inr list"
  shows "sorted_wrt (<) (map mg_Version list)"
proof -
  from assms obtain bv where r: "readFiles files [] = Inr bv" and l: "list = sort_key mg_Version (map snd bv)"
    by (auto simp: LoadMigrations_def split: sum.splits option.splits)
  have k: "distinct (map fst bv)" "\<forall>p \<in> set bv. mg_Version (snd p) = fst p" using readFiles_keyed[OF r] by (auto simp: keyed_def)
  then have "map mg_Version (map snd bv) = map fst bv" by (induction bv) auto
  then have "distinct (map mg_Version (map snd bv))" using k(1) by metis
  then have "distinct (map mg_Version list)" unfolding l
    by (metis distinct_map mset_eq_imp_distinct_iff mset_map mset_sort set_sort)
  then show ?thesis by (simp add: strict_sorted_iff l)
qed

subsection \<open>One step\<close>

text \<open>No transaction is open and everything is committed.\<close>

definition idle :: "'s mworld \<Rightarrow> bool" where
  "idle w \<longleftrightarrow> \<not> mw_open w \<and> mw_base w = mw_cur w"

definition stepped :: "'s scripts \<Rightarrow> Migration \<Rightarrow> 's mdata \<Rightarrow> 's mdata \<Rightarrow> bool" where
  "stepped sc m d d' \<longleftrightarrow> mg_Version m \<notin> set (map fst (md_versions d)) \<and>
     (\<exists>x. sc_run sc (mg_Up m) (md_schema d) = Inr x \<and>
        d' = d\<lparr>md_schema := x, md_versions := md_versions d @ [(mg_Version m, mg_Name m)]\<rparr>)"

lemma stepUp_Ret:
  assumes "stepUp env sc m w = (Ret u, w')"
  shows "idle w' \<and> stepped sc m (mw_cur w) (mw_cur w')"
  using assms
  by (auto simp: stepUp_def withTx_def Let_def ret_inv recordVersion_def execScript_def mexec_def idle_def stepped_def
      split: option.splits res.splits prod.splits commit_fault.splits sum.splits if_splits)

lemma execScript_open:
  assumes "mw_open w" and "\<not> sc_commits sc script" and "execScript env sc script w = (r, w')"
  shows "mw_open w' \<and> mw_base w' = mw_base w \<and>
    (\<forall>u. r = Ret u \<longrightarrow> (\<exists>x. sc_run sc script (md_schema (mw_cur w)) = Inr x \<and> mw_cur w' = (mw_cur w)\<lparr>md_schema := x\<rparr>))"
  using assms by (auto simp: execScript_def mexec_def Let_def split: option.splits sum.splits)

lemma recordVersion_open:
  assumes "mw_open w" and "recordVersion env m w = (r, w')"
  shows "mw_open w' \<and> mw_base w' = mw_base w \<and>
    (\<forall>u. r = Ret u \<longrightarrow> mg_Version m \<notin> set (map fst (md_versions (mw_cur w))) \<and>
       mw_cur w' = (mw_cur w)\<lparr>md_versions := md_versions (mw_cur w) @ [(mg_Version m, mg_Name m)]\<rparr>)"
  using assms by (auto simp: recordVersion_def mexec_def Let_def split: option.splits if_splits)

text \<open>A transaction whose body does not end it keeps the old state or takes over the new one.\<close>

lemma withTx_atomic:
  assumes "idle w" and run: "withTx env fn w = (r, w')"
    and body: "\<And>v r1 v'. mw_open v \<Longrightarrow> fn v = (r1, v') \<Longrightarrow> mw_base v' = mw_base v \<and> (\<forall>u. r1 = Ret u \<longrightarrow> P (mw_cur v) (mw_cur v'))"
  shows "idle w' \<and> (mw_cur w' = mw_cur w \<or> P (mw_cur w) (mw_cur w'))"
proof (cases "fault env (mw_tick w)")
  case (Some e)
  with assms(1) run show ?thesis by (auto simp: withTx_def idle_def Let_def)
next
  case None
  let ?v = "w\<lparr>mw_tick := mw_tick w + 1, mw_base := mw_cur w, mw_open := True\<rparr>"
  obtain r1 v' where f: "fn ?v = (r1, v')" by fastforce
  have b: "mw_base v' = mw_cur w" "\<forall>u. r1 = Ret u \<longrightarrow> P (mw_cur w) (mw_cur v')" using body[OF _ f] by auto
  show ?thesis using run None f b
    by (cases r1) (auto simp: withTx_def idle_def Let_def split: option.splits commit_fault.splits)
qed

lemma stepUp_atomic:
  assumes "idle w" and "\<not> sc_commits sc (mg_Up m)" and "stepUp env sc m w = (r, w')"
  shows "idle w' \<and> (mw_cur w' = mw_cur w \<or> stepped sc m (mw_cur w) (mw_cur w'))"
proof (rule withTx_atomic[OF assms(1) assms(3)[unfolded stepUp_def]])
  let ?exec = "mapErr (Wrap (Sprintf ''apply %d_%s: %w'' [AInt (mg_Version m), AStr (mg_Name m)])) (execScript env sc (mg_Up m))"
  fix v r1 v' assume o: "mw_open v" and f: "andThen ?exec (\<lambda>_. recordVersion env m) v = (r1, v')"
  obtain rx vx where x: "execScript env sc (mg_Up m) v = (rx, vx)" by fastforce
  obtain ry vy where y: "recordVersion env m vx = (ry, vy)" by fastforce
  note ex = execScript_open[OF o assms(2) x]
  note rv = recordVersion_open[OF conjunct1[OF ex] y]
  show "mw_base v' = mw_base v \<and> (\<forall>u. r1 = Ret u \<longrightarrow> stepped sc m (mw_cur v) (mw_cur v'))"
    using f x y ex rv by (cases rx) (auto simp: andThen_def mapErr_def stepped_def)
qed

subsection \<open>MigrateUp\<close>

lemma upLoop_Ret:
  assumes "upLoop env sc applied ms fin w = (Ret (fin', None), w')" and "idle w"
  shows "idle w' \<and> fin' = fin @ filter (\<lambda>v. v \<notin> set applied) (map mg_Version ms) \<and>
    map fst (md_versions (mw_cur w')) = map fst (md_versions (mw_cur w)) @ filter (\<lambda>v. v \<notin> set applied) (map mg_Version ms)"
  using assms
proof (induction ms arbitrary: fin w)
  case Nil
  then show ?case by (simp add: ret_def)
next
  case (Cons m ms)
  show ?case
  proof (cases "mg_Version m \<in> set applied")
    case True
    with Cons show ?thesis by simp
  next
    case False
    with Cons.prems(1) obtain u w1 where s: "stepUp env sc m w = (Ret u, w1)"
      and r: "upLoop env sc applied ms (fin @ [mg_Version m]) w1 = (Ret (fin', None), w')"
      by (auto split: prod.splits res.splits)
    from stepUp_Ret[OF s] Cons.IH[OF r] False show ?thesis by (auto simp: stepped_def)
  qed
qed

lemma mexec_read:
  assumes "fault env (mw_tick w) = None"
  shows "mexec env (\<lambda>d. Inr (f d, d)) w = (Ret (f (mw_cur w)), (w\<lparr>mw_tick := mw_tick w + 1\<rparr>)\<lparr>mw_cur := mw_cur w, mw_base := (if mw_open w then mw_base w else mw_cur w)\<rparr>)"
  using assms by (simp add: mexec_def Let_def)

lemma mexec_read_Ret:
  assumes "mexec env (\<lambda>d. Inr (f d, d)) w = (Ret x, w1)" and "idle w"
  shows "x = f (mw_cur w) \<and> mw_cur w1 = mw_cur w \<and> idle w1"
  using assms by (auto simp: mexec_def Let_def idle_def split: option.splits if_splits)

lemma MigrateUp_loop:
  assumes "MigrateUp env sc files w = (Ret x, w')" and "LoadMigrations files = Inr ms" and "idle w"
  obtains w1 where "idle w1" and "mw_cur w1 = mw_cur w"
    and "upLoop env sc (map fst (md_versions (mw_cur w))) ms [] w1 = (Ret x, w')"
proof -
  from assms(1,2) obtain u wa vs w1 where t: "mexec env (\<lambda>d. Inr ((), d)) w = (Ret u, wa)"
    and v: "mexec env (\<lambda>d. Inr (map fst (md_versions d), d)) wa = (Ret vs, w1)" and l: "upLoop env sc vs ms [] w1 = (Ret x, w')"
    unfolding MigrateUp_def withMigrations_def by (auto simp: ret_inv createTable_def appliedVersions_def)
  from mexec_read_Ret[OF t assms(3)] have a: "mw_cur wa = mw_cur w" "idle wa" by auto
  from mexec_read_Ret[OF v a(2)] a(1) l show ?thesis by (intro that[of w1]) auto
qed

lemma upLoop_nothing:
  "set (map mg_Version ms) \<subseteq> set applied \<Longrightarrow> upLoop env sc applied ms fin w = (Ret (fin, None), w)"
  by (induction ms) (auto simp: ret_def)

text \<open>
  C34. Migrations run once, in order: when \<open>MigrateUp\<close> succeeds it has applied exactly the versions
  that were missing, in ascending order, and has recorded each of them; a second run without failures
  applies nothing and changes nothing.
\<close>

theorem migrate_up_once:
  assumes "LoadMigrations files = Inr list" and "idle w" and "MigrateUp env sc files w = (Ret (finished, None), w')"
    and "healthy env2"
  shows "finished = filter (\<lambda>v. v \<notin> set (map fst (md_versions (mw_cur w)))) (map mg_Version list) \<and>
    sorted_wrt (<) finished \<and>
    map fst (md_versions (mw_cur w')) = map fst (md_versions (mw_cur w)) @ finished \<and>
    (\<exists>w2. MigrateUp env2 sc files w' = (Ret ([], None), w2) \<and> mw_cur w2 = mw_cur w')"
proof -
  let ?applied = "map fst (md_versions (mw_cur w))"
  from assms(3,1,2) obtain w1 where w1: "idle w1" "mw_cur w1 = mw_cur w" "upLoop env sc ?applied list [] w1 = (Ret (finished, None), w')"
    by (rule MigrateUp_loop)
  from upLoop_Ret[OF w1(3,1)] w1(2) have fin: "finished = filter (\<lambda>v. v \<notin> set ?applied) (map mg_Version list)"
    and rec: "map fst (md_versions (mw_cur w')) = ?applied @ finished" and idle: "idle w'" by auto
  have so: "sorted_wrt (<) finished" unfolding fin by (rule sorted_wrt_filter[OF LoadMigrations_sorted[OF assms(1)]])
  have all: "set (map mg_Version list) \<subseteq> set (map fst (md_versions (mw_cur w')))" unfolding rec by (auto simp: fin)
  have f: "fault env2 n = None" for n using assms(4) by (simp add: healthy_def)
  have "\<exists>w2. MigrateUp env2 sc files w' = (Ret ([], None), w2) \<and> mw_cur w2 = mw_cur w'"
    by (simp add: MigrateUp_def withMigrations_def assms(1) createTable_def appliedVersions_def andThen_def mapErr_def
        mexec_read[OF f] upLoop_nothing[OF all])
  with fin rec so show ?thesis by blast
qed

definition demo_files :: "(string \<times> string) list" where
  "demo_files = [(''0002_b.down.sql'', ''d2''), (''0002_b.up.sql'', ''u2''), (''0001_a.up.sql'', ''u1''), (''0001_a.down.sql'', ''d1''), (''README'', [])]"

definition demo_scripts :: "bool \<Rightarrow> string list scripts" where
  "demo_scripts commits = \<lparr>sc_run = (\<lambda>script s. Inr (s @ [script])), sc_commits = (\<lambda>_. commits)\<rparr>"

definition demo_mworld :: "string list mworld" where
  "demo_mworld = \<lparr>mw_cur = \<lparr>md_schema = [], md_versions = []\<rparr>, mw_base = \<lparr>md_schema = [], md_versions = []\<rparr>, mw_open = False, mw_tick = 0\<rparr>"

definition demo_migrations :: "Migration list" where
  "demo_migrations = [\<lparr>mg_Version = 1, mg_Name = ''a'', mg_Up = ''u1'', mg_Down = ''d1''\<rparr>,
     \<lparr>mg_Version = 2, mg_Name = ''b'', mg_Up = ''u2'', mg_Down = ''d2''\<rparr>]"

lemma demo_loads: "LoadMigrations demo_files = Inr demo_migrations"
  by code_simp

lemma demo_idle: "idle demo_mworld"
  by (simp add: idle_def demo_mworld_def)

lemma demo_up: "fst (MigrateUp demo_env (demo_scripts False) demo_files demo_mworld) = Ret ([1, 2], None)"
  by code_simp

theorem migrate_up_once_witness:
  "\<exists>w' w2. MigrateUp demo_env (demo_scripts False) demo_files demo_mworld = (Ret ([1, 2], None), w') \<and>
     map fst (md_versions (mw_cur w')) = [1, 2] \<and> MigrateUp demo_env (demo_scripts False) demo_files w' = (Ret ([], None), w2)"
proof -
  obtain w' where 1: "MigrateUp demo_env (demo_scripts False) demo_files demo_mworld = (Ret ([1, 2], None), w')"
    using demo_up by (metis prod.collapse)
  from migrate_up_once[OF demo_loads demo_idle 1 demo_healthy] 1 show ?thesis by (auto simp: demo_mworld_def)
qed

subsection \<open>Atomicity\<close>

fun run_all :: "'s scripts \<Rightarrow> Migration list \<Rightarrow> 's \<Rightarrow> 's option" where
  "run_all sc [] s = Some s"
| "run_all sc (m # ms) s = (case sc_run sc (mg_Up m) s of Inl _ \<Rightarrow> None | Inr x \<Rightarrow> run_all sc ms x)"

text \<open>The schema is what the recorded migrations made of it.\<close>

definition in_step :: "'s scripts \<Rightarrow> Migration list \<Rightarrow> 's mdata \<Rightarrow> 's mdata \<Rightarrow> bool" where
  "in_step sc ms d d' \<longleftrightarrow> (\<exists>new. subseq new ms \<and>
     md_versions d' = md_versions d @ map (\<lambda>m. (mg_Version m, mg_Name m)) new \<and> run_all sc new (md_schema d) = Some (md_schema d'))"

lemma in_step_refl: "in_step sc ms d d"
  unfolding in_step_def by (rule exI[of _ "[]"]) simp

lemma in_step_skip: "in_step sc ms d d' \<Longrightarrow> in_step sc (m # ms) d d'"
  unfolding in_step_def by (metis list_emb_Cons)

lemma in_step_cons:
  assumes "stepped sc m d d1" and "in_step sc ms d1 d'"
  shows "in_step sc (m # ms) d d'"
proof -
  from assms(2) obtain new where n: "subseq new ms" "md_versions d' = md_versions d1 @ map (\<lambda>m. (mg_Version m, mg_Name m)) new"
    "run_all sc new (md_schema d1) = Some (md_schema d')" by (auto simp: in_step_def)
  from assms(1) n show ?thesis unfolding in_step_def by (intro exI[of _ "m # new"]) (auto simp: stepped_def)
qed

lemma upLoop_in_step:
  assumes "\<forall>m \<in> set ms. \<not> sc_commits sc (mg_Up m)" and "idle w" and "upLoop env sc applied ms fin w = (r, w')"
  shows "in_step sc ms (mw_cur w) (mw_cur w')"
  using assms
proof (induction ms arbitrary: fin w)
  case Nil
  then show ?case by (simp add: ret_def in_step_refl)
next
  case (Cons m ms)
  show ?case
  proof (cases "mg_Version m \<in> set applied")
    case True
    with Cons show ?thesis by (auto intro!: in_step_skip)
  next
    case False
    obtain r1 w1 where s: "stepUp env sc m w = (r1, w1)" by fastforce
    have at: "idle w1" "mw_cur w1 = mw_cur w \<or> stepped sc m (mw_cur w) (mw_cur w1)"
      using stepUp_atomic[OF Cons.prems(2) _ s] Cons.prems(1) by auto
    have rest: "in_step sc ms (mw_cur w1) (mw_cur w')"
    proof (cases r1)
      case (Ret u)
      with Cons.prems(3) False s have "upLoop env sc applied ms (fin @ [mg_Version m]) w1 = (r, w')" by simp
      from Cons.IH[OF _ at(1) this] Cons.prems(1) show ?thesis by simp
    qed (use Cons.prems(3) False s in_step_refl in auto)
    with at(2) in_step_cons in_step_skip show ?thesis by metis
  qed
qed



text \<open>
  The hypothesis on the scripts is needed: a script with a COMMIT of its own, as in
  \<open>0001_init.up.sql\<close>, stays applied when its version cannot be recorded.
\<close>

theorem migration_half_applied:
  "\<exists>w' e. MigrateUp (demo_env\<lparr>fault := (\<lambda>n. if n = 4 then Some ErrInjected else None)\<rparr>) (demo_scripts True) demo_files demo_mworld
       = (Ret ([], Some e), w') \<and> md_schema (mw_cur w') = [''u1''] \<and> md_versions (mw_cur w') = []"
proof -
  let ?r = "MigrateUp (demo_env\<lparr>fault := (\<lambda>n. if n = 4 then Some ErrInjected else None)\<rparr>) (demo_scripts True) demo_files demo_mworld"
  have 1: "fst ?r = Ret ([], Some (Wrap (Sprintf ''storage: migrate up: %w'' []) ErrInjected))" by code_simp
  have 2: "md_schema (mw_cur (snd ?r)) = [''u1''] \<and> md_versions (mw_cur (snd ?r)) = []" by code_simp
  from 1 2 show ?thesis by (metis prod.collapse)
qed

end
