(* ===== verification/Json.thy ===== *)
theory Json
  imports Publisher Strconv "HOL-Library.Log_Nat"
begin

text \<open>
  What the HTTP API uses of Go's \<open>fmt\<close> and \<open>encoding/json\<close>: the text of a formatted message, a
  map with its members in the order they are marshalled, and decoding a document into a struct
  with \<open>DisallowUnknownFields\<close>. Decoding goes on after an unknown member or a member of the wrong
  type and reports the first such error; a member is matched by its exact name first and then
  without regard to the case of ASCII letters; a later member of the same name overwrites an
  earlier one, and null leaves a string, number or boolean as it was.
\<close>

subsection \<open>Formatted messages\<close>

definition quote_char :: "char \<Rightarrow> string" where
  "quote_char c =
     (if c = CHR 0x22 then [CHR 0x5C, CHR 0x22]
      else if c = CHR 0x5C then [CHR 0x5C, CHR 0x5C]
      else if c = CHR 0x07 then [CHR 0x5C, CHR ''a'']
      else if c = CHR 0x08 then [CHR 0x5C, CHR ''b'']
      else if c = CHR 0x0C then [CHR 0x5C, CHR ''f'']
      else if c = CHR 0x0A then [CHR 0x5C, CHR ''n'']
      else if c = CHR 0x0D then [CHR 0x5C, CHR ''r'']
      else if c = CHR 0x09 then [CHR 0x5C, CHR ''t'']
      else if c = CHR 0x0B then [CHR 0x5C, CHR ''v'']
      else if c < CHR 0x20 \<or> c = CHR 0x7F then
        [CHR 0x5C, CHR ''x''] @ [''0123456789abcdef'' ! (of_char c div 16), ''0123456789abcdef'' ! (of_char c mod 16)]
      else [c])"

text \<open>\<open>%q\<close> of a string: bytes above 0x7F are taken to be printable UTF-8, which is kept.\<close>

definition quote_str :: "string \<Rightarrow> string" where
  "quote_str s = [CHR 0x22] @ concat (map quote_char s) @ [CHR 0x22]"

fun verb :: "char \<Rightarrow> arg \<Rightarrow> string" where
  "verb v (AStr s) = (if v = CHR ''q'' then quote_str s else s)"
| "verb v (AInt i) = decimal i"

fun format_args :: "string \<Rightarrow> arg list \<Rightarrow> string" where
  "format_args [] args = []"
| "format_args [c] args = [c]"
| "format_args (c # v # cs) args =
     (case args of
        a # rest \<Rightarrow> if c = CHR ''%'' then verb v a @ format_args cs rest else c # format_args (v # cs) args
      | [] \<Rightarrow> c # format_args (v # cs) [])"

fun sprintf :: "message \<Rightarrow> string" where
  "sprintf (Sprintf format args) = format_args format args"

subsection \<open>Maps\<close>

text \<open>Assignment to a map, kept as \<open>json.Marshal\<close> writes it: sorted by key.\<close>

fun put_key :: "string \<Rightarrow> 'v \<Rightarrow> (string \<times> 'v) list \<Rightarrow> (string \<times> 'v) list" where
  "put_key k v [] = [(k, v)]"
| "put_key k v ((k', v') # m) =
     (if k = k' then (k, v) # m else if k < k' then (k, v) # (k', v') # m else (k', v') # put_key k v m)"

definition put_all :: "(string \<times> 'v) list \<Rightarrow> (string \<times> 'v) list \<Rightarrow> (string \<times> 'v) list" where
  "put_all kvs m = fold (\<lambda>(k, v). put_key k v) kvs m"

lemma map_of_put_key: "map_of (put_key k v m) = (map_of m)(k \<mapsto> v)"
  by (induction k v m rule: put_key.induct) auto

lemma map_of_put_all: "map_of (put_all kvs m) = map_of m ++ map_of (rev kvs)"
  by (induction kvs arbitrary: m) (auto simp: put_all_def map_of_put_key map_add_def fun_eq_iff split: option.splits)

lemma put_key_keys: "set (map fst (put_key k v m)) = insert k (set (map fst m))"
  by (induction k v m rule: put_key.induct) auto

lemma put_key_sorted:
  "sorted_wrt (<) (map fst m) \<Longrightarrow> sorted_wrt (<) (map fst (put_key k v m))"
proof (induction k v m rule: put_key.induct)
  case (2 k v k' v' m)
  have "\<forall>x \<in> set (map fst (put_key k v m)). k' < x" if "k' < k"
    using 2(2) that unfolding put_key_keys by auto
  with 2 show ?case by (auto simp del: set_map)
qed simp

subsection \<open>Numbers held as \<open>float64\<close>\<close>

text \<open>Rounding to 53 significant bits, ties to even: what a number becomes inside \<open>any\<close>.\<close>

definition float64_int :: "int \<Rightarrow> int" where
  "float64_int n =
     (let a = nat \<bar>n\<bar>; p = 2 ^ (floorlog 2 a - 53); q = a div p; r = a mod p;
          q' = (if 2 * r > p \<or> (2 * r = p \<and> odd q) then q + 1 else q)
      in sgn n * int (q' * p))"

lemma float64_int_exact:
  assumes "\<bar>n\<bar> < 2 ^ 53"
  shows "float64_int n = n"
proof -
  have "nat \<bar>n\<bar> < 2 ^ 53" using assms by (simp add: nat_less_iff)
  then have "floorlog 2 (nat \<bar>n\<bar>) \<le> 53" by (intro floorlog_leI) auto
  then show ?thesis by (simp add: float64_int_def Let_def sgn_mult_abs)
qed

subsection \<open>Decoding\<close>

datatype ftype = TStr | TBool | TInt | TMap | TTime

text \<open>A document decoded into \<open>any\<close>.\<close>

fun asAny :: "json \<Rightarrow> json" where
  "asAny (JNum n) = JNum (float64_int n)"
| "asAny (JArr js) = JArr (map asAny js)"
| "asAny (JObj ms) = JObj (put_all (map (\<lambda>(k, v). (k, asAny v)) ms) [])"
| "asAny j = j"

text \<open>The zero value of a field.\<close>

fun zero_of :: "ftype \<Rightarrow> json" where
  "zero_of TStr = JStr []"
| "zero_of TBool = JBool False"
| "zero_of TInt = JNum 0"
| "zero_of TMap = JNull"
| "zero_of TTime = JNull"

text \<open>
  Storing a document in a field that holds \<open>old\<close>. An instant is kept with the text it marshals
  to again (\<open>time.Time\<close> remembers its zone); parsing it is a parameter.
\<close>

fun store :: "(string \<Rightarrow> (time \<times> string) option) \<Rightarrow> ftype \<Rightarrow> json \<Rightarrow> json \<Rightarrow> json option" where
  "store pt TStr old (JStr s) = Some (JStr s)"
| "store pt TBool old (JBool b) = Some (JBool b)"
| "store pt TInt old (JNum n) = (if in64 n then Some (JNum n) else None)"
| "store pt TMap old (JObj ms) =
     Some (JObj (put_all (map (\<lambda>(k, v). (k, asAny v)) ms) (case old of JObj m \<Rightarrow> m | _ \<Rightarrow> [])))"
| "store pt TTime old (JStr s) = map_option (\<lambda>(t, txt). JArr [JTime t, JStr txt]) (pt s)"
| "store pt TMap old JNull = Some JNull"
| "store pt TTime old JNull = Some JNull"
| "store pt ty old JNull = Some old"
| "store pt ty old j = None"

definition foldName :: "string \<Rightarrow> string" where
  "foldName s = map (\<lambda>c. if CHR ''a'' \<le> c \<and> c \<le> CHR ''z'' then char_of (of_char c - 32 :: nat) else c) s"

definition findField :: "(string \<times> ftype) list \<Rightarrow> string \<Rightarrow> (string \<times> ftype) option" where
  "findField flds name =
     (case map_of flds name of
        Some t \<Rightarrow> Some (name, t)
      | None \<Rightarrow> find (\<lambda>(n, t). foldName n = foldName name) flds)"

definition saveError :: "goerr option \<Rightarrow> goerr \<Rightarrow> goerr option" where
  "saveError saved e = (case saved of None \<Rightarrow> Some e | Some _ \<Rightarrow> saved)"

fun decodeMembers ::
  "(string \<Rightarrow> (time \<times> string) option) \<Rightarrow> (string \<times> ftype) list \<Rightarrow> (string \<times> json) list \<Rightarrow>
   (string \<times> json) list \<Rightarrow> goerr option \<Rightarrow> (string \<times> json) list \<times> goerr option" where
  "decodeMembers pt flds [] vals saved = (vals, saved)"
| "decodeMembers pt flds ((k, j) # ms) vals saved =
     (case findField flds k of
        None \<Rightarrow> decodeMembers pt flds ms vals (saveError saved (ErrOther (''json: unknown field '' @ quote_str k)))
      | Some (n, t) \<Rightarrow>
          (case store pt t (case map_of vals n of None \<Rightarrow> zero_of t | Some v \<Rightarrow> v) j of
             None \<Rightarrow> decodeMembers pt flds ms vals (saveError saved (ErrOther (''json: cannot unmarshal into field '' @ n)))
           | Some v \<Rightarrow> decodeMembers pt flds ms (AList.update n v vals) saved))"

text \<open>The fields a decoded document has set.\<close>

definition decodeStruct ::
  "(string \<Rightarrow> (time \<times> string) option) \<Rightarrow> (string \<times> ftype) list \<Rightarrow> json \<Rightarrow> goerr + (string \<times> json) list" where
  "decodeStruct pt flds doc =
     (case doc of
        JNull \<Rightarrow> Inr []
      | JObj ms \<Rightarrow>
          (case decodeMembers pt flds ms [] None of (vals, None) \<Rightarrow> Inr vals | (vals, Some e) \<Rightarrow> Inl e)
      | _ \<Rightarrow> Inl (ErrOther ''json: cannot unmarshal into a Go struct''))"

definition str_field :: "(string \<times> json) list \<Rightarrow> string \<Rightarrow> string" where
  "str_field vals n = (case map_of vals n of Some (JStr s) \<Rightarrow> s | _ \<Rightarrow> [])"

definition int_field :: "(string \<times> json) list \<Rightarrow> string \<Rightarrow> int" where
  "int_field vals n = (case map_of vals n of Some (JNum i) \<Rightarrow> i | _ \<Rightarrow> 0)"

definition bool_field :: "(string \<times> json) list \<Rightarrow> string \<Rightarrow> bool" where
  "bool_field vals n = (case map_of vals n of Some (JBool b) \<Rightarrow> b | _ \<Rightarrow> False)"

definition map_field :: "(string \<times> json) list \<Rightarrow> string \<Rightarrow> json option" where
  "map_field vals n = (case map_of vals n of Some (JObj m) \<Rightarrow> Some (JObj m) | _ \<Rightarrow> None)"

definition time_field :: "(string \<times> json) list \<Rightarrow> string \<Rightarrow> (time \<times> string) option" where
  "time_field vals n = (case map_of vals n of Some (JArr [JTime t, JStr txt]) \<Rightarrow> Some (t, txt) | _ \<Rightarrow> None)"

subsection \<open>A decoded number fits\<close>

lemma store_in64: "store pt t old j = Some (JNum n) \<Longrightarrow> (\<And>m. old = JNum m \<Longrightarrow> in64 m) \<Longrightarrow> in64 n"
  by (induction pt t old j rule: store.induct) (auto split: if_splits)

lemma decodeMembers_in64:
  assumes "decodeMembers pt flds ms vals saved = (vals', saved')"
    and "\<And>k n. map_of vals k = Some (JNum n) \<Longrightarrow> in64 n" and "map_of vals' k = Some (JNum n)"
  shows "in64 n"
  using assms
proof (induction pt flds ms vals saved rule: decodeMembers.induct)
  case (2 pt flds k j ms vals saved)
  show ?case
  proof (cases "findField flds k")
    case None
    with 2 show ?thesis by simp
  next
    case (Some a)
    then obtain nm t where a: "findField flds k = Some (nm, t)" by (cases a) auto
    let ?old = "case map_of vals nm of None \<Rightarrow> zero_of t | Some v \<Rightarrow> v"
    have old: "in64 m" if "?old = JNum m" for m
      using that 2(5)[of nm m] by (cases t; cases "map_of vals nm") (auto simp: in64_def)
    show ?thesis
    proof (cases "store pt t ?old j")
      case None
      with a 2(2)[OF a refl] 2(4-6) show ?thesis by simp
    next
      case (Some v)
      have "in64 m" if "map_of (AList.update nm v vals) k' = Some (JNum m)" for k' m
        using that 2(5)[of k' m] store_in64[of pt t ?old j m] old Some
        by (auto simp: update_conv' split: if_splits)
      with a Some 2(3)[OF a refl Some] 2(4-6) show ?thesis by simp
    qed
  qed
qed auto

lemma int_field_in64:
  assumes "decodeStruct pt flds doc = Inr vals"
  shows "in64 (int_field vals n)"
proof (cases "map_of vals n")
  case (Some v)
  from assms have "in64 i" if "map_of vals n = Some (JNum i)" for i
    using that decodeMembers_in64[of pt flds _ "[]" None vals None n i]
    by (auto simp: decodeStruct_def split: json.splits prod.splits option.splits)
  with Some show ?thesis by (cases v) (auto simp: int_field_def in64_def)
qed (simp add: int_field_def in64_def)

end
