(* ===== verification/Metrics.thy ===== *)
theory Metrics
  imports Prelude
begin

text \<open>
  \<open>internal/observability/metrics.go\<close>: the collectors of a process and their registration. What the
  Prometheus library does with a sample is not modelled, but that registering a name twice and
  giving a collector the wrong number of labels both panic: the collectors of the library itself are
  an argument.
\<close>

datatype collector_kind = CounterVec | GaugeKind | HistogramVec

record collector =
  co_Kind :: collector_kind
  co_Name :: string
  co_Labels :: "string list"

definition counter :: "string \<Rightarrow> string list \<Rightarrow> collector" where
  "counter name labels = \<lparr>co_Kind = CounterVec, co_Name = name, co_Labels = labels\<rparr>"

definition plainCounter :: "string \<Rightarrow> collector" where
  "plainCounter name = \<lparr>co_Kind = CounterVec, co_Name = name, co_Labels = []\<rparr>"

definition gauge :: "string \<Rightarrow> collector" where
  "gauge name = \<lparr>co_Kind = GaugeKind, co_Name = name, co_Labels = []\<rparr>"

definition HTTPRequests :: collector where
  "HTTPRequests = counter ''ledger_http_requests_total'' [''method'', ''route'', ''status'', ''code'']"
definition HTTPDuration :: collector where
  "HTTPDuration = \<lparr>co_Kind = HistogramVec, co_Name = ''ledger_http_request_duration_seconds'', co_Labels = [''method'', ''route'', ''status'']\<rparr>"
definition RateLimited :: collector where
  "RateLimited = counter ''ledger_rate_limited_total'' [''route'']"

text \<open>In the order of registration; the histogram comes first.\<close>

definition ledgerCollectors :: "collector list" where
  "ledgerCollectors =
     [HTTPDuration, HTTPRequests,
      counter ''ledger_transfers_total'' [''outcome'', ''reason''],
      counter ''ledger_reversals_total'' [''outcome'', ''reason''],
      counter ''ledger_idempotency_total'' [''result'', ''source''],
      counter ''ledger_postgres_retries_total'' [''reason''],
      counter ''ledger_postgres_transactions_total'' [''outcome''],
      counter ''ledger_redis_operations_total'' [''op'', ''result''],
      counter ''ledger_kafka_publish_total'' [''topic'', ''outcome''],
      counter ''ledger_kafka_retry_total'' [''topic''],
      counter ''ledger_kafka_consume_total'' [''topic'', ''outcome''],
      gauge ''ledger_outbox_backlog'',
      plainCounter ''ledger_outbox_dead_letter_total'',
      counter ''ledger_webhook_deliveries_total'' [''outcome''],
      plainCounter ''ledger_webhook_duplicate_total'',
      counter ''ledger_replay_events_total'' [''outcome''],
      plainCounter ''ledger_reconciliation_mismatch_total'',
      counter ''ledger_reconciliation_runs_total'' [''outcome''],
      RateLimited]"

text \<open>\<open>MustRegister\<close> on the collectors registered so far.\<close>

fun MustRegister :: "collector list \<Rightarrow> collector list \<Rightarrow> ('e, collector list) res" where
  "MustRegister reg [] = Ret reg"
| "MustRegister reg (c # cs) =
     (if co_Name c \<in> co_Name ` set reg then Panic ''duplicate metrics collector registration attempted''
      else MustRegister (reg @ [c]) cs)"

text \<open>\<open>lib\<close> are the collectors of the Go runtime and of the process.\<close>

definition NewMetrics :: "collector list \<Rightarrow> ('e, collector list) res" where
  "NewMetrics lib = MustRegister [] (lib @ ledgerCollectors)"

lemma MustRegister_ok:
  "distinct (map co_Name (reg @ cs)) \<Longrightarrow> MustRegister reg cs = Ret (reg @ cs)"
  by (induction reg cs rule: MustRegister.induct) auto

text \<open>The collectors of the ledger never clash with each other, nor with others that are not called \<open>ledger_...\<close>.\<close>

lemma NewMetrics_ok:
  assumes "distinct (map co_Name lib)" and "\<And>c. c \<in> set lib \<Longrightarrow> take 7 (co_Name c) \<noteq> ''ledger_''"
  shows "NewMetrics lib = Ret (lib @ ledgerCollectors)"
proof -
  have "\<forall>c \<in> set ledgerCollectors. take 7 (co_Name c) = ''ledger_''" and "distinct (map co_Name ledgerCollectors)"
    by (simp_all add: ledgerCollectors_def HTTPDuration_def HTTPRequests_def RateLimited_def counter_def plainCounter_def gauge_def)
  then have "distinct (map co_Name (lib @ ledgerCollectors))" using assms by fastforce
  then show ?thesis unfolding NewMetrics_def by (subst MustRegister_ok) simp_all
qed

end
