(* ===== verification/Cache.thy ===== *)
theory Cache
  imports Json Idempotency Metrics
begin

text \<open>
  Redis and its two users: \<open>internal/idempotency/cache.go\<close>, the cache of completed responses, and
  \<open>internal/api/ratelimit.go\<close>, the fixed-window limiter. What Redis answers is a parameter of the
  client: at the \<open>n\<close>-th interaction a command is acknowledged, fails without effect, or takes
  effect and its answer is lost; and before it any keys may have disappeared (expiry, eviction, a
  flush, a fail-over).
\<close>

subsection \<open>Redis\<close>

datatype redis_value = RDoc json | RCount int

type_synonym redis = "string \<Rightarrow> redis_value option"

record redis_client =
  rc_ack :: "nat \<Rightarrow> ack"
  rc_lost :: "nat \<Rightarrow> string \<Rightarrow> bool"

text \<open>
  The outside of an API process beside its database: Redis, the broker's log, the answer written to
  the request in flight with the error code its recorder has noted, and the samples given to the
  collectors of metrics.
\<close>

record outside =
  redis_db :: redis
  kafka_log :: "Message list"
  ans_headers :: "(string \<times> string) list"
  ans_status :: "int option"
  ans_body :: "json list"
  ans_code :: string
  samples :: "(string \<times> string list) list"

type_synonym 'a acomp = "world \<times> outside \<Rightarrow> 'a result \<times> (world \<times> outside)"

definition survive :: "redis_client \<Rightarrow> nat \<Rightarrow> redis \<Rightarrow> redis" where
  "survive rc n m = (\<lambda>k. if rc_lost rc n k then None else m k)"

text \<open>A command that reads a result and writes a new state, on the keys that survived.\<close>

definition redisDo :: "redis_client \<Rightarrow> (redis \<Rightarrow> (goerr + 'a) \<times> redis) \<Rightarrow> (goerr + 'a) acomp" where
  "redisDo rc cmd s =
     (let w = fst s; kept = survive rc (tick w) (redis_db (snd s)); (x, m) = cmd kept;
          left = (\<lambda>m. (tickw w, (snd s)\<lparr>redis_db := m\<rparr>))
      in case rc_ack rc (tick w) of
           Acked \<Rightarrow> (Ret x, left m)
         | NotWritten e \<Rightarrow> (Ret (Inl e), left kept)
         | WrittenUnacked e \<Rightarrow> (Ret (Inl e), left m))"

text \<open>The bytes a GET returns; a counter is its decimal text, a JSON number.\<close>

fun redis_doc :: "redis_value \<Rightarrow> json" where
  "redis_doc (RDoc j) = j"
| "redis_doc (RCount n) = JNum n"

definition redisGet :: "redis_client \<Rightarrow> string \<Rightarrow> (goerr + json option) acomp" where
  "redisGet rc k = redisDo rc (\<lambda>m. (Inr (map_option redis_doc (m k)), m))"

definition redisSet :: "redis_client \<Rightarrow> string \<Rightarrow> json \<Rightarrow> (goerr + unit) acomp" where
  "redisSet rc k j = redisDo rc (\<lambda>m. (Inr (), m(k \<mapsto> RDoc j)))"

text \<open>INCR: an absent key counts from 0; another value or an overflow is an error.\<close>

definition redisIncr :: "redis_client \<Rightarrow> string \<Rightarrow> (goerr + int) acomp" where
  "redisIncr rc k = redisDo rc (\<lambda>m.
     case (case m k of None \<Rightarrow> Some 0 | Some (RCount n) \<Rightarrow> Some n | Some (RDoc (JNum n)) \<Rightarrow> Some n | Some (RDoc _) \<Rightarrow> None) of
       None \<Rightarrow> (Inl (ErrOther ''ERR value is not an integer or out of range''), m)
     | Some n \<Rightarrow>
         if in64 (n + 1) then (Inr (n + 1), m(k \<mapsto> RCount (n + 1)))
         else (Inl (ErrOther ''ERR increment or decrement would overflow''), m))"

subsection \<open>The cache of responses\<close>

record CachedResponse =
  cr_Status :: int
  cr_Body :: "json option"
  cr_RequestHash :: string
  cr_TransactionID :: string

record Cache =
  c_client :: "redis_client option"
  c_ttl :: time
  c_timeout :: time
  c_enabled :: bool

definition NewCache :: "redis_client option \<Rightarrow> time \<Rightarrow> time \<Rightarrow> Cache option" where
  "NewCache client ttl timeout =
     Some \<lparr>c_client = client, c_ttl = ttl, c_timeout = timeout, c_enabled = (client \<noteq> None)\<rparr>"

definition marshalCached :: "CachedResponse \<Rightarrow> json" where
  "marshalCached c = JObj (
     [(''status'', JNum (cr_Status c)), (''body'', case cr_Body c of None \<Rightarrow> JNull | Some b \<Rightarrow> b),
      (''request_hash'', JStr (cr_RequestHash c))]
     @ omit_str ''transaction_id'' (cr_TransactionID c))"

definition unmarshalCached :: "json \<Rightarrow> CachedResponse option" where
  "unmarshalCached j =
     (case j of
        JNull \<Rightarrow> Some \<lparr>cr_Status = 0, cr_Body = None, cr_RequestHash = [], cr_TransactionID = []\<rparr>
      | JObj ms \<Rightarrow>
          (case (as_int (member_of ms ''status''), as_str (member_of ms ''request_hash''), as_str (member_of ms ''transaction_id'')) of
             (Some st, Some h, Some t) \<Rightarrow>
               Some \<lparr>cr_Status = st, cr_Body = map_of (rev ms) ''body'', cr_RequestHash = h, cr_TransactionID = t\<rparr>
           | _ \<Rightarrow> None)
      | _ \<Rightarrow> None)"

definition cacheKey :: "string \<Rightarrow> string \<Rightarrow> string" where
  "cacheKey scope key = ''ledger:idem:'' @ scope @ '':'' @ key"

definition nilPointer :: string where
  "nilPointer = ''invalid memory address or nil pointer dereference''"

definition Get :: "Cache option \<Rightarrow> string \<Rightarrow> string \<Rightarrow> CachedResponse option acomp" where
  "Get cache scope key s =
     (case cache of
        None \<Rightarrow> (Ret None, s)
      | Some c \<Rightarrow>
          if \<not> c_enabled c then (Ret None, s)
          else case c_client c of
            None \<Rightarrow> (Panic nilPointer, s)
          | Some rc \<Rightarrow>
              andThen (redisGet rc (cacheKey scope key)) (\<lambda>r.
                case r of
                  Inl e \<Rightarrow> ret None
                | Inr None \<Rightarrow> ret None
                | Inr (Some raw) \<Rightarrow> ret (unmarshalCached raw)) s)"

definition Put :: "Cache option \<Rightarrow> string \<Rightarrow> string \<Rightarrow> CachedResponse \<Rightarrow> unit acomp" where
  "Put cache scope key resp s =
     (case cache of
        None \<Rightarrow> (Ret (), s)
      | Some c \<Rightarrow>
          if \<not> c_enabled c then (Ret (), s)
          else case c_client c of
            None \<Rightarrow> (Panic nilPointer, s)
          | Some rc \<Rightarrow> andThen (redisSet rc (cacheKey scope key) (marshalCached resp)) (\<lambda>_. ret ()) s)"

subsection \<open>The rate limiter\<close>

record RateLimiter =
  rl_client :: redis_client
  rl_limit :: int
  rl_window :: time
  rl_timeout :: time

definition NewRateLimiter :: "redis_client option \<Rightarrow> int \<Rightarrow> time \<Rightarrow> time \<Rightarrow> RateLimiter option" where
  "NewRateLimiter client limit window timeout =
     (case client of
        None \<Rightarrow> None
      | Some c \<Rightarrow>
          if limit \<le> 0 then None
          else Some \<lparr>rl_client = c, rl_limit = limit, rl_window = window, rl_timeout = timeout\<rparr>)"

text \<open>Integer division of Go truncates towards zero; by zero it panics.\<close>

definition go_quot :: "int \<Rightarrow> int \<Rightarrow> int" where
  "go_quot a b = sgn a * sgn b * (\<bar>a\<bar> div \<bar>b\<bar>)"

definition windowKey :: "(time \<Rightarrow> string) \<Rightarrow> string \<Rightarrow> int \<Rightarrow> string" where
  "windowKey durText key window = ''ledger:rl:'' @ key @ '':'' @ durText window"

text \<open>The EXPIRE of the pipeline only bounds how long the counter lives.\<close>

definition Allow :: "env \<Rightarrow> (time \<Rightarrow> string) \<Rightarrow> RateLimiter option \<Rightarrow> string \<Rightarrow> (bool \<times> time) acomp" where
  "Allow env durText limiter key =
     (case limiter of
        None \<Rightarrow> ret (True, 0)
      | Some l \<Rightarrow>
          andThen (onDB (goNow env)) (\<lambda>now s.
            if rl_window l = 0 then (Panic ''integer divide by zero'', s)
            else andThen (redisIncr (rl_client l) (windowKey durText key (go_quot now (rl_window l)))) (\<lambda>r.
              case r of
                Inl e \<Rightarrow> ret (True, 0)
              | Inr n \<Rightarrow> if n > rl_limit l then ret (False, rl_window l) else ret (True, 0)) s))"

subsection \<open>Facts\<close>

text \<open>The cached form of a response loses nothing.\<close>

lemma cached_round_trip:
  assumes "in64 (cr_Status c)" and "cr_Body c \<noteq> None"
  shows "unmarshalCached (marshalCached c) = Some c"
  using assms by (cases c) (auto simp: marshalCached_def unmarshalCached_def omit_str_def member_of_def)

lemma redisDo_frame:
  assumes "redisDo rc cmd s = (r, s')"
  shows "fst s' = tickw (fst s)" and "kafka_log (snd s') = kafka_log (snd s)"
    and "ans_headers (snd s') = ans_headers (snd s)" and "ans_status (snd s') = ans_status (snd s)"
    and "ans_body (snd s') = ans_body (snd s)" and "\<exists>x. r = Ret x"
  using assms by (auto simp: redisDo_def Let_def split: prod.splits ack.splits)

text \<open>What a command leaves in Redis: a part of what was there, after the command or without it.\<close>

lemma redisDo_redis:
  assumes "redisDo rc cmd s = (r, s')"
  shows "redis_db (snd s') = survive rc (tick (fst s)) (redis_db (snd s)) \<or>
    redis_db (snd s') = snd (cmd (survive rc (tick (fst s)) (redis_db (snd s))))"
  using assms by (auto simp: redisDo_def Let_def split: prod.splits ack.splits)

lemma survive_Some: "survive rc n m k = Some v \<Longrightarrow> m k = Some v"
  by (auto simp: survive_def split: if_splits)

definition redis_sub :: "redis \<Rightarrow> redis \<Rightarrow> bool" where
  "redis_sub m' m \<longleftrightarrow> (\<forall>k v. m' k = Some v \<longrightarrow> m k = Some v)"

lemma redisGet_sub: "redisGet rc k s = (r, s') \<Longrightarrow> redis_sub (redis_db (snd s')) (redis_db (snd s))"
  unfolding redisGet_def by (drule redisDo_redis) (auto simp: redis_sub_def dest: survive_Some)

lemma redisGet_value:
  "redisGet rc k s = (Ret (Inr (Some j)), s') \<Longrightarrow> \<exists>v. redis_db (snd s) k = Some v \<and> j = redis_doc v"
  by (auto simp: redisGet_def redisDo_def Let_def dest: survive_Some split: ack.splits)

subsection \<open>A cache that may forget\<close>

text \<open>
  What the users of Redis rely on: a write adds at most the value written, a read answers only
  with a value that was there, and either may lose anything. Whatever holds of every cached value
  and of the values written therefore holds of every answer.
\<close>

locale weak_cache =
  fixes look :: "'c \<Rightarrow> 'k \<Rightarrow> 'v option"
    and put :: "'k \<Rightarrow> 'v \<Rightarrow> 'c \<Rightarrow> 'c \<Rightarrow> bool"
    and get :: "'k \<Rightarrow> 'c \<Rightarrow> 'v option \<Rightarrow> 'c \<Rightarrow> bool"
  assumes put_look: "put k v c c' \<Longrightarrow> look c' k' = Some v' \<Longrightarrow> look c k' = Some v' \<or> (k' = k \<and> v' = v)"
    and get_look: "get k c x c' \<Longrightarrow> look c' k' = Some v' \<Longrightarrow> look c k' = Some v'"
    and get_value: "get k c (Some v) c' \<Longrightarrow> look c k = Some v"
begin

lemma put_keeps:
  assumes "\<And>k v. look c k = Some v \<Longrightarrow> P k v" and "P k v" and "put k v c c'" and "look c' k' = Some v'"
  shows "P k' v'"
  using put_look[OF assms(3,4)] assms(1,2) by blast

lemma get_keeps:
  assumes "\<And>k v. look c k = Some v \<Longrightarrow> P k v" and "get k c x c'" and "look c' k' = Some v'"
  shows "P k' v'"
  using get_look[OF assms(2,3)] assms(1) by blast

lemma get_answers:
  assumes "\<And>k v. look c k = Some v \<Longrightarrow> P k v" and "get k c (Some v) c'"
  shows "P k v"
  using get_value[OF assms(2)] assms(1) by blast

end

text \<open>The commands as relations on what Redis holds, over every client and every answer.\<close>

definition set_rel :: "string \<Rightarrow> redis_value \<Rightarrow> redis \<Rightarrow> redis \<Rightarrow> bool" where
  "set_rel k v m m' \<longleftrightarrow> (\<exists>rc j s r s'. v = RDoc j \<and> redisSet rc k j s = (r, s') \<and> redis_db (snd s) = m \<and> redis_db (snd s') = m')"

definition get_rel :: "string \<Rightarrow> redis \<Rightarrow> redis_value option \<Rightarrow> redis \<Rightarrow> bool" where
  "get_rel k m x m' \<longleftrightarrow> (\<exists>rc s r s'. redisGet rc k s = (Ret r, s') \<and> redis_db (snd s) = m \<and> redis_db (snd s') = m' \<and>
     (\<forall>v. x = Some v \<longrightarrow> r = Inr (Some (redis_doc v)) \<and> m k = Some v))"

interpretation redis_cache: weak_cache "\<lambda>m. m" set_rel get_rel
proof (unfold_locales, goal_cases)
  case (1 k v m m' k' v')
  then obtain rc j s r s' where e: "v = RDoc j" "redisSet rc k j s = (r, s')" "redis_db (snd s) = m" "redis_db (snd s') = m'"
    unfolding set_rel_def by blast
  from redisDo_redis[OF e(2)[unfolded redisSet_def]] 1(2) e show ?case
    by (auto split: if_splits dest: survive_Some)
next
  case (2 k m x m' k' v')
  then show ?case unfolding get_rel_def using redisGet_sub by (fastforce simp: redis_sub_def)
next
  case (3 k m v m')
  then show ?case unfolding get_rel_def by blast
qed

lemma redisSet_rel: "redisSet rc k j s = (r, s') \<Longrightarrow> set_rel k (RDoc j) (redis_db (snd s)) (redis_db (snd s'))"
  unfolding set_rel_def by blast

lemma redisGet_rel:
  assumes "redisGet rc k s = (Ret (Inr (Some j)), s')"
  shows "\<exists>v. get_rel k (redis_db (snd s)) (Some v) (redis_db (snd s')) \<and> j = redis_doc v"
  using redisGet_value[OF assms] assms unfolding get_rel_def by blast

end
