(* ===== verification/Failpoint_Spec.thy ===== *)
theory Failpoint_Spec
  imports Observability Strconv
begin

text \<open>
  The textual side of \<open>internal/failpoint\<close>: arming from a specification (\<open>Parse\<close>, \<open>Arm\<close>), the
  listing of what is armed (\<open>Active\<close>) and the overrides a request carries in its header
  (\<open>WithRequestFailpoints\<close>). Go ranges over the map of armed actions in any order; the listing
  here keeps the order of the association list.
\<close>

definition newAction :: "string \<Rightarrow> action" where
  "newAction kind = \<lparr>act_kind = kind, act_duration = 0, act_remaining = -1\<rparr>"

definition armed :: "registry option \<Rightarrow> string \<Rightarrow> action \<Rightarrow> registry option" where
  "armed r name act = map_option (\<lambda>reg. reg\<lparr>reg_actions := AList.update name act (reg_actions reg)\<rparr>) r"

definition fpErr :: "string \<Rightarrow> arg list \<Rightarrow> goerr" where
  "fpErr format args = Wrap (Sprintf format args) (ErrOther [])"

text \<open>The registry after the call, with the error, if any.\<close>

definition Arm :: "registry option \<Rightarrow> string \<Rightarrow> string \<Rightarrow> goerr option \<times> registry option" where
  "Arm r name spec =
     (if \<not> Enabled r then (Some (ErrOther ''failpoint: injection is disabled''), r)
      else if \<not> isKnown name then (Some (fpErr ''failpoint: unknown failpoint %q'' [AStr name]), r)
      else
        let (kind, rest) = cut_or_all CHR '':'' spec; act = newAction kind
        in if kind = ''error'' \<or> kind = ''panic'' then
             if rest = [] then (None, armed r name act)
             else (case Atoi rest of
                     None \<Rightarrow> (Some (fpErr ''failpoint: bad count %q for %s'' [AStr rest, AStr name]), r)
                   | Some n \<Rightarrow>
                       if n < 0 then (Some (fpErr ''failpoint: bad count %q for %s'' [AStr rest, AStr name]), r)
                       else (None, armed r name (act\<lparr>act_remaining := n\<rparr>)))
           else if kind = ''sleep'' then
             (case ParseDuration rest of
                None \<Rightarrow> (Some (fpErr ''failpoint: bad duration %q for %s'' [AStr rest, AStr name]), r)
              | Some d \<Rightarrow> (None, armed r name (act\<lparr>act_duration := d\<rparr>)))
           else if kind = ''off'' \<or> kind = [] then (None, Disarm r name)
           else (Some (fpErr ''failpoint: unknown action %q'' [AStr kind]), r))"

fun parseParts :: "registry option \<Rightarrow> string list \<Rightarrow> goerr option \<times> registry option" where
  "parseParts r [] = (None, r)"
| "parseParts r (p # ps) =
     (let part = trimSpace p in
      if part = [] then parseParts r ps
      else case cut CHR ''='' part of
        None \<Rightarrow> (Some (fpErr ''failpoint: malformed spec %q'' [AStr part]), r)
      | Some (name, rhs) \<Rightarrow>
          (case Arm r (trimSpace name) (trimSpace rhs) of
             (Some e, r') \<Rightarrow> (Some e, r')
           | (None, r') \<Rightarrow> parseParts r' ps))"

definition Parse :: "registry option \<Rightarrow> string \<Rightarrow> goerr option \<times> registry option" where
  "Parse r spec =
     (if r = None \<or> trimSpace spec = [] then (None, r) else parseParts r (split_on CHR '','' spec))"

text \<open>\<open>time.Duration.String\<close> is a parameter of the listing.\<close>

definition describe :: "(time \<Rightarrow> string) \<Rightarrow> action \<Rightarrow> string" where
  "describe durString act =
     (if act_kind act = ''sleep'' then act_kind act @ '':'' @ durString (act_duration act)
      else if act_remaining act \<ge> 0 then act_kind act @ '':'' @ decimal (act_remaining act)
      else act_kind act)"

definition Active :: "(time \<Rightarrow> string) \<Rightarrow> registry option \<Rightarrow> (string \<times> string) list" where
  "Active durString r =
     (case r of None \<Rightarrow> [] | Some reg \<Rightarrow> map (\<lambda>(name, act). (name, describe durString act)) (reg_actions reg))"

subsection \<open>Overrides of a request\<close>

fun overrideParts :: "string list \<Rightarrow> (string \<times> action) list \<Rightarrow> goerr + (string \<times> action) list" where
  "overrideParts [] acc = Inr acc"
| "overrideParts (p # ps) acc =
     (let part = trimSpace p in
      if part = [] then overrideParts ps acc
      else case cut CHR ''='' part of
        None \<Rightarrow> Inl (fpErr ''failpoint: malformed override %q'' [AStr part])
      | Some (name0, rhs) \<Rightarrow>
          (let name = trimSpace name0; (kind, rest) = cut_or_all CHR '':'' (trimSpace rhs) in
           if \<not> isKnown name then Inl (fpErr ''failpoint: unknown failpoint %q'' [AStr name])
           else if kind = ''sleep'' then
             (case ParseDuration rest of
                None \<Rightarrow> Inl (fpErr ''failpoint: bad duration %q'' [AStr rest])
              | Some d \<Rightarrow> overrideParts ps (AList.update name ((newAction kind)\<lparr>act_duration := d\<rparr>) acc))
           else if kind \<noteq> ''error'' \<and> kind \<noteq> ''panic'' then
             Inl (fpErr ''failpoint: unknown action %q'' [AStr kind])
           else overrideParts ps (AList.update name (newAction kind) acc)))"

definition WithRequestFailpoints :: "ctx \<Rightarrow> string \<Rightarrow> goerr + ctx" where
  "WithRequestFailpoints c spec =
     (case overrideParts (split_on CHR '','' spec) [] of
        Inl e \<Rightarrow> Inl e
      | Inr ovs \<Rightarrow> if ovs = [] then Inr c else Inr (c\<lparr>cx_failpoints := Some ovs\<rparr>))"

subsection \<open>What a specification arms\<close>

lemma cut_kind: "CHR '':'' \<notin> set k \<Longrightarrow> cut_or_all CHR '':'' (k @ '':'' @ rest) = (k, rest)"
  by (simp add: cut_or_all_def cut_first)

text \<open>
  C32. A counted failpoint fires exactly as often as it was armed for: after \<open>error:k\<close> has been
  armed for a known failpoint of an enabled registry, the next \<open>k\<close> evaluations fail and every
  later one succeeds; the text of the count is read back as the count.
\<close>

theorem armed_fires_count:
  assumes "reg_enabled reg" and "isKnown name" and "k < 2 ^ 63"
    and "Arm (Some reg) name (''error:'' @ decimal_nat k) = (err, r)"
  shows "err = None \<and> eval_n (k + n) r name =
    replicate k (Err (Wrap (Sprintf ''%w at %s'' [AStr name]) ErrInjected)) @ replicate n (Ret ())"
proof -
  have c: "cut_or_all CHR '':'' (''error:'' @ decimal_nat k) = (''error'', decimal_nat k)"
    using cut_kind[of "''error''" "decimal_nat k"] by simp
  have "Arm (Some reg) name (''error:'' @ decimal_nat k) =
      (None, armed (Some reg) name ((newAction ''error'')\<lparr>act_remaining := int k\<rparr>))"
    using assms(1,2) decimal_nat_digits[of k] Atoi_decimal[OF assms(3)]
    by (simp only: Arm_def c Let_def prod.case Enabled_def option.case) simp
  then have r: "err = None" "r = Some (reg\<lparr>reg_actions := AList.update name ((newAction ''error'')\<lparr>act_remaining := int k\<rparr>) (reg_actions reg)\<rparr>)"
    using assms(4) by (simp_all add: armed_def)
  show ?thesis unfolding r(2)
    by (intro conjI r(1), rule eval_n_counted[where act = "(newAction ''error'')\<lparr>act_remaining := int k\<rparr>"])
      (use assms(1) in \<open>simp_all add: newAction_def update_conv'\<close>)
qed

theorem armed_fires_count_witness:
  "\<exists>r. Arm (NewRegistry True) BeforeCommit ''error:2'' = (None, r) \<and>
     eval_n 3 r BeforeCommit = replicate 2 (Err (Wrap (Sprintf ''%w at %s'' [AStr BeforeCommit]) ErrInjected)) @ [Ret ()]"
proof -
  let ?reg = "\<lparr>reg_enabled = True, reg_actions = []\<rparr>"
  have k: "isKnown BeforeCommit" by (simp add: isKnown_def All_def)
  have d: "''error:'' @ decimal_nat 2 = ''error:2''" by code_simp
  obtain err r where a: "Arm (Some ?reg) BeforeCommit (''error:'' @ decimal_nat 2) = (err, r)" by (meson surj_pair)
  have e: "reg_enabled ?reg" and b: "(2::nat) < 2 ^ 63" by simp_all
  from armed_fires_count[OF e k b a, of 1] have "err = None" and "eval_n (2 + 1) r BeforeCommit =
      replicate 2 (Err (Wrap (Sprintf ''%w at %s'' [AStr BeforeCommit]) ErrInjected)) @ replicate 1 (Ret ())" by blast+
  moreover have "(2::nat) + 1 = 3" by simp
  ultimately show ?thesis using a unfolding d NewRegistry_def by (intro exI[of _ r]) simp
qed

text \<open>A count after \<open>sleep:\<close> is read as a duration, and refused for want of a unit.\<close>

lemma sleep_takes_no_count:
  assumes "Enabled r" and "isKnown name"
  shows "fst (Arm r name ''sleep:2'') = Some (fpErr ''failpoint: bad duration %q for %s'' [AStr ''2'', AStr name]) \<and>
    fst (Arm r name ''error:2'') = None"
proof -
  have "duration_part ''2'' = None"
    by (simp add: duration_part_def is_digit_def digits_value_def digit_value_def unit_of_def)
  then have "ParseDuration ''2'' = None" by (simp add: ParseDuration_def duration_sum.simps)
  moreover have "Atoi ''2'' = Some 2" by (simp add: Atoi_def is_digit_def digits_value_def digit_value_def in64_def)
  moreover have "cut_or_all CHR '':'' ''sleep:2'' = (''sleep'', ''2'')" "cut_or_all CHR '':'' ''error:2'' = (''error'', ''2'')"
    by (simp_all add: cut_or_all_def)
  ultimately show ?thesis using assms by (simp add: Arm_def)
qed

end
