(* ===== verification/Api.thy ===== *)
theory Api
  imports Cache Ledger_Service Ledger_Pages Reconciliation Failpoint_Spec
begin

text \<open>
  \<open>internal/api\<close>: the HTTP server. A handler is a call on the world and its outside that writes
  an answer (headers, status, documents of the body). A request body is the first document of its
  first 1 MiB, or the reason why there is none. SHA-256 over bytes, the bytes of a marshalled
  document, the RFC 3339 texts of \<open>time\<close> and \<open>Duration.String\<close> are functions of the server's
  library record. Access logs are left out.
\<close>

subsection \<open>The server\<close>

record golib =
  lib_sha256 :: "string \<Rightarrow> string"
  lib_marshal :: "json \<Rightarrow> goerr + string"
  lib_formatTime :: "time \<Rightarrow> string"
  lib_parseTime :: "string \<Rightarrow> (time \<times> string) option"
  lib_durText :: "time \<Rightarrow> string"

record Server =
  s_cfg :: Config
  s_db :: env
  s_cache :: "Cache option"
  s_limiter :: "RateLimiter option"
  s_producer :: broker
  s_redis :: "redis_client option"
  s_lib :: golib

record Options =
  op_Config :: Config
  op_DB :: env
  op_Cache :: "Cache option"
  op_Redis :: "redis_client option"
  op_Producer :: broker

definition NewServer :: "golib \<Rightarrow> Options \<Rightarrow> Server" where
  "NewServer lib opts =
     \<lparr>s_cfg = op_Config opts, s_db = op_DB opts, s_cache = op_Cache opts,
      s_limiter = (if RateLimitEnabled (op_Config opts)
        then NewRateLimiter (op_Redis opts) (RateLimitRPS (op_Config opts)) (10 ^ 9) (RedisTimeout (op_Config opts)) else None),
      s_producer = op_Producer opts, s_redis = op_Redis opts, s_lib = lib\<rparr>"

datatype body = Unreadable | Malformed string | Document json

record request =
  hr_Method :: string
  hr_Header :: "string \<Rightarrow> string"
  hr_PathID :: string
  hr_Query :: "string \<Rightarrow> string"
  hr_Body :: body
  hr_ContentLength :: int
  hr_RemoteAddr :: string
  hr_Context :: ctx

type_synonym handler = "request \<Rightarrow> unit acomp"

subsection \<open>Writing the answer\<close>

definition setHeader :: "string \<Rightarrow> string \<Rightarrow> unit acomp" where
  "setHeader k v s = (Ret (), (fst s, (snd s)\<lparr>ans_headers := AList.update k v (ans_headers (snd s))\<rparr>))"

text \<open>\<open>WriteHeader\<close> counts once, and panics on a status that has not three digits.\<close>

definition writeHeader :: "int \<Rightarrow> unit acomp" where
  "writeHeader status s =
     (if ans_status (snd s) \<noteq> None then (Ret (), s)
      else if status < 100 \<or> status > 999 then (Panic ''invalid WriteHeader code'', s)
      else (Ret (), (fst s, (snd s)\<lparr>ans_status := Some status\<rparr>)))"

definition writeDoc :: "json \<Rightarrow> unit acomp" where
  "writeDoc j s = (Ret (), (fst s, (snd s)\<lparr>ans_body := ans_body (snd s) @ [j]\<rparr>))"

definition writeJSON :: "int \<Rightarrow> json \<Rightarrow> unit acomp" where
  "writeJSON status j =
     andThen (setHeader ''Content-Type'' ''application/json'') (\<lambda>_.
     andThen (writeHeader status) (\<lambda>_. writeDoc j))"

definition writeRaw :: "int \<Rightarrow> json option \<Rightarrow> unit acomp" where
  "writeRaw status b =
     andThen (setHeader ''Content-Type'' ''application/json'') (\<lambda>_.
     andThen (writeHeader status) (\<lambda>_. case b of None \<Rightarrow> ret () | Some j \<Rightarrow> writeDoc j))"

fun arg_doc :: "arg \<Rightarrow> json" where
  "arg_doc (AStr s) = JStr s"
| "arg_doc (AInt i) = JNum i"

definition errorResponse :: "Code \<Rightarrow> message \<Rightarrow> (string \<times> arg) list \<Rightarrow> string \<Rightarrow> json" where
  "errorResponse code m details requestID = JObj [(''error'', JObj (
     [(''code'', JStr (code_string code)), (''message'', JStr (sprintf m))]
     @ (if details = [] then [] else [(''details'', JObj (put_all (map (\<lambda>(k, v). (k, arg_doc v)) details) []))])
     @ omit_str ''request_id'' requestID))]"

fun err_message :: "goerr \<Rightarrow> message" where
  "err_message (AppError c m ds cause) = m"
| "err_message e = Sprintf [] []"

fun err_details :: "goerr \<Rightarrow> (string \<times> arg) list" where
  "err_details (AppError c m ds cause) = ds"
| "err_details e = []"

text \<open>The recorder's note of the code of an error, for the labels of metrics.\<close>

definition recordCode :: "string \<Rightarrow> unit acomp" where
  "recordCode c s = (Ret (), (fst s, (snd s)\<lparr>ans_code := c\<rparr>))"

definition writeError :: "request \<Rightarrow> goerr \<Rightarrow> unit acomp" where
  "writeError r err =
     (let appErr = From err
      in andThen (recordCode (code_string (err_code appErr))) (\<lambda>_.
         writeJSON (HTTPStatus (err_code appErr))
           (errorResponse (err_code appErr) (err_message appErr) (err_details appErr) (RequestID (hr_Context r)))))"

text \<open>\<open>if err != nil { s.writeError(w, r, err); return }\<close>\<close>

definition orError :: "request \<Rightarrow> 'a acomp \<Rightarrow> ('a \<Rightarrow> unit acomp) \<Rightarrow> unit acomp" where
  "orError r m k = andThen (attempt m) (\<lambda>x. case x of Inl e \<Rightarrow> writeError r e | Inr y \<Rightarrow> k y)"

definition lift :: "goerr + 'a \<Rightarrow> 'a acomp" where
  "lift x = (case x of Inl e \<Rightarrow> throw e | Inr y \<Rightarrow> ret y)"

definition onKafka :: "'a kcomp \<Rightarrow> 'a acomp" where
  "onKafka m s = (case m (fst s, kafka_log (snd s)) of (r, (w', l)) \<Rightarrow> (r, (w', (snd s)\<lparr>kafka_log := l\<rparr>)))"

subsection \<open>Idempotency helpers\<close>

definition HeaderRequestID :: string where "HeaderRequestID = ''X-Request-Id''"
definition HeaderCorrelationID :: string where "HeaderCorrelationID = ''X-Correlation-Id''"
definition HeaderIdempotencyKey :: string where "HeaderIdempotencyKey = ''Idempotency-Key''"
definition HeaderFailpoint :: string where "HeaderFailpoint = ''X-Failpoint''"
definition HeaderIdempotentHit :: string where "HeaderIdempotentHit = ''X-Idempotent-Replay''"

definition scopeCreateAccount :: string where "scopeCreateAccount = ''POST /v1/accounts''"
definition scopeTransfer :: string where "scopeTransfer = ''POST /v1/transfers''"
definition scopeReverse :: string where "scopeReverse = ''POST /v1/transactions/reverse''"
definition scopeReplay :: string where "scopeReplay = ''POST /v1/replay''"

lemmas scope_defs = scopeCreateAccount_def scopeTransfer_def scopeReverse_def scopeReplay_def

definition idempotencyKey :: "request \<Rightarrow> goerr + string" where
  "idempotencyKey r =
     (let key = hr_Header r HeaderIdempotencyKey
      in if key = [] then Inl (InvalidRequest ''%s header is required for all mutating requests'' [AStr HeaderIdempotencyKey])
         else if length key > 255 then Inl (InvalidRequest ''%s must be at most 255 characters'' [AStr HeaderIdempotencyKey])
         else Inr key)"

definition decodeJSON :: "Server \<Rightarrow> (string \<times> ftype) list \<Rightarrow> request \<Rightarrow> goerr + (string \<times> json) list" where
  "decodeJSON srv flds r =
     (case hr_Body r of
        Unreadable \<Rightarrow> Inl (InvalidRequest ''could not read request body'' [])
      | Malformed txt \<Rightarrow> Inl (InvalidRequest ''malformed JSON body: %s'' [AStr txt])
      | Document j \<Rightarrow>
          (case decodeStruct (lib_parseTime (s_lib srv)) flds j of
             Inl e \<Rightarrow> Inl (InvalidRequest ''malformed JSON body: %s'' [AStr (err_text (s_db srv) e)])
           | Inr vals \<Rightarrow> Inr vals))"

definition hex :: "string \<Rightarrow> string" where
  "hex bs = concat (map (\<lambda>c. [''0123456789abcdef'' ! (of_char c div 16), ''0123456789abcdef'' ! (of_char c mod 16)]) bs)"

definition HashRequest :: "golib \<Rightarrow> string \<Rightarrow> json \<Rightarrow> goerr + string" where
  "HashRequest lib scope payload =
     (case lib_marshal lib payload of
        Inl e \<Rightarrow> Inl (Wrap (Sprintf ''idempotency: hash request: %w'' []) e)
      | Inr bytes \<Rightarrow> Inr (hex (lib_sha256 lib (scope @ [CHR 0x00] @ bytes))))"

definition hashed :: "Server \<Rightarrow> string \<Rightarrow> json \<Rightarrow> goerr + string" where
  "hashed srv scope payload = (case HashRequest (s_lib srv) scope payload of Inl e \<Rightarrow> Inl (Internal e) | Inr h \<Rightarrow> Inr h)"

definition replayFromCache :: "Server \<Rightarrow> request \<Rightarrow> string \<Rightarrow> string \<Rightarrow> string \<Rightarrow> bool acomp" where
  "replayFromCache srv r scope key hash =
     andThen (Get (s_cache srv) scope key) (\<lambda>cached.
       case cached of
         None \<Rightarrow> ret False
       | Some c \<Rightarrow>
           if cr_RequestHash c \<noteq> hash then andThen (writeError r (Conflict key)) (\<lambda>_. ret True)
           else andThen (setHeader HeaderIdempotentHit ''true'') (\<lambda>_.
                andThen (writeRaw (cr_Status c) (cr_Body c)) (\<lambda>_. ret True)))"

definition finishIdempotent :: "Server \<Rightarrow> string \<Rightarrow> string \<Rightarrow> string \<Rightarrow> Result \<Rightarrow> unit acomp" where
  "finishIdempotent srv scope key hash result =
     (let txID = (case res_Transaction result of None \<Rightarrow> [] | Some t \<Rightarrow> tx_ID t)
      in andThen (Put (s_cache srv) scope key \<lparr>cr_Status = res_ResponseStatus result, cr_Body = res_ResponseBody result,
             cr_RequestHash = hash, cr_TransactionID = txID\<rparr>) (\<lambda>_.
         andThen (if res_Replayed result then setHeader HeaderIdempotentHit ''true'' else ret ()) (\<lambda>_.
         writeRaw (res_ResponseStatus result) (res_ResponseBody result))))"

text \<open>
  What the three mutations of the ledger share once the request is decoded: hash the payload, try
  the cache, run the use case, record the answer in the cache.
\<close>

definition mutate :: "Server \<Rightarrow> request \<Rightarrow> string \<Rightarrow> string \<Rightarrow> json \<Rightarrow> (string \<Rightarrow> Result comp) \<Rightarrow> unit acomp" where
  "mutate srv r scope key payload run =
     orError r (lift (hashed srv scope payload)) (\<lambda>hash.
     andThen (replayFromCache srv r scope key hash) (\<lambda>replayed.
       if replayed then ret ()
       else orError r (onDB (run hash)) (finishIdempotent srv scope key hash)))"

subsection \<open>Mutations\<close>

record createAccountRequest =
  car_ID :: string
  car_Currency :: string
  car_Kind :: string
  car_AllowOverdraft :: bool
  car_Metadata :: "json option"

record transferRequest =
  tr_SourceAccountID :: string
  tr_DestinationAccountID :: string
  tr_Amount :: int
  tr_Currency :: string
  tr_Description :: string
  tr_ExternalReference :: string

record reverseRequest =
  rv_Reason :: string
  rv_TransactionID :: string

definition decodeCreateAccount :: "(string \<times> json) list \<Rightarrow> createAccountRequest" where
  "decodeCreateAccount v = \<lparr>car_ID = str_field v ''id'', car_Currency = str_field v ''currency'',
     car_Kind = str_field v ''kind'', car_AllowOverdraft = bool_field v ''allow_overdraft'',
     car_Metadata = map_field v ''metadata''\<rparr>"

definition createAccountFields :: "(string \<times> ftype) list" where
  "createAccountFields = [(''id'', TStr), (''currency'', TStr), (''kind'', TStr), (''allow_overdraft'', TBool), (''metadata'', TMap)]"

text \<open>\<open>omitempty\<close> leaves out a map that is nil or empty.\<close>

definition marshalCreateAccount :: "createAccountRequest \<Rightarrow> json" where
  "marshalCreateAccount q = JObj (
     [(''id'', JStr (car_ID q)), (''currency'', JStr (car_Currency q)), (''kind'', JStr (car_Kind q)),
      (''allow_overdraft'', JBool (car_AllowOverdraft q))]
     @ (case car_Metadata q of None \<Rightarrow> [] | Some m \<Rightarrow> if m = JObj [] then [] else [(''metadata'', m)]))"

definition decodeTransfer :: "(string \<times> json) list \<Rightarrow> transferRequest" where
  "decodeTransfer v = \<lparr>tr_SourceAccountID = str_field v ''source_account_id'',
     tr_DestinationAccountID = str_field v ''destination_account_id'', tr_Amount = int_field v ''amount'',
     tr_Currency = str_field v ''currency'', tr_Description = str_field v ''description'',
     tr_ExternalReference = str_field v ''external_reference''\<rparr>"

definition transferFields :: "(string \<times> ftype) list" where
  "transferFields = [(''source_account_id'', TStr), (''destination_account_id'', TStr), (''amount'', TInt),
     (''currency'', TStr), (''description'', TStr), (''external_reference'', TStr)]"

definition marshalTransferRequest :: "transferRequest \<Rightarrow> json" where
  "marshalTransferRequest q = JObj (
     [(''source_account_id'', JStr (tr_SourceAccountID q)), (''destination_account_id'', JStr (tr_DestinationAccountID q)),
      (''amount'', JNum (tr_Amount q)), (''currency'', JStr (tr_Currency q))]
     @ omit_str ''description'' (tr_Description q) @ omit_str ''external_reference'' (tr_ExternalReference q))"

definition marshalReverseRequest :: "reverseRequest \<Rightarrow> json" where
  "marshalReverseRequest q = JObj (omit_str ''reason'' (rv_Reason q) @ [(''transaction_id'', JStr (rv_TransactionID q))])"

definition handleCreateAccount :: "Server \<Rightarrow> handler" where
  "handleCreateAccount srv r =
     orError r (lift (idempotencyKey r)) (\<lambda>key.
     orError r (lift (decodeJSON srv createAccountFields r)) (\<lambda>vals.
       let req0 = decodeCreateAccount vals;
           req = (if car_Kind req0 = [] then req0\<lparr>car_Kind := KindUser\<rparr> else req0)
       in mutate srv r scopeCreateAccount key (marshalCreateAccount req) (\<lambda>hash.
            CreateAccount (s_db srv) (s_cfg srv)
              \<lparr>ca_ID = car_ID req, ca_Currency = car_Currency req, ca_Kind = car_Kind req,
               ca_AllowOverdraft = car_AllowOverdraft req, ca_Metadata = car_Metadata req,
               ca_IdempotencyScope = scopeCreateAccount, ca_IdempotencyKey = key, ca_RequestHash = hash\<rparr>)))"

definition transferCommand :: "transferRequest \<Rightarrow> string \<Rightarrow> string \<Rightarrow> TransferCommand" where
  "transferCommand req key hash =
     \<lparr>tc_SourceAccountID = tr_SourceAccountID req, tc_DestinationAccountID = tr_DestinationAccountID req,
      tc_Amount = tr_Amount req, tc_Currency = tr_Currency req, tc_Description = tr_Description req,
      tc_ExternalReference = tr_ExternalReference req, tc_IdempotencyScope = scopeTransfer,
      tc_IdempotencyKey = key, tc_RequestHash = hash\<rparr>"

definition handleTransfer :: "Server \<Rightarrow> handler" where
  "handleTransfer srv r =
     orError r (lift (idempotencyKey r)) (\<lambda>key.
     orError r (lift (decodeJSON srv transferFields r)) (\<lambda>vals.
       let req = decodeTransfer vals
       in mutate srv r scopeTransfer key (marshalTransferRequest req) (\<lambda>hash.
            Transfer (s_db srv) (s_cfg srv) (hr_Context r) (transferCommand req key hash))))"

definition handleReverse :: "Server \<Rightarrow> handler" where
  "handleReverse srv r =
     orError r (lift (idempotencyKey r)) (\<lambda>key.
     orError r (lift (if hr_ContentLength r > 0 then decodeJSON srv [(''reason'', TStr)] r else Inr [])) (\<lambda>vals.
       let req = \<lparr>rv_Reason = str_field vals ''reason'', rv_TransactionID = hr_PathID r\<rparr>
       in mutate srv r scopeReverse key (marshalReverseRequest req) (\<lambda>hash.
            Reverse (s_db srv) (s_cfg srv) (hr_Context r)
              \<lparr>rc_TransactionID = rv_TransactionID req, rc_Reason = rv_Reason req, rc_IdempotencyScope = scopeReverse,
               rc_IdempotencyKey = key, rc_RequestHash = hash\<rparr>)))"

subsection \<open>Replay\<close>

definition replayFields :: "(string \<times> ftype) list" where
  "replayFields = [(''transaction_id'', TStr), (''from'', TTime), (''to'', TTime), (''limit'', TInt),
     (''requested_by'', TStr), (''dry_run'', TBool)]"

definition decodeReplay :: "(string \<times> json) list \<Rightarrow> ReplayRequest" where
  "decodeReplay v = \<lparr>rq_TransactionID = str_field v ''transaction_id'', rq_From = map_option fst (time_field v ''from''),
     rq_To = map_option fst (time_field v ''to''), rq_Limit = int_field v ''limit'',
     rq_RequestedBy = str_field v ''requested_by'', rq_DryRun = bool_field v ''dry_run''\<rparr>"

definition opt_time :: "string \<Rightarrow> (time \<times> string) option \<Rightarrow> (string \<times> json) list" where
  "opt_time k t = (case t of None \<Rightarrow> [] | Some (_, txt) \<Rightarrow> [(k, JStr txt)])"

text \<open>The request as it is hashed; the instants are written with the texts they marshal to.\<close>

definition marshalReplayRequest :: "ReplayRequest \<Rightarrow> (time \<times> string) option \<Rightarrow> (time \<times> string) option \<Rightarrow> json" where
  "marshalReplayRequest q from_t to_t = JObj (
     omit_str ''transaction_id'' (rq_TransactionID q) @ opt_time ''from'' from_t @ opt_time ''to'' to_t
     @ (if rq_Limit q = 0 then [] else [(''limit'', JNum (rq_Limit q))])
     @ omit_str ''requested_by'' (rq_RequestedBy q)
     @ (if rq_DryRun q then [(''dry_run'', JBool True)] else []))"

definition marshalReplayResult :: "ReplayResult \<Rightarrow> json" where
  "marshalReplayResult r = JObj
     [(''replay_id'', JStr (rr_ReplayID r)), (''matched'', JNum (rr_Matched r)), (''published'', JNum (rr_Published r)),
      (''failed'', JNum (rr_Failed r)), (''dry_run'', JBool (rr_DryRun r)), (''event_ids'', JArr (map JStr (rr_EventIDs r)))]"

text \<open>
  The first transaction: \<open>None\<close> when the key was claimed, the recorded answer otherwise. The code
  keeps its flag \<open>claimed\<close> across the attempts of the transaction; nobody else runs between the
  attempts here, so an attempt that finds a record was not preceded by one that claimed the key and
  was rolled back.
\<close>

definition claimExternal :: "env \<Rightarrow> string \<Rightarrow> string \<Rightarrow> string \<Rightarrow> (int \<times> json option) option comp" where
  "claimExternal env scope key hash =
     andThen (LockKey env scope key) (\<lambda>_.
     andThen (Claim env scope key hash) (\<lambda>existing.
       case existing of
         None \<Rightarrow> ret None
       | Some rec \<Rightarrow>
           if rec_RequestHash rec \<noteq> hash then throw (Conflict key)
           else if rec_State rec \<noteq> StateCompleted then throw (InProgress key)
           else ret (Some (rec_ResponseStatus rec, rec_ResponseBody rec))))"

definition runExternalIdempotent ::
  "Server \<Rightarrow> string \<Rightarrow> string \<Rightarrow> string \<Rightarrow> (int \<times> json) acomp \<Rightarrow> (int \<times> json option) acomp" where
  "runExternalIdempotent srv scope key hash work =
     andThen (onDB (InTx (s_db srv) (DBMaxTxRetries (s_cfg srv)) (claimExternal (s_db srv) scope key hash))) (\<lambda>r.
       case r of
         Some recorded \<Rightarrow> ret recorded
       | None \<Rightarrow>
           andThen (attempt work) (\<lambda>x.
             case x of
               Inl e \<Rightarrow> andThen (attempt (onDB (Discard (s_db srv) scope key))) (\<lambda>_. throw e)
             | Inr (status, doc) \<Rightarrow>
                 andThen (onDB (InTx (s_db srv) (DBMaxTxRetries (s_cfg srv))
                   (Complete (s_db srv) scope key status doc None))) (\<lambda>_. ret (status, Some doc))))"

definition handleReplay :: "Server \<Rightarrow> handler" where
  "handleReplay srv r =
     orError r (lift (idempotencyKey r)) (\<lambda>key.
     orError r (lift (decodeJSON srv replayFields r)) (\<lambda>vals.
       let req0 = decodeReplay vals in
       orError r (lift (case ValidateReplay req0 of Some e \<Rightarrow> Inl e | None \<Rightarrow> Inr ())) (\<lambda>_.
         let req = req0\<lparr>rq_RequestedBy := RequestID (hr_Context r)\<rparr> in
         orError r (lift (hashed srv scopeReplay (marshalReplayRequest req (time_field vals ''from'') (time_field vals ''to'')))) (\<lambda>hash.
         andThen (replayFromCache srv r scopeReplay key hash) (\<lambda>replayed.
           if replayed then ret ()
           else orError r (runExternalIdempotent srv scopeReplay key hash
                  (andThen (onKafka (Replay (s_db srv) (s_producer srv) req)) (\<lambda>result. ret (200, marshalReplayResult result))))
                (\<lambda>(status, doc).
                  andThen (Put (s_cache srv) scopeReplay key \<lparr>cr_Status = status, cr_Body = doc, cr_RequestHash = hash,
                      cr_TransactionID = []\<rparr>) (\<lambda>_.
                  writeRaw status doc)))))))"

end
