(* ===== verification/Api_Server.thy ===== *)
theory Api_Server
  imports Api
begin

text \<open>
  The reads, the operational endpoints, the middleware and the routes of \<open>internal/api\<close>.
  \<open>GET /metrics\<close> belongs to the Prometheus library and is not a route here.
\<close>

subsection \<open>Reads\<close>

definition marshalBalance :: "Balance \<Rightarrow> json" where
  "marshalBalance b = JObj
     [(''account_id'', JStr (bal_AccountID b)), (''amount'', JNum (bal_Amount b)), (''currency'', JStr (bal_Currency b)),
      (''version'', JNum (bal_Version b)), (''updated_at'', JTime (bal_UpdatedAt b))]"

definition marshalPage :: "EntryPage \<Rightarrow> json" where
  "marshalPage p = JObj ([(''entries'', JArr (map marshalEntry (page_Entries p)))] @ omit_str ''next_cursor'' (page_NextCursor p))"

definition handleGetAccount :: "Server \<Rightarrow> handler" where
  "handleGetAccount srv r =
     orError r (onDB (GetAccount (s_db srv) (hr_PathID r))) (\<lambda>acct. writeJSON 200 (marshalAccount acct))"

definition handleGetBalance :: "Server \<Rightarrow> handler" where
  "handleGetBalance srv r =
     orError r (onDB (GetBalance (s_db srv) (hr_PathID r))) (\<lambda>b. writeJSON 200 (marshalBalance b))"

definition handleListEntries :: "Server \<Rightarrow> handler" where
  "handleListEntries srv r =
     (let raw = hr_Query r ''limit'';
          limit = (if raw = [] then Some 100
                   else case Atoi raw of None \<Rightarrow> None | Some n \<Rightarrow> if n \<le> 0 then None else Some n)
      in case limit of
           None \<Rightarrow> writeError r (InvalidRequest ''limit must be a positive integer'' [])
         | Some n \<Rightarrow>
             orError r (onDB (ListEntries (s_db srv) (lib_formatTime (s_lib srv))
                 (\<lambda>s. map_option fst (lib_parseTime (s_lib srv) s)) (hr_PathID r) n (hr_Query r ''cursor'')))
               (\<lambda>page. writeJSON 200 (marshalPage page)))"

definition handleGetTransaction :: "Server \<Rightarrow> handler" where
  "handleGetTransaction srv r =
     orError r (onDB (GetTransaction (s_db srv) (hr_PathID r))) (\<lambda>t. writeJSON 200 (marshalTransaction t))"

subsection \<open>Operational endpoints\<close>

definition marshalMismatch :: "Mismatch \<Rightarrow> json" where
  "marshalMismatch m = JObj
     [(''account_id'', JStr (mm_AccountID m)), (''stored_balance'', JNum (mm_Stored m)),
      (''computed_balance'', JNum (mm_Computed m)), (''delta'', JNum (mm_Delta m))]"

definition marshalReport :: "(time \<Rightarrow> string) \<Rightarrow> Report \<Rightarrow> json" where
  "marshalReport durText r = JObj
     [(''ran_at'', JTime (rep_RanAt r)), (''accounts_checked'', JNum (rep_AccountsChecked r)),
      (''transactions_checked'', JNum (rep_TransactionsChecked r)),
      (''mismatches'', JArr (map marshalMismatch (rep_Mismatches r))),
      (''unbalanced_transaction_ids'', JArr (map JStr (rep_UnbalancedTxIDs r))),
      (''duration'', JStr (durText (rep_Duration r)))]"

definition handleReconcile :: "Server \<Rightarrow> handler" where
  "handleReconcile srv r =
     orError r (onDB (RunReconciliation (s_db srv))) (\<lambda>report.
       writeJSON (if \<not> OK report then 409 else 200) (marshalReport (lib_durText (s_lib srv)) report))"

definition handleLive :: handler where
  "handleLive r = writeJSON 200 (JObj [(''status'', JStr ''ok'')])"

definition PingDB :: "env \<Rightarrow> unit comp" where
  "PingDB env = pool_sql env (\<lambda>now d. Inr ((), d))"

definition redisPing :: "redis_client \<Rightarrow> (goerr + unit) acomp" where
  "redisPing rc = redisDo rc (\<lambda>m. (Inr (), m))"

definition handleReady :: "Server \<Rightarrow> handler" where
  "handleReady srv r =
     andThen (attempt (onDB (PingDB (s_db srv)))) (\<lambda>p.
     andThen (case s_redis srv of None \<Rightarrow> ret ''disabled''
              | Some rc \<Rightarrow> andThen (redisPing rc) (\<lambda>x.
                  ret (case x of Inl e \<Rightarrow> ''degraded: '' @ err_text (s_db srv) e | Inr _ \<Rightarrow> ''ok''))) (\<lambda>redis.
       let (status, postgres) = (case p of Inl e \<Rightarrow> (503, ''error: '' @ err_text (s_db srv) e) | Inr _ \<Rightarrow> (200, ''ok''))
       in writeJSON status (JObj
            [(''checks'', JObj [(''kafka'', JStr ''unchecked''), (''postgres'', JStr postgres), (''redis'', JStr redis)]),
             (''status'', JStr (if status = 200 then ''ready'' else ''not_ready''))])))"

text \<open>Armed failpoints are a process-wide registry, part of the world.\<close>

definition activeDoc :: "Server \<Rightarrow> registry option \<Rightarrow> json" where
  "activeDoc srv reg = JObj (put_all (map (\<lambda>(k, v). (k, JStr v)) (Active (lib_durText (s_lib srv)) reg)) [])"

definition handleListFailpoints :: "Server \<Rightarrow> handler" where
  "handleListFailpoints srv r s =
     (let reg = fps (fst s)
      in writeJSON 200 (JObj [(''active'', activeDoc srv reg), (''available'', JArr (map JStr All)),
           (''enabled'', JBool (Enabled reg))]) s)"

definition armFps :: "string \<Rightarrow> string \<Rightarrow> unit acomp" where
  "armFps name spec s =
     (case Arm (fps (fst s)) name spec of
        (None, reg) \<Rightarrow> (Ret (), ((fst s)\<lparr>fps := reg\<rparr>, snd s))
      | (Some e, reg) \<Rightarrow> (Err e, ((fst s)\<lparr>fps := reg\<rparr>, snd s)))"

definition writeActive :: "Server \<Rightarrow> unit acomp" where
  "writeActive srv s = writeJSON 200 (JObj [(''active'', activeDoc srv (fps (fst s)))]) s"

definition handleArmFailpoint :: "Server \<Rightarrow> handler" where
  "handleArmFailpoint srv r =
     orError r (lift (decodeJSON srv [(''name'', TStr), (''action'', TStr)] r)) (\<lambda>vals.
     orError r (mapErr (\<lambda>e. InvalidRequest ''%s'' [AStr (err_text (s_db srv) e)])
         (armFps (str_field vals ''name'') (str_field vals ''action''))) (\<lambda>_. writeActive srv))"

definition handleResetFailpoints :: "Server \<Rightarrow> handler" where
  "handleResetFailpoints srv r =
     andThen (\<lambda>s. (Ret (), ((fst s)\<lparr>fps := Reset (fps (fst s))\<rparr>, snd s))) (\<lambda>_. writeActive srv)"

subsection \<open>Middleware\<close>

definition withRequestContext :: "Server \<Rightarrow> handler \<Rightarrow> handler" where
  "withRequestContext srv next r =
     (let given = hr_Header r HeaderRequestID in
      andThen (if given = [] then onDB (newUUID (s_db srv)) else ret given) (\<lambda>requestID.
        let correlation = hr_Header r HeaderCorrelationID;
            correlationID = (if correlation = [] then requestID else correlation);
            ctx = WithCorrelationID (WithRequestID (hr_Context r) requestID) correlationID
        in andThen (setHeader HeaderRequestID requestID) (\<lambda>_.
           andThen (setHeader HeaderCorrelationID correlationID) (\<lambda>_.
           next (r\<lparr>hr_Context := ctx\<rparr>)))))"

definition withRecovery :: "handler \<Rightarrow> handler" where
  "withRecovery next r s =
     (case next r s of
        (Panic p, s') \<Rightarrow> writeError r (New CodeInternal ''internal error'' []) s'
      | other \<Rightarrow> other)"

definition withFailpoints :: "Server \<Rightarrow> handler \<Rightarrow> handler" where
  "withFailpoints srv next r s =
     (let spec = hr_Header r HeaderFailpoint
      in if spec = [] \<or> \<not> Enabled (fps (fst s)) then next r s
         else case WithRequestFailpoints (hr_Context r) spec of
           Inl e \<Rightarrow> writeError r (InvalidRequest ''%s'' [AStr (err_text (s_db srv) e)]) s
         | Inr ctx \<Rightarrow> next (r\<lparr>hr_Context := ctx\<rparr>) s)"

definition clientKey :: "request \<Rightarrow> string" where
  "clientKey r =
     (if hr_Header r ''X-Api-Key'' \<noteq> [] then ''key:'' @ hr_Header r ''X-Api-Key''
      else if hr_Header r ''X-Forwarded-For'' \<noteq> [] then ''ip:'' @ hr_Header r ''X-Forwarded-For''
      else ''ip:'' @ hr_RemoteAddr r)"

text \<open>\<open>Duration.Round(time.Millisecond)\<close> of a duration that is not negative.\<close>

definition round_milli :: "time \<Rightarrow> time" where
  "round_milli d = (d + 500000) div 1000000 * 1000000"

text \<open>A sample for the collector and the values of its labels, by \<open>Inc\<close> or \<open>Observe\<close>.\<close>

definition WithLabelValues :: "collector \<Rightarrow> string list \<Rightarrow> unit acomp" where
  "WithLabelValues c vals s =
     (if length vals \<noteq> length (co_Labels c) then (Panic ''inconsistent label cardinality'', s)
      else (Ret (), (fst s, (snd s)\<lparr>samples := samples (snd s) @ [(co_Name c, vals)]\<rparr>)))"

text \<open>
  The status is the recorder's (\<open>Access_Log\<close>): the one sent, 200 when nothing was. A handler that
  panics is not observed.
\<close>

definition sentStatus :: "outside \<Rightarrow> int" where
  "sentStatus out = (case ans_status out of None \<Rightarrow> 200 | Some c \<Rightarrow> c)"

definition observeRequest :: "string \<Rightarrow> request \<Rightarrow> unit acomp" where
  "observeRequest pattern r s =
     (let status = decimal (sentStatus (snd s))
      in andThen (WithLabelValues HTTPRequests [hr_Method r, pattern, status, ans_code (snd s)]) (\<lambda>_.
         WithLabelValues HTTPDuration [hr_Method r, pattern, status]) s)"

definition withObservability :: "string \<Rightarrow> handler \<Rightarrow> handler" where
  "withObservability pattern next r =
     andThen (recordCode []) (\<lambda>_. andThen (next r) (\<lambda>_. observeRequest pattern r))"

definition withRateLimit :: "Server \<Rightarrow> string \<Rightarrow> handler \<Rightarrow> handler" where
  "withRateLimit srv pattern next r =
     (case s_limiter srv of
        None \<Rightarrow> next r
      | Some l \<Rightarrow>
          andThen (Allow (s_db srv) (lib_durText (s_lib srv)) (Some l) (clientKey r)) (\<lambda>(allowed, retryAfter).
            if allowed then next r
            else andThen (WithLabelValues RateLimited [pattern]) (\<lambda>_.
                 andThen (setHeader ''Retry-After'' (decimal (go_quot retryAfter (10 ^ 9) + 1))) (\<lambda>_.
                 writeError r (New CodeRateLimited ''too many requests; retry in %s''
                   [AStr (lib_durText (s_lib srv) (round_milli retryAfter))])))))"

definition route :: "Server \<Rightarrow> string \<Rightarrow> handler \<Rightarrow> bool \<Rightarrow> handler" where
  "route srv pattern h rateLimited =
     (let h1 = withFailpoints srv h; h2 = (if rateLimited then withRateLimit srv pattern h1 else h1)
      in withRequestContext srv (withObservability pattern h2))"

subsection \<open>Routes\<close>

text \<open>
  \<open>http.ServeMux\<close>: a pattern is a method and path segments, a wildcard matches one segment, GET
  also serves HEAD. No two of the patterns match the same request. The text bodies of 404 and 405
  are left out.
\<close>

datatype seg = Lit string | Wild

fun matchSegs :: "seg list \<Rightarrow> string list \<Rightarrow> string \<Rightarrow> string option" where
  "matchSegs [] [] i = Some i"
| "matchSegs (Lit l # ps) (s # ss) i = (if l = s then matchSegs ps ss i else None)"
| "matchSegs (Wild # ps) (s # ss) i = (if s = [] then None else matchSegs ps ss s)"
| "matchSegs _ _ i = None"

definition endpoints :: "Server \<Rightarrow> bool \<Rightarrow> (string \<times> seg list \<times> handler) list" where
  "endpoints srv failpointsEnabled =
     [(''GET'', [Lit ''v1'', Lit ''accounts'', Wild], route srv ''GET /v1/accounts/{id}'' (handleGetAccount srv) False),
      (''GET'', [Lit ''v1'', Lit ''accounts'', Wild, Lit ''balance''], route srv ''GET /v1/accounts/{id}/balance'' (handleGetBalance srv) False),
      (''GET'', [Lit ''v1'', Lit ''accounts'', Wild, Lit ''entries''], route srv ''GET /v1/accounts/{id}/entries'' (handleListEntries srv) False),
      (''GET'', [Lit ''v1'', Lit ''transactions'', Wild], route srv ''GET /v1/transactions/{id}'' (handleGetTransaction srv) False),
      (''POST'', [Lit ''v1'', Lit ''accounts''], route srv ''POST /v1/accounts'' (handleCreateAccount srv) True),
      (''POST'', [Lit ''v1'', Lit ''transfers''], route srv ''POST /v1/transfers'' (handleTransfer srv) True),
      (''POST'', [Lit ''v1'', Lit ''transactions'', Wild, Lit ''reverse''], route srv ''POST /v1/transactions/{id}/reverse'' (handleReverse srv) True),
      (''POST'', [Lit ''v1'', Lit ''replay''], route srv ''POST /v1/replay'' (handleReplay srv) True),
      (''GET'', [Lit ''health'', Lit ''live''], handleLive),
      (''GET'', [Lit ''health'', Lit ''ready''], handleReady srv),
      (''GET'', [Lit ''v1'', Lit ''reconciliation''], withRequestContext srv (handleReconcile srv))]
     @ (if failpointsEnabled then
          [(''GET'', [Lit ''debug'', Lit ''failpoints''], withRequestContext srv (handleListFailpoints srv)),
           (''POST'', [Lit ''debug'', Lit ''failpoints''], withRequestContext srv (handleArmFailpoint srv)),
           (''DELETE'', [Lit ''debug'', Lit ''failpoints''], withRequestContext srv (handleResetFailpoints srv))]
        else [])"

definition methodMatches :: "string \<Rightarrow> string \<Rightarrow> bool" where
  "methodMatches pattern method \<longleftrightarrow> pattern = method \<or> (pattern = ''GET'' \<and> method = ''HEAD'')"

definition mux :: "Server \<Rightarrow> string \<Rightarrow> string list \<Rightarrow> handler" where
  "mux srv method path r s =
     (let onPath = filter (\<lambda>(m, p, h). matchSegs p path [] \<noteq> None) (endpoints srv (Enabled (fps (fst s))))
      in case find (\<lambda>(m, p, h). methodMatches m method) onPath of
           Some (m, p, h) \<Rightarrow> h (r\<lparr>hr_Method := method, hr_PathID := (case matchSegs p path [] of Some i \<Rightarrow> i | None \<Rightarrow> [])\<rparr>) s
         | None \<Rightarrow> writeHeader (if onPath = [] then 404 else 405) s)"

definition Handler :: "Server \<Rightarrow> string \<Rightarrow> string list \<Rightarrow> handler" where
  "Handler srv method path = withRecovery (mux srv method path)"

text \<open>A request arrives with nothing written.\<close>

definition fresh :: "world \<times> outside \<Rightarrow> world \<times> outside" where
  "fresh s = (fst s, (snd s)\<lparr>ans_headers := [], ans_status := None, ans_body := []\<rparr>)"

definition serve :: "Server \<Rightarrow> string \<Rightarrow> string list \<Rightarrow> handler" where
  "serve srv method path r s = Handler srv method path r (fresh s)"

end
