(* ===== verification/Api_Facts.thy ===== *)
theory Api_Facts
  imports Api_Server Ledger_Steps Publisher_Facts
begin

text \<open>
  What serving a request does to the database, to Redis and to the broker's log, whatever fails
  and whoever panics: the ledger changes only by steps of the use cases, idempotency records that
  are completed stay as they are, the log only grows, and everything Redis holds under a cache key
  is the answer of a completed record.
\<close>

named_theorems api_rules \<open>calls that keep the API's contract with its stores\<close>

subsection \<open>Completed records\<close>

definition keeps_done :: "database \<Rightarrow> database \<Rightarrow> bool" where
  "keeps_done d d' \<longleftrightarrow> (\<forall>s k r. idem_of d s k = Some r \<and> i_state r = StateCompleted \<longrightarrow> idem_of d' s k = Some r)"

lemma keeps_done_refl [simp]: "keeps_done d d"
  by (simp add: keeps_done_def)

lemma keeps_done_trans: "keeps_done a b \<Longrightarrow> keeps_done b c \<Longrightarrow> keeps_done a c"
  by (auto simp: keeps_done_def)

lemma extends_keeps_done: "extends d d' \<Longrightarrow> keeps_done d d'"
  by (auto simp: extends_def keeps_done_def)

text \<open>A completed record holds an answer that can be written: a three-digit status and a body.\<close>

definition answer_ok :: "idem_row \<Rightarrow> bool" where
  "answer_ok r \<longleftrightarrow> (i_state r = StateCompleted \<longrightarrow>
     (\<exists>st. i_response_status r = Some st \<and> 100 \<le> st \<and> st \<le> 999) \<and> i_response_body r \<noteq> None)"

definition records_ok :: "database \<Rightarrow> bool" where
  "records_ok d \<longleftrightarrow> list_all answer_ok (idempotency_records d)"

lemma claimed_answer: "answer_ok (claimed_row s k h now)"
  by (simp add: answer_ok_def claimed_row_def StateCompleted_def StateInProgress_def)

lemma completed_answer: "100 \<le> st \<Longrightarrow> st \<le> 999 \<Longrightarrow> answer_ok (complete_row st b t now r)"
  by (simp add: answer_ok_def complete_row_def)

lemma list_all_update: "list_all P xs \<Longrightarrow> (\<And>x. P (f x)) \<Longrightarrow> list_all P (map (\<lambda>x. if Q x then f x else x) xs)"
  by (auto simp: list_all_iff)

lemma ledger_step_records:
  assumes "ledger_step uin d d'" and "records_ok d"
  shows "records_ok d'"
  using ledger_step_shape[OF assms(1)] assms(2)
  by (auto simp: posts_def opens_def posting_def account_opening_def claimed_db_def records_ok_def claimed_answer
      completed_answer intro!: list_all_update)

text \<open>The two ways the API changes the database.\<close>

definition api_change :: "(string \<Rightarrow> string option) \<Rightarrow> database \<Rightarrow> database \<Rightarrow> bool" where
  "api_change uin d d' \<longleftrightarrow> ledger_step uin d d' \<or>
     (keeps_done d d' \<and> (records_ok d \<longrightarrow> records_ok d') \<and> (\<exists>x. d' = d\<lparr>idempotency_records := x\<rparr>))"

lemma api_change_records: "(api_change uin)\<^sup>*\<^sup>* d d' \<Longrightarrow> records_ok d \<Longrightarrow> records_ok d'"
proof (induction rule: rtranclp_induct)
  case (step d1 d2)
  then show ?case unfolding api_change_def using ledger_step_records by blast
qed

lemma api_change_keeps_done: "(api_change uin)\<^sup>*\<^sup>* d d' \<Longrightarrow> keeps_done d d'"
proof (induction rule: rtranclp_induct)
  case (step d1 d2)
  then have "keeps_done d1 d2" unfolding api_change_def using ledger_step_extends extends_keeps_done by blast
  with step show ?case using keeps_done_trans by blast
qed simp

subsection \<open>Coherence of the cache\<close>

definition scopes :: "string list" where
  "scopes = [scopeCreateAccount, scopeTransfer, scopeReverse, scopeReplay]"

definition cached_row :: "idem_row \<Rightarrow> redis_value \<Rightarrow> bool" where
  "cached_row row v \<longleftrightarrow> i_state row = StateCompleted \<and>
     (\<exists>t. v = RDoc (marshalCached \<lparr>cr_Status = (case i_response_status row of None \<Rightarrow> 0 | Some st \<Rightarrow> st),
        cr_Body = i_response_body row, cr_RequestHash = i_request_hash row, cr_TransactionID = t\<rparr>))"

text \<open>What may stand under a key of Redis.\<close>

definition backed :: "database \<Rightarrow> string \<Rightarrow> redis_value \<Rightarrow> bool" where
  "backed d key v \<longleftrightarrow> (\<forall>s \<in> set scopes. \<forall>k. key = cacheKey s k \<longrightarrow> (\<exists>row. idem_of d s k = Some row \<and> cached_row row v))"

definition coherent :: "database \<Rightarrow> redis \<Rightarrow> bool" where
  "coherent d m \<longleftrightarrow> (\<forall>key v. m key = Some v \<longrightarrow> backed d key v)"

lemma cacheKey_inject:
  assumes "s \<in> set scopes" and "s' \<in> set scopes"
  shows "cacheKey s k = cacheKey s' k' \<longleftrightarrow> s = s' \<and> k = k'"
  using assms by (auto simp: scopes_def scope_defs cacheKey_def)

lemma windowKey_not_cache: "windowKey f c n \<noteq> cacheKey s k"
  by (simp add: windowKey_def cacheKey_def)

lemma backed_keeps: "backed d key v \<Longrightarrow> keeps_done d d' \<Longrightarrow> backed d' key v"
  by (fastforce simp: backed_def keeps_done_def cached_row_def)

lemma coherent_keeps: "coherent d m \<Longrightarrow> keeps_done d d' \<Longrightarrow> coherent d' m"
  unfolding coherent_def using backed_keeps by blast

lemma coherent_sub: "coherent d m \<Longrightarrow> redis_sub m' m \<Longrightarrow> coherent d m'"
  by (auto simp: coherent_def redis_sub_def)

lemma backed_row:
  assumes "s \<in> set scopes" and "idem_of d s k = Some row" and "cached_row row v"
  shows "backed d (cacheKey s k) v"
  using assms cacheKey_inject by (auto simp: backed_def)

lemma backed_window: "backed d (windowKey f c n) v"
  using windowKey_not_cache by (auto simp: backed_def)

subsection \<open>The contract\<close>

definition api_rel :: "(string \<Rightarrow> string option) \<Rightarrow> world \<times> outside \<Rightarrow> world \<times> outside \<Rightarrow> bool" where
  "api_rel uin s s' \<longleftrightarrow> (api_change uin)\<^sup>*\<^sup>* (db (fst s)) (db (fst s')) \<and>
     prefix (kafka_log (snd s)) (kafka_log (snd s')) \<and>
     (coherent (db (fst s)) (redis_db (snd s)) \<longrightarrow> coherent (db (fst s')) (redis_db (snd s')))"

interpretation api: step_rel "api_rel uin" for uin
  by unfold_locales (auto simp: api_rel_def intro: rtranclp_trans prefix_order.trans)

lemmas api_basic [api_rules] = api.stays_ret api.stays_throw api.stays_mapErr api.stays_andThen

lemma api_attempt [api_rules]: "stays (api_rel uin) m \<Longrightarrow> stays (api_rel uin) (attempt m)"
  by (auto simp: stays_def attempt_def split: prod.splits res.splits) (metis snd_conv)+

text \<open>A step that leaves database, Redis and log alone.\<close>

definition same_stores :: "world \<times> outside \<Rightarrow> world \<times> outside \<Rightarrow> bool" where
  "same_stores s s' \<longleftrightarrow> db (fst s') = db (fst s) \<and> redis_db (snd s') = redis_db (snd s) \<and> kafka_log (snd s') = kafka_log (snd s)"

lemma same_stores_rel: "same_stores s s' \<Longrightarrow> api_rel uin s s'"
  by (simp add: same_stores_def api_rel_def)

lemma stays_same: "(\<And>s. same_stores s (snd (m s))) \<Longrightarrow> stays (api_rel uin) m"
  unfolding stays_def using same_stores_rel by blast

lemma ar_write [api_rules]:
  "stays (api_rel uin) (setHeader k v)" "stays (api_rel uin) (writeHeader st)" "stays (api_rel uin) (writeDoc j)"
  "stays (api_rel uin) (recordCode c)" "stays (api_rel uin) (WithLabelValues m vals)"
  by (rule stays_same, simp add: same_stores_def setHeader_def writeHeader_def writeDoc_def recordCode_def WithLabelValues_def)+

lemma ar_writeJSON [api_rules]: "stays (api_rel uin) (writeJSON st j)"
  unfolding writeJSON_def by (intro api_rules)

lemma ar_writeRaw [api_rules]: "stays (api_rel uin) (writeRaw st b)"
  unfolding writeRaw_def by (auto intro!: api_rules split: option.splits)

lemma ar_writeError [api_rules]: "stays (api_rel uin) (writeError r e)"
  unfolding writeError_def Let_def by (intro api_rules)

lemma ar_lift [api_rules]: "stays (api_rel uin) (lift x)"
  by (cases x) (auto simp: lift_def intro!: api_rules)

lemma orError_lift: "orError r (lift (Inr x)) k = k x"
  by (rule ext) (simp add: orError_def lift_def attempt_def andThen_def ret_def)

lemma ar_orError [api_rules]:
  assumes "stays (api_rel uin) m" and "\<And>x. stays (api_rel uin) (k x)"
  shows "stays (api_rel uin) (orError r m k)"
  unfolding orError_def by (intro api_rules) (use assms in \<open>auto intro!: api_rules split: sum.splits\<close>)

lemma ar_onDB_same:
  assumes "\<And>w r w'. m w = (r, w') \<Longrightarrow> db w' = db w"
  shows "stays (api_rel uin) (onDB m)"
  using assms by (intro stays_same) (auto simp: same_stores_def onDB_def split: prod.splits)

subsection \<open>Redis\<close>

lemma ar_Get [api_rules]: "stays (api_rel uin) (Get cache scope key)"
proof -
  have g: "stays (api_rel uin) (redisGet rc k)" for rc k
    unfolding stays_def
  proof
    fix s
    obtain r s' where e: "redisGet rc k s = (r, s')" by (meson surj_pair)
    from redisDo_frame[OF e[unfolded redisGet_def]] redisGet_sub[OF e] coherent_sub
    show "api_rel uin s (snd (redisGet rc k s))" by (auto simp: api_rel_def e)
  qed
  have "stays (api_rel uin) (andThen (redisGet rc k) (\<lambda>r. case r of Inl e \<Rightarrow> ret None | Inr None \<Rightarrow> ret None
      | Inr (Some raw) \<Rightarrow> ret (unmarshalCached raw)))" for rc k
    by (auto intro!: api_rules g split: sum.splits option.splits)
  then show ?thesis
    unfolding stays_def Get_def by (auto simp: api.R_refl split: option.splits)
qed

lemma ar_Allow [api_rules]: "stays (api_rel uin) (Allow env f limiter key)"
proof -
  have g: "stays (api_rel uin) (redisIncr rc (windowKey f key n))" for rc n
    unfolding stays_def
  proof
    fix s
    obtain r s' where e: "redisIncr rc (windowKey f key n) s = (r, s')" by (meson surj_pair)
    note d = redisDo_frame[OF e[unfolded redisIncr_def]] redisDo_redis[OF e[unfolded redisIncr_def]]
    have "coherent (db (fst s)) (redis_db (snd s'))" if c: "coherent (db (fst s)) (redis_db (snd s))"
    proof -
      have "\<forall>k v. redis_db (snd s') k = Some v \<longrightarrow> redis_db (snd s) k = Some v \<or> k = windowKey f key n"
        using d(7) by (auto dest: survive_Some split: option.splits if_splits redis_value.splits json.splits)
      with c backed_window show ?thesis unfolding coherent_def by metis
    qed
    with d show "api_rel uin s (snd (redisIncr rc (windowKey f key n) s))" by (auto simp: api_rel_def e)
  qed
  have now: "stays (api_rel uin) (onDB (goNow env))" by (rule ar_onDB_same) (auto simp: goNow_def)
  have win: "stays (api_rel uin) (\<lambda>s. if rl_window l = 0 then (Panic p, s) else andThen (redisIncr rc (windowKey f key n)) g' s)"
    if "\<And>r. stays (api_rel uin) (g' r)" for l p rc n g'
    using api.stays_andThen[OF g that] by (auto simp: stays_def api.R_refl)
  show ?thesis unfolding Allow_def
    by (auto intro!: api_rules now win split: option.splits sum.splits)
qed

lemma Put_coherent:
  assumes "Put cache scope key c s = (r, s')" and "scope \<in> set scopes"
    and "idem_of (db (fst s)) scope key = Some row" and "cached_row row (RDoc (marshalCached c))"
  shows "api_rel uin s s'"
proof -
  have "s' = s \<or> (\<exists>rc r'. redisSet rc (cacheKey scope key) (marshalCached c) s = (r', s'))"
    using assms(1) by (auto simp: Put_def andThen_def ret_def split: option.splits if_splits prod.splits res.splits)
  then show ?thesis
  proof
    assume "\<exists>rc r'. redisSet rc (cacheKey scope key) (marshalCached c) s = (r', s')"
    then obtain rc r' where e: "redisSet rc (cacheKey scope key) (marshalCached c) s = (r', s')" by blast
    note f = redisDo_frame[OF e[unfolded redisSet_def]]
    have "coherent (db (fst s)) (redis_db (snd s'))" if "coherent (db (fst s)) (redis_db (snd s))"
      unfolding coherent_def
      using redis_cache.put_keeps[where P = "backed (db (fst s))", OF _ backed_row[OF assms(2-4)] redisSet_rel[OF e]]
        that[unfolded coherent_def] by blast
    with f show ?thesis by (simp add: api_rel_def)
  qed (simp add: api.R_refl)
qed

subsection \<open>Mutations\<close>

text \<open>A continuation that relies on what the first call returned.\<close>

lemma api_andThen_dep:
  assumes "stays (api_rel uin) m" and "\<And>s x s1. m s = (Ret x, s1) \<Longrightarrow> api_rel uin s1 (snd (f x s1))"
  shows "stays (api_rel uin) (andThen m f)"
  unfolding stays_def
proof
  fix s
  obtain r s1 where e: "m s = (r, s1)" by (meson surj_pair)
  have 1: "api_rel uin s s1" using staysD[OF assms(1) e] .
  show "api_rel uin s (snd (andThen m f s))"
  proof (cases r)
    case (Ret x)
    with api.R_trans[OF 1 assms(2)] e show ?thesis by (simp add: andThen_def)
  qed (simp_all add: andThen_def e 1)
qed

lemma attempt_Ret: "attempt m s = (Ret (Inr x), s1) \<longleftrightarrow> m s = (Ret x, s1)"
  by (auto simp: attempt_def split: prod.splits res.splits)

lemma ar_orError_dep:
  assumes "stays (api_rel uin) m" and "\<And>s x s1. m s = (Ret x, s1) \<Longrightarrow> api_rel uin s1 (snd (k x s1))"
  shows "stays (api_rel uin) (orError r m k)"
  unfolding orError_def
proof (rule api_andThen_dep[OF api_attempt[OF assms(1)]])
  fix s y s1 assume y: "attempt m s = (Ret y, s1)"
  show "api_rel uin s1 (snd ((case y of Inl e \<Rightarrow> writeError r e | Inr x \<Rightarrow> k x) s1))"
  proof (cases y)
    case (Inl e)
    have "api_rel uin s1 (snd (writeError r e s1))" using ar_writeError unfolding stays_def by blast
    with Inl show ?thesis by simp
  next
    case (Inr x)
    with y assms(2)[of s x s1] show ?thesis by (simp add: attempt_Ret)
  qed
qed

lemma recorded_cached:
  assumes "recorded d s k h x"
  shows "\<exists>row. idem_of d s k = Some row \<and> cached_row row (RDoc (marshalCached
    \<lparr>cr_Status = res_ResponseStatus x, cr_Body = res_ResponseBody x, cr_RequestHash = h, cr_TransactionID = t\<rparr>))"
  using assms by (auto simp: recorded_def cached_row_def)

lemma Put_rel:
  assumes "scope \<in> set scopes" and "idem_of (db (fst s)) scope key = Some row" and "cached_row row (RDoc (marshalCached c))"
    and "\<And>u. stays (api_rel uin) (g u)"
  shows "api_rel uin s (snd (andThen (Put cache scope key c) g s))"
proof -
  obtain r s1 where e: "Put cache scope key c s = (r, s1)" by (meson surj_pair)
  have 1: "api_rel uin s s1" by (rule Put_coherent[OF e assms(1-3)])
  show ?thesis
  proof (cases r)
    case (Ret u)
    have "api_rel uin s1 (snd (g u s1))" using assms(4) unfolding stays_def by blast
    with api.R_trans[OF 1] e Ret show ?thesis by (simp add: andThen_def)
  qed (simp_all add: andThen_def e 1)
qed

lemma finishIdempotent_rel:
  assumes "recorded (db (fst s)) scope key h x" and "scope \<in> set scopes"
  shows "api_rel uin s (snd (finishIdempotent srv scope key h x s))"
proof -
  let ?t = "case res_Transaction x of None \<Rightarrow> [] | Some t \<Rightarrow> tx_ID t"
  from recorded_cached[OF assms(1), of ?t] obtain row where row: "idem_of (db (fst s)) scope key = Some row"
    "cached_row row (RDoc (marshalCached \<lparr>cr_Status = res_ResponseStatus x, cr_Body = res_ResponseBody x,
      cr_RequestHash = h, cr_TransactionID = ?t\<rparr>))" by blast
  show ?thesis unfolding finishIdempotent_def Let_def
    by (rule Put_rel[OF assms(2) row]) (auto intro!: api_rules)
qed

lemma ar_replayFromCache [api_rules]: "stays (api_rel uin) (replayFromCache srv r scope key h)"
  unfolding replayFromCache_def by (auto intro!: api_rules split: option.splits)

text \<open>A use case of the ledger, run under the key of a request.\<close>

definition serves :: "(string \<Rightarrow> string option) \<Rightarrow> string \<Rightarrow> string \<Rightarrow> (string \<Rightarrow> Result comp) \<Rightarrow> bool" where
  "serves uin scope key run \<longleftrightarrow> (\<forall>h w r w'. run h w = (r, w') \<longrightarrow> ledger_step uin (db w) (db w') \<and>
     (\<forall>x. r = Ret x \<longrightarrow> recorded (db w') scope key h x))"

lemma ar_mutate:
  assumes "serves uin scope key run" and "scope \<in> set scopes"
  shows "stays (api_rel uin) (mutate srv r scope key payload run)"
proof -
  have db_step: "stays (api_rel uin) (onDB (run h))" for h
    unfolding stays_def
  proof
    fix s :: "world \<times> outside"
    obtain x w' where e: "run h (fst s) = (x, w')" by (meson surj_pair)
    then have st: "ledger_step uin (db (fst s)) (db w')" using assms(1) unfolding serves_def by blast
    then have ch: "(api_change uin)\<^sup>*\<^sup>* (db (fst s)) (db w')" by (intro r_into_rtranclp) (simp add: api_change_def)
    from coherent_keeps[OF _ api_change_keeps_done[OF this]] ch show "api_rel uin s (snd (onDB (run h) s))"
      by (simp add: api_rel_def onDB_def e)
  qed
  have after: "api_rel uin s1 (snd (finishIdempotent srv scope key h x s1))" if "onDB (run h) s = (Ret x, s1)" for h s x s1
  proof (rule finishIdempotent_rel[OF _ assms(2)])
    show "recorded (db (fst s1)) scope key h x"
      using that assms(1) unfolding serves_def onDB_def by (auto split: prod.splits)
  qed
  show ?thesis unfolding mutate_def
    by (intro ar_orError api_rules) (auto intro!: api_rules ar_orError_dep[OF db_step after])
qed

lemma CreateAccount_recorded:
  assumes "CreateAccount env cfg cmd w = (Ret x, w')"
  shows "recorded (db w') (ca_IdempotencyScope cmd) (ca_IdempotencyKey cmd) (ca_RequestHash cmd) x"
proof -
  let ?s = "ca_IdempotencyScope cmd" and ?k = "ca_IdempotencyKey cmd"
  from CreateAccount_effect[OF assms] obtain meta where "committed (createAccountBody env cmd meta) (db w) x (db w')"
    by (auto simp: no_effect_def took_effect_def)
  then obtain w0 w1 where w: "db w0 = db w" "db w1 = db w'" "createAccountBody env cmd meta w0 = (Ret x, w1)"
    by (auto simp: committed_def)
  from withKey_Ret[OF w(3)[unfolded createAccountBody_def]] show ?thesis
  proof (elim disjE conjE exE)
    fix v assume none: "idem_of (db w0) ?s ?k = None"
      and d1: "db v = (db w0)\<lparr>idempotency_records := idempotency_records (db w0) @ [claimed_row ?s ?k (ca_RequestHash cmd) (tx_now w0)]\<rparr>"
      and ex: "createAccountWork env cmd meta v = (Ret x, w1)"
    note cl = claimed_lookup[OF none d1]
    from createAccountWork_Ret[OF ex cl] idem_of_opening[OF cl] show ?thesis
      by (auto simp: recorded_def w(2)[symmetric])
  qed (use w in \<open>auto simp: recorded_def\<close>)
qed

lemma serves_ledger:
  assumes "uuid_ok env"
  shows "(\<And>h. ca_IdempotencyScope (ca h) = s \<and> ca_IdempotencyKey (ca h) = k \<and> ca_RequestHash (ca h) = h) \<Longrightarrow>
      serves (uuid_in env) s k (\<lambda>h. CreateAccount env cfg (ca h))"
    and "(\<And>h. tc_IdempotencyScope (tc h) = s \<and> tc_IdempotencyKey (tc h) = k \<and> tc_RequestHash (tc h) = h \<and> in64 (tc_Amount (tc h))) \<Longrightarrow>
      serves (uuid_in env) s k (\<lambda>h. Transfer env cfg ctx (tc h))"
    and "(\<And>h. rc_IdempotencyScope (rc h) = s \<and> rc_IdempotencyKey (rc h) = k \<and> rc_RequestHash (rc h) = h) \<Longrightarrow>
      serves (uuid_in env) s k (\<lambda>h. Reverse env cfg ctx (rc h))"
  unfolding serves_def
  using ledger_step.create[OF assms refl] ledger_step.transfer[OF assms refl] ledger_step.reverse[OF assms refl]
    CreateAccount_recorded Transfer_recorded Reverse_recorded
  by metis+

subsection \<open>Replay under a key\<close>

lemma claimExternal_committed:
  assumes "committed (claimExternal env s k h) d x d'"
  shows "(x = None \<and> idem_of d s k = None \<and> (\<exists>now. d' = claimed_db d s k h now)) \<or>
    (d' = d \<and> (\<exists>row. idem_of d s k = Some row \<and> i_request_hash row = h \<and> i_state row = StateCompleted \<and>
      x = Some (case i_response_status row of None \<Rightarrow> 0 | Some st \<Rightarrow> st, i_response_body row)))"
proof -
  from assms obtain w w' where w: "db w = d" "db w' = d'" and run: "claimExternal env s k h w = (Ret x, w')"
    by (auto simp: committed_def)
  from run[unfolded claimExternal_def andThen_Ret] obtain u w1 ex w2 where lk: "LockKey env s k w = (Ret u, w1)"
    and cl: "Claim env s k h w1 = (Ret ex, w2)"
    and rest: "(case ex of None \<Rightarrow> ret None | Some rec \<Rightarrow> if rec_RequestHash rec \<noteq> h then throw (Conflict k)
        else if rec_State rec \<noteq> StateCompleted then throw (InProgress k)
        else ret (Some (rec_ResponseStatus rec, rec_ResponseBody rec))) w2 = (Ret x, w')" by blast
  have d1: "db w1 = d" using LockKey_Ret[OF lk] w by (simp add: same_tx_def)
  show ?thesis
  proof (cases ex)
    case None
    with Claim_new[of env s k h w1 w2] cl d1 rest w show ?thesis by (auto simp: ret_def claimed_db_def)
  next
    case (Some rec)
    with Claim_taken[of env s k h w1 rec w2] cl d1 rest w show ?thesis
      by (auto simp: same_tx_def idem_record_of_def ret_def throw_def split: if_splits)
  qed
qed

lemma claimed_keeps: "idem_of d s k = None \<Longrightarrow> keeps_done d (claimed_db d s k h now)"
  by (auto simp: keeps_done_def idem_of_claimed)

lemma api_records:
  "keeps_done d d' \<Longrightarrow> (records_ok d \<Longrightarrow> records_ok d') \<Longrightarrow> d' = d\<lparr>idempotency_records := x\<rparr> \<Longrightarrow> (api_change uin)\<^sup>*\<^sup>* d d'"
  by (rule r_into_rtranclp) (auto simp: api_change_def)

lemma claim_change: "idem_of d s k = None \<Longrightarrow> (api_change uin)\<^sup>*\<^sup>* d (claimed_db d s k h now)"
  by (rule api_records[OF claimed_keeps]) (simp_all add: claimed_db_def records_ok_def claimed_answer)

lemma api_db_step:
  assumes "(api_change uin)\<^sup>*\<^sup>* (db (fst s)) (db w')"
  shows "api_rel uin s (w', snd s)"
  using assms coherent_keeps[OF _ api_change_keeps_done[OF assms]] by (simp add: api_rel_def)

lemma discard_change:
  assumes "pool_sql env (discard_stmt scope key) w = (r, w')"
  shows "(api_change uin)\<^sup>*\<^sup>* (db w) (db w')"
proof -
  have "(api_change uin)\<^sup>*\<^sup>* d d'" if run: "discard_stmt scope key now d = Inr ((), d')" for now d d'
  proof (rule api_records)
    show "keeps_done d d'" unfolding keeps_done_def using records.discard_done[OF _ _ run]
      by (auto simp: StateCompleted_def StateInProgress_def)
    show "records_ok d'" if "records_ok d"
      using that run by (auto simp: discard_stmt_def records_ok_def list_all_iff)
    show "d' = d\<lparr>idempotency_records := idempotency_records d'\<rparr>" using run by (auto simp: discard_stmt_def)
  qed
  with assms show ?thesis by (auto simp: pool_sql_def sql_def split: commit_fault.splits option.splits sum.splits)
qed

lemma ar_Discard: "stays (api_rel uin) (onDB (Discard env scope key))"
  unfolding stays_def Discard_def onDB_mapErr
proof
  fix s :: "world \<times> outside"
  obtain r w' where e: "pool_sql env (discard_stmt scope key) (fst s) = (r, w')" by (meson surj_pair)
  from api_db_step[OF discard_change[OF e]]
  show "api_rel uin s (snd (mapErr (Wrap (Sprintf ''idempotency: discard: %w'' [])) (onDB (pool_sql env (discard_stmt scope key))) s))"
    by (cases r) (simp_all add: mapErr_def onDB_def e)
qed

text \<open>Completing a key that is claimed but not completed.\<close>

lemma complete_change:
  assumes row: "idem_of d s k = Some (claimed_row s k h now)" and st: "100 \<le> st" "st \<le> 999"
    and run: "committed (Complete env s k st b None) d u d'"
  shows "(api_change uin)\<^sup>*\<^sup>* d d' \<and> (\<exists>row. idem_of d' s k = Some row \<and> i_request_hash row = h \<and> i_state row = StateCompleted \<and>
    i_response_status row = Some st \<and> i_response_body row = Some b)"
proof -
  from run obtain w w' where w: "db w = d" "db w' = d'" "Complete env s k st b None w = (Ret u, w')" by (auto simp: committed_def)
  from Complete_Ret[OF w(3) row[folded w(1)]] w(1,2) obtain t where
    d': "d' = d\<lparr>idempotency_records := map (\<lambda>x. if i_scope x = s \<and> i_key x = k then complete_row st b t (tx_now w) x else x)
      (idempotency_records d)\<rparr>" by blast
  note up = idem_of_update[OF row, of "complete_row st b t (tx_now w)", folded d', simplified]
  have "keeps_done d d'"
    using up row by (auto simp: keeps_done_def claimed_row_def StateCompleted_def StateInProgress_def)
  moreover have "records_ok d'" if "records_ok d"
    using that st by (simp add: d' records_ok_def completed_answer list_all_update)
  ultimately have "(api_change uin)\<^sup>*\<^sup>* d d'" using d' by (rule api_records)
  with up show ?thesis by simp
qed

definition quiet_work :: "(int \<times> json) acomp \<Rightarrow> bool" where
  "quiet_work m \<longleftrightarrow> (\<forall>s r s'. m s = (r, s') \<longrightarrow> db (fst s') = db (fst s) \<and> redis_db (snd s') = redis_db (snd s) \<and>
     prefix (kafka_log (snd s)) (kafka_log (snd s')) \<and> (\<forall>st doc. r = Ret (st, doc) \<longrightarrow> 100 \<le> st \<and> st \<le> 999))"

lemma quiet_rel:
  assumes "quiet_work m" and "m s = (r, s')"
  shows "api_rel uin s s' \<and> db (fst s') = db (fst s)"
proof -
  have "db (fst s') = db (fst s) \<and> redis_db (snd s') = redis_db (snd s) \<and> prefix (kafka_log (snd s)) (kafka_log (snd s'))"
    using assms unfolding quiet_work_def by blast
  then show ?thesis by (simp add: api_rel_def)
qed

lemma runExternalIdempotent_rel:
  assumes quiet: "quiet_work work" and run: "runExternalIdempotent srv scope key h work s = (r, s')"
  shows "api_rel uin s s' \<and> (\<forall>st b. r = Ret (st, b) \<longrightarrow> (\<exists>row. idem_of (db (fst s')) scope key = Some row \<and>
    cached_row row (RDoc (marshalCached \<lparr>cr_Status = st, cr_Body = b, cr_RequestHash = h, cr_TransactionID = []\<rparr>))))"
proof -
  let ?env = "s_db srv" and ?n = "DBMaxTxRetries (s_cfg srv)"
  obtain rc w1 where c: "InTx ?env ?n (claimExternal ?env scope key h) (fst s) = (rc, w1)" by (meson surj_pair)
  note out = InTx_outcome[OF c]
  have first: "(api_change uin)\<^sup>*\<^sup>* (db (fst s)) (db w1)"
    using out claim_change by (auto dest!: claimExternal_committed)
  have rel1: "api_rel uin s (w1, snd s)" by (rule api_db_step[OF first])
  show ?thesis
  proof (cases "rc = Ret None")
    case False
    with run c have e: "s' = (w1, snd s)" "\<forall>x. r = Ret x \<longrightarrow> rc = Ret (Some x)"
      by (auto simp: runExternalIdempotent_def andThen_def onDB_def ret_def split: res.splits option.splits)
    have "\<exists>row. idem_of (db w1) scope key = Some row \<and> cached_row row (RDoc (marshalCached
        \<lparr>cr_Status = st, cr_Body = b, cr_RequestHash = h, cr_TransactionID = []\<rparr>))" if "r = Ret (st, b)" for st b
      using e(2) that out by (auto simp: cached_row_def dest!: claimExternal_committed)
    with e(1) rel1 show ?thesis by simp
  next
    case True
    with out obtain now where d1: "db w1 = claimed_db (db (fst s)) scope key h now" "idem_of (db (fst s)) scope key = None"
      by (auto dest!: claimExternal_committed)
    obtain rk s2 where k: "work (w1, snd s) = (rk, s2)" by (meson surj_pair)
    have rel2: "api_rel uin s s2" "db (fst s2) = db w1" using quiet_rel[OF quiet k, of uin] api.R_trans[OF rel1] by auto
    have row2: "idem_of (db (fst s2)) scope key = Some (claimed_row scope key h now)"
      unfolding rel2(2) using d1 by (simp add: idem_of_claimed)
    show ?thesis
    proof (cases rk)
      case (Err e)
      with run c k True have "(\<forall>x. r \<noteq> Ret x) \<and> s' = snd (onDB (Discard ?env scope key) s2)"
        by (auto simp: runExternalIdempotent_def andThen_def onDB_def attempt_def throw_def split: prod.splits res.splits)
      moreover have "api_rel uin s2 (snd (onDB (Discard ?env scope key) s2))" using ar_Discard unfolding stays_def by blast
      ultimately show ?thesis using api.R_trans[OF rel2(1)] by auto
    next
      case (Panic p)
      with run c k True rel2 show ?thesis
        by (auto simp: runExternalIdempotent_def andThen_def onDB_def attempt_def)
    next
      case (Ret x)
      obtain st doc where x: "x = (st, doc)" by fastforce
      obtain rf w3 where f: "InTx ?env ?n (Complete ?env scope key st doc None) (fst s2) = (rf, w3)" by (meson surj_pair)
      from run c k True Ret x f have e: "s' = (w3, snd s2)" "\<forall>y. r = Ret y \<longrightarrow> y = (st, Some doc) \<and> (\<exists>u. rf = Ret u)"
        by (auto simp: runExternalIdempotent_def andThen_def onDB_def attempt_def ret_def split: res.splits)
      have st: "100 \<le> st" "st \<le> 999" using quiet k unfolding Ret x quiet_work_def by blast+
      have "(api_change uin)\<^sup>*\<^sup>* (db (fst s2)) (db w3)"
        using InTx_outcome[OF f] complete_change[OF row2 st] by auto
      from api.R_trans[OF rel2(1) api_db_step[OF this]] have rel: "api_rel uin s s'" by (simp add: e(1))
      have "\<exists>row. idem_of (db w3) scope key = Some row \<and> cached_row row (RDoc (marshalCached
          \<lparr>cr_Status = st, cr_Body = Some doc, cr_RequestHash = h, cr_TransactionID = []\<rparr>))" if "rf = Ret u" for u
        using InTx_Ret[OF f[unfolded that]] complete_change[OF row2 st] by (fastforce simp: cached_row_def)
      with e rel show ?thesis by auto
    qed
  qed
qed

lemma quiet_replay:
  "quiet_work (andThen (onKafka (Replay env brk req)) (\<lambda>result. ret (200, marshalReplayResult result)))"
  unfolding quiet_work_def
proof (intro allI impI)
  fix s :: "world \<times> outside" and r :: "(int \<times> json) result" and s'
  assume run: "andThen (onKafka (Replay env brk req)) (\<lambda>result. ret (200, marshalReplayResult result)) s = (r, s')"
  obtain x w' l where e: "Replay env brk req (fst s, kafka_log (snd s)) = (x, (w', l))" by (metis prod.collapse)
  with staysD[OF sdb_Replay e] staysD[OF fr_Replay e] run
  show "db (fst s') = db (fst s) \<and> redis_db (snd s') = redis_db (snd s) \<and> prefix (kafka_log (snd s)) (kafka_log (snd s')) \<and>
      (\<forall>st doc. r = Ret (st, doc) \<longrightarrow> 100 \<le> st \<and> st \<le> 999)"
    by (cases x) (auto simp: andThen_def onKafka_def ret_def same_db_def pub_frame_def)
qed

lemma ar_handleReplay: "stays (api_rel uin) (handleReplay srv r)"
proof -
  have ex: "stays (api_rel uin) (orError r (runExternalIdempotent srv scopeReplay key h
      (andThen (onKafka (Replay env brk req)) (\<lambda>result. ret (200, marshalReplayResult result))))
      (\<lambda>(status, doc). andThen (Put cache scopeReplay key \<lparr>cr_Status = status, cr_Body = doc, cr_RequestHash = h,
          cr_TransactionID = []\<rparr>) (\<lambda>_. writeRaw status doc)))" for key h env brk req cache
  proof (rule ar_orError_dep)
    show "stays (api_rel uin) (runExternalIdempotent srv scopeReplay key h
      (andThen (onKafka (Replay env brk req)) (\<lambda>result. ret (200, marshalReplayResult result))))"
      unfolding stays_def using runExternalIdempotent_rel[OF quiet_replay] by (metis prod.collapse)
  next
    fix s x s1
    assume x: "runExternalIdempotent srv scopeReplay key h
      (andThen (onKafka (Replay env brk req)) (\<lambda>result. ret (200, marshalReplayResult result))) s = (Ret x, s1)"
    obtain st doc where e: "x = (st, doc)" by fastforce
    from runExternalIdempotent_rel[OF quiet_replay x] e obtain row where
      row: "idem_of (db (fst s1)) scopeReplay key = Some row"
        "cached_row row (RDoc (marshalCached \<lparr>cr_Status = st, cr_Body = doc, cr_RequestHash = h, cr_TransactionID = []\<rparr>))" by blast
    have "scopeReplay \<in> set scopes" by (simp add: scopes_def)
    from Put_rel[OF this row, of uin "\<lambda>_. writeRaw st doc" cache] ar_writeRaw
    show "api_rel uin s1 (snd ((case x of (status, doc) \<Rightarrow> andThen (Put cache scopeReplay key
        \<lparr>cr_Status = status, cr_Body = doc, cr_RequestHash = h, cr_TransactionID = []\<rparr>) (\<lambda>_. writeRaw status doc)) s1))"
      by (simp add: e)
  qed
  show ?thesis unfolding handleReplay_def Let_def
    by (intro ar_orError ar_lift api_basic ar_replayFromCache) (auto intro!: api_rules ex)
qed

subsection \<open>Reads\<close>

definition same_data :: "world \<Rightarrow> world \<Rightarrow> bool" where
  "same_data w w' \<longleftrightarrow> db w' = db w"

interpretation rd: step_rel same_data
  by unfold_locales (simp_all add: same_data_def)

lemmas rd_basic = rd.stays_ret rd.stays_throw rd.stays_mapErr rd.stays_andThen

lemma rd_sql:
  assumes "\<And>now d x d'. stmt now d = Inr (x, d') \<Longrightarrow> d' = d"
  shows "stays same_data (sql env stmt)" and "stays same_data (pool_sql env stmt)"
  using assms by (fastforce simp: stays_def same_data_def pool_sql_def sql_def split: commit_fault.splits option.splits sum.splits prod.splits)+

lemma rd_goNow: "stays same_data (goNow env)"
  by (simp add: stays_def same_data_def goNow_def)

lemma rd_GetAccount: "stays same_data (GetAccount env i)"
  unfolding GetAccount_def by (intro rd_basic rd_sql) (auto simp: select_account_stmt_def split: option.splits)

lemma rd_GetBalance: "stays same_data (GetBalance env i)"
  unfolding GetBalance_def by (intro rd_basic rd_sql) (auto simp: select_balance_stmt_def split: option.splits)

lemma rd_GetTransaction: "stays same_data (GetTransaction env i)"
  unfolding GetTransaction_def loadTransaction_def
  by (intro rd_basic rd_sql) (auto simp: select_transaction_stmt_def select_entries_stmt_def split: option.splits sum.splits)

lemma rd_ListEntries: "stays same_data (ListEntries env fmt parse i n cursor)"
proof -
  have "stays same_data (pool_sql env (list_entries_stmt env i pos k))" for pos k
    by (rule rd_sql) (auto simp: list_entries_stmt_def Let_def split: sum.splits)
  then show ?thesis unfolding ListEntries_def Let_def
    by (auto intro!: rd_basic rd_GetAccount split: option.splits)
qed

lemma rd_scanBalances: "stays same_data (scanBalances rows rep)"
  by (induction rows rep rule: scanBalances.induct) (auto simp: Let_def intro!: rd_basic)

lemma rd_scanTransactions: "stays same_data (scanTransactions txs rep)"
  by (induction txs rep rule: scanTransactions.induct) (auto simp: Let_def intro!: rd_basic)

lemmas rd_scans = rd_scanBalances rd_scanTransactions

lemma rd_RunReconciliation: "stays same_data (RunReconciliation env)"
  unfolding RunReconciliation_def
  by (intro rd_basic rd_sql rd_goNow rd_scans) (auto simp: balance_sums_stmt_def transaction_sums_stmt_def)

lemma ar_read [api_rules]: "stays same_data m \<Longrightarrow> stays (api_rel uin) (onDB m)"
  by (rule ar_onDB_same) (auto dest: staysD simp: same_data_def)

lemmas read_calls = rd_GetAccount rd_GetBalance rd_GetTransaction rd_ListEntries rd_RunReconciliation

subsection \<open>Handlers, middleware, routes\<close>

lemma ar_reads:
  "stays (api_rel uin) (handleGetAccount srv r)" "stays (api_rel uin) (handleGetBalance srv r)"
  "stays (api_rel uin) (handleListEntries srv r)" "stays (api_rel uin) (handleGetTransaction srv r)"
  "stays (api_rel uin) (handleReconcile srv r)" "stays (api_rel uin) (handleLive r)"
  unfolding handleGetAccount_def handleGetBalance_def handleListEntries_def handleGetTransaction_def handleReconcile_def
    handleLive_def Let_def
  by (auto intro!: api_rules read_calls split: option.splits)

lemma ar_handleReady: "stays (api_rel uin) (handleReady srv r)"
proof -
  have p: "stays (api_rel uin) (onDB (PingDB env))" for env
    unfolding PingDB_def by (intro ar_read rd_sql) auto
  have q: "stays (api_rel uin) (redisPing rc)" for rc
    unfolding stays_def
  proof
    fix s
    obtain x s' where e: "redisPing rc s = (x, s')" by (meson surj_pair)
    have "redis_sub (redis_db (snd s')) (redis_db (snd s))"
      using redisDo_redis[OF e[unfolded redisPing_def]] by (auto simp: redis_sub_def dest: survive_Some)
    with redisDo_frame[OF e[unfolded redisPing_def]] coherent_sub show "api_rel uin s (snd (redisPing rc s))"
      by (auto simp: api_rel_def e)
  qed
  show ?thesis unfolding handleReady_def
    by (auto simp: Let_def intro!: api_rules p q split: option.splits sum.splits prod.splits)
qed

lemma ar_failpoint_handlers:
  "stays (api_rel uin) (handleListFailpoints srv r)" "stays (api_rel uin) (handleArmFailpoint srv r)"
  "stays (api_rel uin) (handleResetFailpoints srv r)"
proof -
  have w: "stays (api_rel uin) (\<lambda>s. writeJSON st (f s) s)" for st f
    unfolding stays_def using ar_writeJSON unfolding stays_def by blast
  have a: "stays (api_rel uin) (armFps n sp)" for n sp
    by (rule stays_same) (auto simp: same_stores_def armFps_def split: prod.splits option.splits)
  have z: "stays (api_rel uin) (\<lambda>s. (Ret (), ((fst s)\<lparr>fps := Reset (fps (fst s))\<rparr>, snd s)))"
    by (rule stays_same) (simp add: same_stores_def)
  have act: "stays (api_rel uin) (writeActive srv)" unfolding writeActive_def by (rule w)
  show "stays (api_rel uin) (handleListFailpoints srv r)" unfolding handleListFailpoints_def Let_def by (rule w)
  show "stays (api_rel uin) (handleArmFailpoint srv r)" unfolding handleArmFailpoint_def by (intro api_rules a act)
  show "stays (api_rel uin) (handleResetFailpoints srv r)" unfolding handleResetFailpoints_def by (intro api_rules z act)
qed

lemma ar_mutations:
  assumes "uuid_ok (s_db srv)"
  shows "stays (api_rel (uuid_in (s_db srv))) (handleCreateAccount srv r)"
    and "stays (api_rel (uuid_in (s_db srv))) (handleTransfer srv r)"
    and "stays (api_rel (uuid_in (s_db srv))) (handleReverse srv r)"
proof -
  note sv = serves_ledger[OF assms]
  have sc: "scopeCreateAccount \<in> set scopes" "scopeTransfer \<in> set scopes" "scopeReverse \<in> set scopes"
    by (simp_all add: scopes_def)
  show "stays (api_rel (uuid_in (s_db srv))) (handleCreateAccount srv r)"
    unfolding handleCreateAccount_def Let_def
    by (intro ar_orError ar_lift) (auto intro!: ar_mutate[OF _ sc(1)] sv(1))
  show "stays (api_rel (uuid_in (s_db srv))) (handleReverse srv r)"
    unfolding handleReverse_def Let_def
    by (intro ar_orError ar_lift) (auto intro!: ar_mutate[OF _ sc(3)] sv(3))
  show "stays (api_rel (uuid_in (s_db srv))) (handleTransfer srv r)"
    unfolding handleTransfer_def Let_def
  proof (rule ar_orError[OF ar_lift], rule ar_orError_dep[OF ar_lift])
    fix key s vals s1
    assume v: "lift (decodeJSON srv transferFields r) s = (Ret vals, s1)"
    have "decodeJSON srv transferFields r = Inr vals"
      using v by (auto simp: lift_def ret_def throw_def split: sum.splits)
    then have "in64 (tr_Amount (decodeTransfer vals))"
      using int_field_in64 by (fastforce simp: decodeJSON_def decodeTransfer_def split: body.splits sum.splits)
    then have "stays (api_rel (uuid_in (s_db srv))) (mutate srv r scopeTransfer key (marshalTransferRequest (decodeTransfer vals))
        (\<lambda>h. Transfer (s_db srv) (s_cfg srv) (hr_Context r) (transferCommand (decodeTransfer vals) key h)))"
      by (intro ar_mutate[OF _ sc(2)] sv(2)) (simp add: transferCommand_def)
    then show "api_rel (uuid_in (s_db srv)) s1 (snd (mutate srv r scopeTransfer key (marshalTransferRequest (decodeTransfer vals))
        (\<lambda>h. Transfer (s_db srv) (s_cfg srv) (hr_Context r) (transferCommand (decodeTransfer vals) key h)) s1))"
      unfolding stays_def by blast
  qed
qed

text \<open>The labels of a request fit its collectors.\<close>

lemma observeRequest_run:
  "observeRequest pattern r s = (Ret (), (fst s, (snd s)\<lparr>samples := samples (snd s) @
     [(co_Name HTTPRequests, [hr_Method r, pattern, decimal (sentStatus (snd s)), ans_code (snd s)]),
      (co_Name HTTPDuration, [hr_Method r, pattern, decimal (sentStatus (snd s))])]\<rparr>))"
  by (simp add: observeRequest_def WithLabelValues_def HTTPRequests_def HTTPDuration_def counter_def andThen_def Let_def)

text \<open>A handler that keeps the contract on every request, and the layers around it.\<close>

definition contract :: "(string \<Rightarrow> string option) \<Rightarrow> handler \<Rightarrow> bool" where
  "contract uin h \<longleftrightarrow> (\<forall>r. stays (api_rel uin) (h r))"

lemma contract_layers:
  assumes "contract uin h"
  shows "contract uin (withRequestContext srv h)" "contract uin (withFailpoints srv h)" "contract uin (withRateLimit srv pattern h)"
    "contract uin (withRecovery h)" "contract uin (withObservability pattern h)"
proof -
  have h: "stays (api_rel uin) (h r)" for r using assms by (simp add: contract_def)
  have u: "stays (api_rel uin) (onDB (newUUID env))" for env by (rule ar_onDB_same) (auto simp: newUUID_def)
  show "contract uin (withRequestContext srv h)" unfolding contract_def withRequestContext_def Let_def
    by (auto intro!: api_rules u h)
  show "contract uin (withRateLimit srv pattern h)" unfolding contract_def withRateLimit_def
    by (auto intro!: api_rules h split: option.splits prod.splits)
  have "stays (api_rel uin) (observeRequest pattern r)" for r
    by (rule stays_same) (simp add: observeRequest_run same_stores_def)
  then show "contract uin (withObservability pattern h)" unfolding contract_def withObservability_def
    by (intro allI api_rules h)
  have e: "api_rel uin s (snd (writeError r x s))" "api_rel uin s (snd (h r s))" for r x s
    using ar_writeError h unfolding stays_def by blast+
  then show "contract uin (withFailpoints srv h)" unfolding contract_def stays_def withFailpoints_def Let_def
    by (auto split: sum.splits)
  show "contract uin (withRecovery h)" unfolding contract_def stays_def
  proof (intro allI)
    fix r s
    obtain x s1 where x: "h r s = (x, s1)" by (meson surj_pair)
    have "api_rel uin s s1" using e(2)[of s r] by (simp add: x)
    with e(1) api.R_trans show "api_rel uin s (snd (withRecovery h r s))"
      by (cases x) (auto simp: withRecovery_def x)
  qed
qed

lemma contract_route: "contract uin h \<Longrightarrow> contract uin (route srv pattern h limited)"
  unfolding route_def Let_def using contract_layers by auto

lemma contract_endpoints:
  assumes "uuid_ok (s_db srv)" and "(m, p, h) \<in> set (endpoints srv enabled)"
  shows "contract (uuid_in (s_db srv)) h"
proof -
  let ?u = "uuid_in (s_db srv)"
  have all: "contract ?u (handleGetAccount srv)" "contract ?u (handleGetBalance srv)" "contract ?u (handleListEntries srv)"
    "contract ?u (handleGetTransaction srv)" "contract ?u (handleCreateAccount srv)" "contract ?u (handleTransfer srv)"
    "contract ?u (handleReverse srv)" "contract ?u (handleReplay srv)" "contract ?u handleLive" "contract ?u (handleReady srv)"
    "contract ?u (handleReconcile srv)" "contract ?u (handleListFailpoints srv)" "contract ?u (handleArmFailpoint srv)"
    "contract ?u (handleResetFailpoints srv)"
    by (simp_all add: contract_def ar_reads ar_mutations[OF assms(1)] ar_handleReplay ar_handleReady ar_failpoint_handlers)
  note rt = all[THEN contract_route] and rc = all[THEN contract_layers(1)]
  from assms(2) show ?thesis by (auto simp: endpoints_def split: if_splits intro: all rt rc)
qed

lemma contract_mux:
  assumes "uuid_ok (s_db srv)"
  shows "contract (uuid_in (s_db srv)) (mux srv method path)"
  unfolding contract_def stays_def
proof (intro allI)
  fix r and s :: "world \<times> outside"
  let ?on = "filter (\<lambda>(m, p, h). matchSegs p path [] \<noteq> None) (endpoints srv (Enabled (fps (fst s))))"
  show "api_rel (uuid_in (s_db srv)) s (snd (mux srv method path r s))"
  proof (cases "find (\<lambda>(m, p, h). methodMatches m method) ?on")
    case None
    have "api_rel (uuid_in (s_db srv)) s (snd (writeHeader st s))" for st
      using ar_write(2) unfolding stays_def by blast
    with None show ?thesis by (simp add: mux_def Let_def)
  next
    case (Some e)
    obtain m p h where e: "e = (m, p, h)" by (cases e) auto
    have "(m, p, h) \<in> set (endpoints srv (Enabled (fps (fst s))))"
      using find_Some_mem[OF Some] by (simp add: e)
    from contract_endpoints[OF assms this] have "api_rel (uuid_in (s_db srv)) s (snd (h q s))" for q
      unfolding contract_def stays_def by blast
    with Some show ?thesis by (simp add: mux_def Let_def e)
  qed
qed

lemma serve_rel:
  assumes "uuid_ok (s_db srv)" and "serve srv method path r s = (x, s')"
  shows "api_rel (uuid_in (s_db srv)) s s'"
proof -
  have "contract (uuid_in (s_db srv)) (withRecovery (mux srv method path))"
    by (rule contract_layers(4)[OF contract_mux[OF assms(1)]])
  then have "api_rel (uuid_in (s_db srv)) (fresh s) s'"
    using assms(2) unfolding serve_def Handler_def contract_def by (metis staysD)
  moreover have "api_rel (uuid_in (s_db srv)) s (fresh s)"
    by (rule same_stores_rel) (simp add: same_stores_def fresh_def)
  ultimately show ?thesis using api.R_trans by blast
qed

end
