(* ===== verification/Api_Answers.thy ===== *)
theory Api_Answers
  imports Api_Facts
begin

text \<open>
  What a client sees: every request is answered exactly once, also when a handler panics. The
  argument follows the code: whatever a handler does before it answers leaves the response
  untouched, and each of its branches ends in one write.
\<close>

named_theorems answer_rules \<open>handlers that answer\<close>
named_theorems silent_rules \<open>calls that leave the response alone\<close>

definition unanswered :: "world \<times> outside \<Rightarrow> bool" where
  "unanswered s \<longleftrightarrow> ans_status (snd s) = None \<and> ans_body (snd s) = []"

definition answered :: "world \<times> outside \<Rightarrow> bool" where
  "answered s \<longleftrightarrow> (\<exists>st. ans_status (snd s) = Some st \<and> 100 \<le> st \<and> st \<le> 999) \<and> length (ans_body (snd s)) \<le> 1"

definition silent :: "'a acomp \<Rightarrow> bool" where
  "silent m \<longleftrightarrow> (\<forall>s r s'. unanswered s \<longrightarrow> m s = (r, s') \<longrightarrow> unanswered s')"

definition answers :: "unit acomp \<Rightarrow> bool" where
  "answers m \<longleftrightarrow> (\<forall>s r s'. unanswered s \<longrightarrow> m s = (r, s') \<longrightarrow>
     (r = Ret () \<and> answered s') \<or> ((\<exists>p. r = Panic p) \<and> unanswered s'))"

lemma answersI: "(\<And>s r s'. unanswered s \<Longrightarrow> m s = (r, s') \<Longrightarrow>
    (r = Ret () \<and> answered s') \<or> ((\<exists>p. r = Panic p) \<and> unanswered s')) \<Longrightarrow> answers m"
  unfolding answers_def by blast

lemma answersD: "answers m \<Longrightarrow> unanswered s \<Longrightarrow> m s = (r, s') \<Longrightarrow>
    (r = Ret () \<and> answered s') \<or> ((\<exists>p. r = Panic p) \<and> unanswered s')"
  unfolding answers_def by blast

lemma silentD: "silent m \<Longrightarrow> unanswered s \<Longrightarrow> m s = (r, s') \<Longrightarrow> unanswered s'"
  unfolding silent_def by blast

subsection \<open>Silence\<close>

lemma silent_basic [silent_rules]: "silent (ret x)" "silent (throw e)" "silent (setHeader k v)" "silent (onDB c)" "silent (onKafka q)"
    "silent (recordCode t)" "silent (WithLabelValues m vals)"
  by (auto simp: silent_def unanswered_def ret_def throw_def setHeader_def onDB_def onKafka_def recordCode_def WithLabelValues_def
      split: prod.splits if_splits)

lemma silent_andThen [silent_rules]: "silent m \<Longrightarrow> (\<And>x. silent (f x)) \<Longrightarrow> silent (andThen m f)"
proof -
  assume m: "silent m" and f: "\<And>x. silent (f x)"
  show ?thesis unfolding silent_def
  proof (intro allI impI)
    fix s r s' assume s: "unanswered s" and run: "andThen m f s = (r, s')"
    obtain x s1 where x: "m s = (x, s1)" by (meson surj_pair)
    from silentD[OF m s x] silentD[OF f] x run show "unanswered s'" by (cases x) (auto simp: andThen_def)
  qed
qed

lemma silent_attempt [silent_rules]: "silent m \<Longrightarrow> silent (attempt m)"
  unfolding silent_def attempt_def by (auto split: prod.splits res.splits)

lemma silent_mapErr [silent_rules]: "silent m \<Longrightarrow> silent (mapErr g m)"
  unfolding silent_def mapErr_def by (auto split: prod.splits res.splits)

lemma silent_lift [silent_rules]: "silent (lift x)"
  by (cases x) (simp_all add: lift_def silent_rules)

lemma silent_redisDo [silent_rules]: "silent (redisDo rc cmd)"
  unfolding silent_def unanswered_def using redisDo_frame(4,5) by metis

lemma silent_redis [silent_rules]:
  "silent (redisGet rc k)" "silent (redisSet rc k j)" "silent (redisIncr rc k)" "silent (redisPing rc)"
  by (simp_all add: redisGet_def redisSet_def redisIncr_def redisPing_def silent_rules)

lemma silent_guard: "silent m \<Longrightarrow> silent (\<lambda>s. if b then (Panic p, s) else m s)"
  unfolding silent_def by (auto split: if_splits)

lemma silent_Get [silent_rules]: "silent (Get cache scope key)"
proof -
  have "silent (andThen (redisGet rc k) (\<lambda>r. case r of Inl e \<Rightarrow> ret None | Inr None \<Rightarrow> ret None
      | Inr (Some raw) \<Rightarrow> ret (unmarshalCached raw)))" for rc k
    by (auto intro!: silent_rules split: sum.splits option.splits)
  then show ?thesis unfolding silent_def Get_def by (auto split: option.splits if_splits)
qed

lemma silent_Put [silent_rules]: "silent (Put cache scope key c)"
proof -
  have "silent (andThen (redisSet rc k j) (\<lambda>_. ret ()))" for rc k j by (intro silent_rules)
  then show ?thesis unfolding silent_def Put_def by (auto split: option.splits if_splits)
qed

lemma silent_Allow [silent_rules]: "silent (Allow env f limiter key)"
  unfolding Allow_def by (auto intro!: silent_rules silent_guard split: option.splits sum.splits)

lemma silent_runExternal [silent_rules]: "silent work \<Longrightarrow> silent (runExternalIdempotent srv scope key h work)"
  unfolding runExternalIdempotent_def by (auto intro!: silent_rules split: option.splits sum.splits prod.splits)

subsection \<open>Answers\<close>

lemma HTTPStatus_range: "100 \<le> HTTPStatus c" "HTTPStatus c \<le> 999"
  by (cases c; simp)+

lemma answers_write [answer_rules]:
  "answers (writeRaw st b)" and answers_writeJSON: "100 \<le> st \<Longrightarrow> st \<le> 999 \<Longrightarrow> answers (writeJSON st j)"
  and answers_writeHeader: "100 \<le> st \<Longrightarrow> st \<le> 999 \<Longrightarrow> answers (writeHeader st)"
  by (auto simp: answers_def answered_def unanswered_def writeRaw_def writeJSON_def writeHeader_def writeDoc_def setHeader_def
      andThen_def ret_def split: option.splits if_splits)

lemma answers_writeError [answer_rules]: "answers (writeError r e)"
proof (rule answersI)
  fix s x s' assume s: "unanswered s" and run: "writeError r e s = (x, s')"
  let ?s = "(fst s, (snd s)\<lparr>ans_code := code_string (err_code (From e))\<rparr>)"
  have "unanswered ?s" using s by (simp add: unanswered_def)
  moreover obtain j where "writeJSON (HTTPStatus (err_code (From e))) j ?s = (x, s')"
    using run by (simp add: writeError_def Let_def andThen_def recordCode_def)
  ultimately show "(x = Ret () \<and> answered s') \<or> ((\<exists>p. x = Panic p) \<and> unanswered s')"
    using answersD[OF answers_writeJSON[OF HTTPStatus_range]] by blast
qed

text \<open>A call that cannot return an error, before a call that answers.\<close>

definition errless :: "'a acomp \<Rightarrow> bool" where
  "errless m \<longleftrightarrow> (\<forall>s e. fst (m s) \<noteq> Err e)"

lemma answers_andThen:
  assumes "silent m" and "errless m" and "\<And>x. answers (f x)"
  shows "answers (andThen m f)"
proof (rule answersI)
  fix s r s' assume s: "unanswered s" and run: "andThen m f s = (r, s')"
  obtain x s1 where m: "m s = (x, s1)" by (meson surj_pair)
  note s1 = silentD[OF assms(1) s m]
  show "(r = Ret () \<and> answered s') \<or> ((\<exists>p. r = Panic p) \<and> unanswered s')"
  proof (cases x)
    case (Ret y)
    with run m have "f y s1 = (r, s')" by (simp add: andThen_def)
    from answersD[OF assms(3) s1 this] show ?thesis .
  next
    case (Err e)
    with m assms(2) show ?thesis by (metis errless_def fst_conv)
  next
    case (Panic p)
    with run m s1 show ?thesis by (auto simp: andThen_def)
  qed
qed

lemma errless_basic: "errless (ret x)" "errless (setHeader k v)" "errless (attempt m)" "errless (onDB (newUUID env))"
    "errless (recordCode t)" "errless (WithLabelValues c vals)"
  by (auto simp: errless_def ret_def setHeader_def attempt_def onDB_def newUUID_def recordCode_def WithLabelValues_def
      split: prod.splits res.splits)

lemma errless_andThen: "errless m \<Longrightarrow> (\<And>x. errless (f x)) \<Longrightarrow> errless (andThen m f)"
  unfolding errless_def andThen_def by (auto split: prod.splits res.splits) (metis fst_conv)+

lemma errless_redis: "errless (redisDo rc cmd)"
  unfolding errless_def using redisDo_frame(6) by (metis prod.collapse res.distinct(1))

lemma errless_cache: "errless (Get cache scope key)" "errless (Put cache scope key c)" "errless (redisPing rc)"
proof -
  have "errless (andThen (redisGet rc k) (\<lambda>r. case r of Inl e \<Rightarrow> ret None | Inr None \<Rightarrow> ret None
      | Inr (Some raw) \<Rightarrow> ret (unmarshalCached raw)))" for rc k
    unfolding redisGet_def by (auto intro!: errless_andThen errless_redis errless_basic split: sum.splits option.splits)
  then show "errless (Get cache scope key)" unfolding errless_def Get_def by (auto split: option.splits)
  have "errless (andThen (redisSet rc k j) (\<lambda>_. ret ()))" for rc k j
    unfolding redisSet_def by (intro errless_andThen errless_redis errless_basic)
  then show "errless (Put cache scope key c)" unfolding errless_def Put_def by (auto split: option.splits)
  show "errless (redisPing rc)" unfolding redisPing_def by (rule errless_redis)
qed

lemma errless_Allow: "errless (Allow env f limiter key)"
proof -
  have n: "errless (onDB (goNow env))" by (simp add: errless_def onDB_def goNow_def)
  have i: "errless (redisIncr rc k)" for rc k unfolding redisIncr_def by (rule errless_redis)
  have g: "errless (\<lambda>s. if b then (Panic p, s) else m s)" if "errless m" for b p and m :: "(bool \<times> time) acomp"
    using that by (simp add: errless_def)
  show ?thesis unfolding Allow_def
    by (auto intro!: errless_andThen i g errless_basic n split: option.splits sum.splits)
qed

lemma answers_orError [answer_rules]: "silent m \<Longrightarrow> (\<And>x. answers (k x)) \<Longrightarrow> answers (orError r m k)"
  unfolding orError_def
  by (rule answers_andThen) (auto intro!: silent_rules errless_basic answer_rules split: sum.splits)

text \<open>The cache answers, or nothing is written and the database is asked.\<close>

lemma answers_replay:
  assumes "answers k"
  shows "answers (andThen (replayFromCache srv r scope key h) (\<lambda>replayed. if replayed then ret () else k))"
proof -
  have "andThen (replayFromCache srv r scope key h) (\<lambda>replayed. if replayed then ret () else k) =
    andThen (Get (s_cache srv) scope key) (\<lambda>cached. case cached of None \<Rightarrow> k
      | Some c \<Rightarrow> if cr_RequestHash c \<noteq> h then writeError r (Conflict key)
          else andThen (setHeader HeaderIdempotentHit ''true'') (\<lambda>_. writeRaw (cr_Status c) (cr_Body c)))" (is "_ = ?R")
  proof
    fix s
    obtain x s1 where "Get (s_cache srv) scope key s = (x, s1)" by (meson surj_pair)
    then show "andThen (replayFromCache srv r scope key h) (\<lambda>replayed. if replayed then ret () else k) s = ?R s"
      by (cases x) (auto simp: replayFromCache_def andThen_def ret_def setHeader_def split: prod.splits res.splits option.splits)
  qed
  moreover have "answers \<dots>"
    by (rule answers_andThen)
      (auto intro!: silent_rules errless_cache answers_andThen[OF _ errless_basic(2)] answer_rules assms split: option.splits)
  ultimately show ?thesis by simp
qed

lemma answers_finish [answer_rules]: "answers (finishIdempotent srv scope key h x)"
  unfolding finishIdempotent_def Let_def
  by (auto intro!: answers_andThen silent_rules errless_cache errless_basic answer_rules)

lemma answers_mutate [answer_rules]: "answers (mutate srv r scope key payload run)"
  unfolding mutate_def by (intro answer_rules answers_replay silent_rules)

subsection \<open>Handlers\<close>

definition replies :: "handler \<Rightarrow> bool" where
  "replies h \<longleftrightarrow> (\<forall>r. answers (h r))"

lemma answers_at: "(\<And>s. answers (m s)) \<Longrightarrow> answers (\<lambda>s. m s s)"
  unfolding answers_def by blast

lemma replies_ledger:
  "replies (handleCreateAccount srv)" "replies (handleTransfer srv)" "replies (handleReverse srv)"
  unfolding replies_def handleCreateAccount_def handleTransfer_def handleReverse_def Let_def
  by (auto intro!: answer_rules silent_rules)

lemma replies_replay: "replies (handleReplay srv)"
  unfolding replies_def handleReplay_def Let_def
  by (auto intro!: answer_rules silent_rules answers_replay answers_andThen errless_cache)

lemma replies_reads:
  "replies (handleGetAccount srv)" "replies (handleGetBalance srv)" "replies (handleListEntries srv)"
  "replies (handleGetTransaction srv)" "replies (handleReconcile srv)" "replies handleLive"
  unfolding replies_def handleGetAccount_def handleGetBalance_def handleListEntries_def handleGetTransaction_def
    handleReconcile_def handleLive_def Let_def
  by (auto intro!: answer_rules answers_writeJSON silent_rules split: option.splits)

lemma replies_ready: "replies (handleReady srv)"
proof -
  have "errless (case s_redis srv of None \<Rightarrow> ret ''disabled'' | Some rc \<Rightarrow> andThen (redisPing rc) (\<lambda>x. ret (g x)))" for g
    by (auto intro!: errless_andThen errless_cache errless_basic split: option.splits)
  then show ?thesis unfolding replies_def handleReady_def
    by (auto intro!: answers_andThen silent_rules errless_basic answers_writeJSON split: option.splits sum.splits)
qed

lemma replies_failpoints:
  "replies (handleListFailpoints srv)" "replies (handleArmFailpoint srv)" "replies (handleResetFailpoints srv)"
proof -
  have act: "answers (writeActive srv)" unfolding writeActive_def
    by (rule answers_at) (simp add: answers_writeJSON)
  have arm: "silent (armFps n sp)" for n sp
    by (auto simp: silent_def unanswered_def armFps_def split: prod.splits option.splits)
  have rs: "silent (\<lambda>s. (Ret (), ((fst s)\<lparr>fps := Reset (fps (fst s))\<rparr>, snd s)))" "errless (\<lambda>s. (Ret (), f s))" for f
    by (auto simp: silent_def unanswered_def errless_def)
  have "answers (handleListFailpoints srv r)" for r unfolding handleListFailpoints_def Let_def
    by (rule answers_at) (simp add: answers_writeJSON)
  then show "replies (handleListFailpoints srv)" by (simp add: replies_def)
  have "answers (handleArmFailpoint srv r)" for r unfolding handleArmFailpoint_def
    by (rule answers_orError[OF silent_lift], rule answers_orError[OF silent_mapErr[OF arm] act])
  then show "replies (handleArmFailpoint srv)" by (simp add: replies_def)
  show "replies (handleResetFailpoints srv)" unfolding replies_def handleResetFailpoints_def
    by (intro allI answers_andThen rs act)
qed

lemma replies_layers:
  assumes "replies h"
  shows "replies (withRequestContext srv h)" "replies (withFailpoints srv h)" "replies (withRateLimit srv pattern h)" "replies (withObservability pattern h)"
proof -
  have h: "answers (h r)" for r using assms by (simp add: replies_def)
  show "replies (withRequestContext srv h)" unfolding replies_def withRequestContext_def Let_def
    by (auto intro!: answers_andThen silent_rules errless_basic h)
  have "answers (withFailpoints srv h r)" for r
  proof (rule answersI)
    fix s x s' assume s: "unanswered s" and run: "withFailpoints srv h r s = (x, s')"
    have "(\<exists>q. h q s = (x, s')) \<or> (\<exists>e. writeError r e s = (x, s'))"
      using run by (auto simp: withFailpoints_def Let_def split: if_splits sum.splits)
    with answersD[OF h s] answersD[OF answers_writeError s] show "(x = Ret () \<and> answered s') \<or> ((\<exists>p. x = Panic p) \<and> unanswered s')"
      by blast
  qed
  then show "replies (withFailpoints srv h)" by (simp add: replies_def)
  have "answers (andThen (h r) (\<lambda>_. observeRequest pattern r))" for r
  proof (rule answersI)
    fix s x s' assume s: "unanswered s" and run: "andThen (h r) (\<lambda>_. observeRequest pattern r) s = (x, s')"
    obtain y s1 where y: "h r s = (y, s1)" by (meson surj_pair)
    from answersD[OF h s y] run y show "(x = Ret () \<and> answered s') \<or> ((\<exists>p. x = Panic p) \<and> unanswered s')"
      by (auto simp: andThen_def observeRequest_run answered_def)
  qed
  then show "replies (withObservability pattern h)" unfolding replies_def withObservability_def
    by (intro allI answers_andThen[OF silent_basic(6) errless_basic(5)])
  show "replies (withRateLimit srv pattern h)" unfolding replies_def withRateLimit_def
    by (auto intro!: answers_andThen silent_rules errless_Allow errless_basic answer_rules h split: option.splits)
qed

lemma replies_endpoints:
  assumes "(m, p, h) \<in> set (endpoints srv enabled)"
  shows "replies h"
proof -
  note all = replies_ledger replies_replay replies_reads replies_ready replies_failpoints
  have "replies (route srv pattern h limited)" if "replies h" for pattern h limited
    unfolding route_def Let_def using replies_layers that by simp
  with assms show ?thesis by (auto simp: endpoints_def split: if_splits intro!: all replies_layers(1))
qed

lemma mux_answers: "answers (mux srv method path r)"
proof -
  show ?thesis
  proof (rule answersI)
    fix s x s' assume s: "unanswered s" and run: "mux srv method path r s = (x, s')"
    let ?on = "filter (\<lambda>(m, p, h). matchSegs p path [] \<noteq> None) (endpoints srv (Enabled (fps (fst s))))"
    show "(x = Ret () \<and> answered s') \<or> ((\<exists>p. x = Panic p) \<and> unanswered s')"
    proof (cases "find (\<lambda>(m, p, h). methodMatches m method) ?on")
      case None
      with run have "writeHeader (if ?on = [] then 404 else 405) s = (x, s')" by (simp add: mux_def Let_def)
      from answersD[OF answers_writeHeader s this] show ?thesis by simp
    next
      case (Some e)
      obtain m p h where e: "e = (m, p, h)" by (cases e) auto
      have "(m, p, h) \<in> set (endpoints srv (Enabled (fps (fst s))))" using find_Some_mem[OF Some] by (simp add: e)
      from replies_endpoints[OF this] have "answers (h q)" for q by (simp add: replies_def)
      from answersD[OF this s] show ?thesis using run Some by (auto simp: mux_def Let_def e)
    qed
  qed
qed

end
