(* ===== verification/Webhook_Facts.thy ===== *)
theory Webhook_Facts
  imports Webhook Publisher_Facts
begin

text \<open>
  What event intake and delivery do to the table \<open>webhook_deliveries\<close>, whatever fails: a
  delivery keeps its identity, no other table changes, and a delivery is marked as delivered
  only after its endpoint has answered with a 2xx status.
\<close>

named_theorems wh_rules \<open>calls that stay in the frame of the webhook worker\<close>

subsection \<open>Frame of a delivery cycle\<close>

definition wh_identity :: "webhook_row \<Rightarrow> string \<times> string \<times> string \<times> string \<times> string \<times> json \<times> time" where
  "wh_identity r = (wh_id r, wh_event_id r, wh_endpoint r, wh_event_type r, wh_transaction_id r, wh_payload r, wh_created_at r)"

definition ledger_tables :: "database \<Rightarrow> database \<Rightarrow> bool" where
  "ledger_tables d d' \<longleftrightarrow> d' = d\<lparr>webhook_deliveries := webhook_deliveries d'\<rparr>"

definition wh_frame :: "world \<times> Post list \<Rightarrow> world \<times> Post list \<Rightarrow> bool" where
  "wh_frame s s' \<longleftrightarrow> ledger_tables (db (fst s)) (db (fst s')) \<and>
     map wh_identity (webhook_deliveries (db (fst s'))) = map wh_identity (webhook_deliveries (db (fst s))) \<and>
     prefix (snd s) (snd s')"

lemma ledger_tables_refl [simp]: "ledger_tables d d"
  by (simp add: ledger_tables_def)

lemma ledger_tables_trans: "ledger_tables a b \<Longrightarrow> ledger_tables b c \<Longrightarrow> ledger_tables a c"
proof -
  assume ab: "ledger_tables a b" and bc: "ledger_tables b c"
  have "c = b\<lparr>webhook_deliveries := webhook_deliveries c\<rparr>" using bc unfolding ledger_tables_def .
  also have "\<dots> = (a\<lparr>webhook_deliveries := webhook_deliveries b\<rparr>)\<lparr>webhook_deliveries := webhook_deliveries c\<rparr>"
    using ab unfolding ledger_tables_def by (rule arg_cong)
  finally show ?thesis unfolding ledger_tables_def by simp
qed

lemma ledger_tables_update [simp]: "ledger_tables d (d\<lparr>webhook_deliveries := x\<rparr>)"
  by (simp add: ledger_tables_def)

interpretation whf: step_rel wh_frame
  by unfold_locales (auto simp: wh_frame_def intro: ledger_tables_trans prefix_order.trans)

lemmas whf_basic [wh_rules] = whf.stays_ret whf.stays_throw whf.stays_mapErr whf.stays_andThen

lemma stays_attempt: "stays R m \<Longrightarrow> stays R (attempt m)"
  by (auto simp: stays_def attempt_def split: prod.splits res.splits) (metis snd_conv)+

lemma wh_attempt [wh_rules]: "stays wh_frame m \<Longrightarrow> stays wh_frame (attempt m)"
  by (rule stays_attempt)

text \<open>Statements that keep the identity of every delivery.\<close>

definition keeps_deliveries :: "(time \<Rightarrow> database \<Rightarrow> goerr + 'a \<times> database) \<Rightarrow> bool" where
  "keeps_deliveries stmt \<longleftrightarrow> (\<forall>now d x d'. stmt now d = Inr (x, d') \<longrightarrow>
     ledger_tables d d' \<and> map wh_identity (webhook_deliveries d') = map wh_identity (webhook_deliveries d))"

lemma wh_pool_sql:
  assumes "keeps_deliveries stmt"
  shows "stays wh_frame (onDB (pool_sql env stmt))"
  using assms by (fastforce simp: keeps_deliveries_def stays_def onDB_def wh_frame_def pool_sql_def sql_def
      split: commit_fault.splits option.splits sum.splits prod.splits)

lemma wh_same_db:
  assumes "\<And>w r w'. m w = (r, w') \<Longrightarrow> db w' = db w"
  shows "stays wh_frame (onDB m)"
  using assms by (force simp: stays_def onDB_def wh_frame_def split: prod.splits)

lemma wh_quiet [wh_rules]:
  "stays wh_frame (onDB (fpEval ov n))" "stays wh_frame (onDB (jitter env))" "stays wh_frame (onDB (ctxErr env))"
  by (rule wh_same_db, force simp: jitter_def ctxErr_def dest: fpEval_db split: option.splits)+

lemma wh_post [wh_rules]: "stays wh_frame (post cfg signer http dl)"
  by (auto simp: stays_def post_def wh_frame_def Let_def split: reply.splits)

lemma delivered_identity [simp]: "wh_identity (delivered_row code now r) = wh_identity r"
  by (simp add: wh_identity_def delivered_row_def)

lemma undelivered_identity [simp]: "wh_identity (undelivered_row c code dly n now r) = wh_identity r"
  by (simp add: wh_identity_def undelivered_row_def)

lemma identity_update:
  "(\<And>x. wh_identity (f x) = wh_identity x) \<Longrightarrow>
     map wh_identity (map (\<lambda>x. if wh_id x = u then f x else x) rs) = map wh_identity rs"
  by simp

lemma keeps_stmts:
  "keeps_deliveries (mark_delivered_stmt env i code)"
  "keeps_deliveries (mark_undelivered_stmt env i cause code dly n)"
  "keeps_deliveries (claim_due_stmt limit)"
  unfolding keeps_deliveries_def
  by (auto simp: mark_delivered_stmt_def mark_undelivered_stmt_def claim_due_stmt_def checked_Inr Let_def
      split: option.splits if_splits)

lemma wh_store [wh_rules]:
  "stays wh_frame (onDB (MarkDelivered env i code))"
  "stays wh_frame (onDB (MarkUndelivered env i cause code dly n))"
  "stays wh_frame (onDB (ClaimDue env limit))"
  unfolding MarkDelivered_def MarkUndelivered_def ClaimDue_def onDB_mapErr onDB_andThen
  by (auto simp: onDB_ret split: prod.splits intro!: wh_rules wh_pool_sql keeps_stmts)

lemma wh_recordFailure [wh_rules]: "stays wh_frame (recordFailure env cfg dl cause code)"
  unfolding recordFailure_def Let_def by (auto intro!: wh_rules)

lemma wh_deliver [wh_rules]: "stays wh_frame (deliver env cfg signer http ctx dl)"
  unfolding deliver_def Let_def by (auto intro!: wh_rules split: sum.splits prod.splits option.splits)

lemma wh_deliverLoop [wh_rules]: "stays wh_frame (deliverLoop env cfg signer http ctx batch n)"
  by (induction batch arbitrary: n) (auto intro!: wh_rules split: sum.splits)

lemma wh_DeliverOnce [wh_rules]: "stays wh_frame (DeliverOnce env cfg signer http ctx)"
  unfolding DeliverOnce_def by (auto intro!: wh_rules split: sum.splits)

subsection \<open>Delivered means acknowledged\<close>

text \<open>
  Identifiers of deliveries are unique and canonical, and every row marked as delivered has a
  request in the log of its endpoint, for its event and with its payload.
\<close>

definition acknowledged :: "Post list \<Rightarrow> webhook_row \<Rightarrow> bool" where
  "acknowledged ps r \<longleftrightarrow> (\<exists>p \<in> set ps. p_EventID p = wh_event_id r \<and> p_Endpoint p = wh_endpoint r \<and> p_Body p = wh_payload r)"

definition canonical_ids :: "(string \<Rightarrow> string option) \<Rightarrow> database \<Rightarrow> bool" where
  "canonical_ids uin d \<longleftrightarrow> distinct (map wh_id (webhook_deliveries d)) \<and>
     (\<forall>r \<in> set (webhook_deliveries d). uin (wh_id r) = Some (wh_id r))"

definition wh_sound :: "(string \<Rightarrow> string option) \<Rightarrow> world \<times> Post list \<Rightarrow> bool" where
  "wh_sound uin s \<longleftrightarrow> canonical_ids uin (db (fst s)) \<and>
     (\<forall>r \<in> set (webhook_deliveries (db (fst s))). wh_status r = StatusDelivered \<longrightarrow> acknowledged (snd s) r)"

text \<open>A claimed delivery agrees with the row its identifier names.\<close>

definition depicts :: "(string \<Rightarrow> string option) \<Rightarrow> Delivery \<Rightarrow> database \<Rightarrow> bool" where
  "depicts uin dl d \<longleftrightarrow> (\<forall>r \<in> set (webhook_deliveries d). uin (dl_ID dl) = Some (wh_id r) \<longrightarrow>
     wh_event_id r = dl_EventID dl \<and> wh_endpoint r = dl_Endpoint dl \<and> wh_payload r = dl_Payload dl)"

lemma identity_ids: "map wh_identity rs' = map wh_identity rs \<Longrightarrow> map wh_id rs' = map wh_id rs"
  by (drule arg_cong[of _ _ "map fst"]) (simp add: wh_identity_def comp_def)

lemma identity_mem:
  assumes "map wh_identity rs' = map wh_identity rs" and "r' \<in> set rs'"
  obtains r where "r \<in> set rs" and "wh_identity r = wh_identity r'"
  using assms by (metis (no_types, lifting) image_eqI image_iff list.set_map)

lemma frame_mem:
  assumes "wh_frame s s'" and "r' \<in> set (webhook_deliveries (db (fst s')))"
  shows "\<exists>r \<in> set (webhook_deliveries (db (fst s))). wh_identity r = wh_identity r'"
proof -
  have "map wh_identity (webhook_deliveries (db (fst s'))) = map wh_identity (webhook_deliveries (db (fst s)))"
    using assms(1) unfolding wh_frame_def by blast
  from identity_mem[OF this assms(2)] show ?thesis by blast
qed

lemma canonical_kept:
  assumes "wh_frame s s'" and "canonical_ids uin (db (fst s))"
  shows "canonical_ids uin (db (fst s'))"
proof -
  have "map wh_id (webhook_deliveries (db (fst s'))) = map wh_id (webhook_deliveries (db (fst s)))"
    by (rule identity_ids) (use assms(1) in \<open>unfold wh_frame_def, blast\<close>)
  moreover have "uin (wh_id r') = Some (wh_id r')" if "r' \<in> set (webhook_deliveries (db (fst s')))" for r'
    using frame_mem[OF assms(1) that] assms(2) by (auto simp: canonical_ids_def wh_identity_def)
  ultimately show ?thesis using assms(2) by (simp add: canonical_ids_def)
qed

lemma depicts_kept:
  assumes "wh_frame s s'" and "depicts uin dl (db (fst s))"
  shows "depicts uin dl (db (fst s'))"
  unfolding depicts_def
proof (intro ballI impI)
  fix r' assume r': "r' \<in> set (webhook_deliveries (db (fst s')))" "uin (dl_ID dl) = Some (wh_id r')"
  from frame_mem[OF assms(1) r'(1)] obtain r where "r \<in> set (webhook_deliveries (db (fst s)))" "wh_identity r = wh_identity r'" by blast
  with assms(2) r'(2) show "wh_event_id r' = dl_EventID dl \<and> wh_endpoint r' = dl_Endpoint dl \<and> wh_payload r' = dl_Payload dl"
    by (auto simp: depicts_def wh_identity_def)
qed

lemma acknowledged_mono: "prefix ps ps' \<Longrightarrow> acknowledged ps r \<Longrightarrow> acknowledged ps' r"
  unfolding acknowledged_def using set_mono_prefix by blast

lemma wh_sound_kept:
  assumes "wh_sound uin s" and "wh_frame s s'"
    and "\<And>r. r \<in> set (webhook_deliveries (db (fst s'))) \<Longrightarrow> wh_status r = StatusDelivered \<Longrightarrow>
      r \<in> set (webhook_deliveries (db (fst s))) \<or> acknowledged (snd s') r"
  shows "wh_sound uin s'"
  using assms canonical_kept[OF assms(2)] acknowledged_mono unfolding wh_sound_def wh_frame_def by blast

definition wh_step :: "(string \<Rightarrow> string option) \<Rightarrow> world \<times> Post list \<Rightarrow> world \<times> Post list \<Rightarrow> bool" where
  "wh_step uin s s' \<longleftrightarrow> wh_frame s s' \<and> (wh_sound uin s \<longrightarrow> wh_sound uin s')"

interpretation whs: step_rel "wh_step uin" for uin
  by unfold_locales (auto simp: wh_step_def intro: whf.R_refl whf.R_trans)

lemmas whs_basic = whs.stays_ret whs.stays_throw whs.stays_mapErr whs.stays_andThen stays_attempt

lemma ws_no_mark:
  assumes "stays wh_frame m" and "\<And>s r s' x. m s = (r, s') \<Longrightarrow> x \<in> set (webhook_deliveries (db (fst s'))) \<Longrightarrow>
      wh_status x = StatusDelivered \<Longrightarrow> x \<in> set (webhook_deliveries (db (fst s)))"
  shows "stays (wh_step uin) m"
proof -
  have "wh_step uin s (snd (m s))" for s
  proof -
    have "wh_frame s (snd (m s))" using assms(1) unfolding stays_def by blast
    with wh_sound_kept[OF _ this] assms(2)[of s "fst (m s)" "snd (m s)"] show ?thesis unfolding wh_step_def by auto
  qed
  then show ?thesis unfolding stays_def by blast
qed

lemma undelivered_no_mark:
  "mark_undelivered_stmt env i cause code dly n now d = Inr (x, d') \<Longrightarrow> r \<in> set (webhook_deliveries d') \<Longrightarrow>
     wh_status r = StatusDelivered \<Longrightarrow> r \<in> set (webhook_deliveries d)"
  by (auto simp: mark_undelivered_stmt_def checked_Inr Let_def undelivered_row_def outbox_status_defs StatusDelivered_def
      split: option.splits if_splits)

lemma ws_calls:
  "stays (wh_step uin) (onDB (fpEval ov nm))" "stays (wh_step uin) (onDB (jitter env))"
  "stays (wh_step uin) (onDB (ctxErr env))" "stays (wh_step uin) (post cfg signer http dl)"
  by (rule ws_no_mark; (rule wh_rules)?;
      force simp: onDB_def jitter_def ctxErr_def post_def Let_def dest: fpEval_db split: prod.splits option.splits reply.splits if_splits)+

lemma ws_MarkUndelivered: "stays (wh_step uin) (onDB (MarkUndelivered env i cause code dly n))"
proof (rule ws_no_mark[OF wh_store(2)])
  fix s :: "world \<times> Post list" and r s' x
  assume "onDB (MarkUndelivered env i cause code dly n) s = (r, s')"
    and "x \<in> set (webhook_deliveries (db (fst s')))" "wh_status x = StatusDelivered"
  then show "x \<in> set (webhook_deliveries (db (fst s)))"
    by (auto simp: onDB_def MarkUndelivered_def andThen_def mapErr_def pool_sql_def sql_def ret_def
        dest: undelivered_no_mark split: commit_fault.splits prod.splits res.splits option.splits sum.splits)
qed

lemma ws_ClaimDue: "stays (wh_step uin) (onDB (ClaimDue env limit))"
  by (rule ws_no_mark[OF wh_store(3)])
    (auto simp: onDB_def ClaimDue_def mapErr_def pool_sql_def sql_def claim_due_stmt_def
      split: commit_fault.splits prod.splits res.splits option.splits sum.splits if_splits)

lemma ws_recordFailure: "stays (wh_step uin) (recordFailure env cfg dl cause code)"
  unfolding recordFailure_def Let_def by (intro whs_basic ws_calls ws_MarkUndelivered)

lemma MarkDelivered_sound:
  assumes so: "wh_sound uin s" and uin: "uuid_in env = uin" and dp: "depicts uin dl (db (fst s))"
    and logged: "p \<in> set (snd s)" "p_EventID p = dl_EventID dl" "p_Endpoint p = dl_Endpoint dl" "p_Body p = dl_Payload dl"
    and run: "onDB (MarkDelivered env (dl_ID dl) code) s = (r, s')"
  shows "wh_sound uin s'"
proof (rule wh_sound_kept[OF so staysD[OF wh_store(1) run]])
  fix x assume x: "x \<in> set (webhook_deliveries (db (fst s')))" "wh_status x = StatusDelivered"
  note fr = staysD[OF wh_store(1) run]
  show "x \<in> set (webhook_deliveries (db (fst s))) \<or> acknowledged (snd s') x"
  proof (cases "uin (dl_ID dl) = Some (wh_id x)")
    case True
    then have "wh_event_id x = dl_EventID dl \<and> wh_endpoint x = dl_Endpoint dl \<and> wh_payload x = dl_Payload dl"
      using depicts_kept[OF fr dp] x(1) by (simp add: depicts_def)
    moreover have "p \<in> set (snd s')" using fr logged(1) set_mono_prefix by (auto simp: wh_frame_def)
    ultimately show ?thesis using logged by (auto simp: acknowledged_def)
  next
    case False
    have "x \<in> set (webhook_deliveries (db (fst s)))"
      using run[unfolded MarkDelivered_def]
      by (rule onDB_pool_effect)
        (use x uin False in \<open>auto simp: mark_delivered_stmt_def checked_def delivered_row_def split: option.splits if_splits\<close>)
    then show ?thesis ..
  qed
qed

lemma post_logged:
  assumes "post cfg signer http dl s = (Ret (code, None), s')"
  shows "\<exists>p \<in> set (snd s'). p_EventID p = dl_EventID dl \<and> p_Endpoint p = dl_Endpoint dl \<and> p_Body p = dl_Payload dl"
  using assms by (auto simp: post_def Let_def split: reply.splits if_splits)

lemma deliver_sound:
  assumes uin: "uuid_in env = uin" and so: "wh_sound uin s" and dp: "depicts uin dl (db (fst s))"
    and run: "deliver env cfg signer http ctx dl s = (r, s')"
  shows "wh_sound uin s'"
proof -
  note run' = run[unfolded deliver_def Let_def andThen_attempt]
  have failing: "wh_sound uin s2" if "wh_sound uin s1" "andThen (recordFailure env cfg dl c code) (\<lambda>_. ret False) s1 = (r, s2)" for s1 s2 c code
    using staysD[OF whs.stays_andThen[OF ws_recordFailure whs.stays_ret] that(2), of uin] that(1) by (simp add: wh_step_def)
  obtain ra s1 where a: "onDB (fpEval (cx_failpoints (WithTransactionID ctx (dl_TransactionID dl))) BeforeWebhookSend) s = (ra, s1)" by (meson surj_pair)
  obtain rp s2 where p: "post cfg signer http dl s1 = (rp, s2)" by (meson surj_pair)
  have so1: "wh_sound uin s1" using staysD[OF ws_calls(1) a, of uin] so by (simp add: wh_step_def)
  have so2: "wh_sound uin s2" using staysD[OF ws_calls(4) p, of uin] so1 by (simp add: wh_step_def)
  have "wh_frame s s2" using staysD[OF wh_quiet(1) a] staysD[OF wh_post p] whf.R_trans by blast
  then have dp2: "depicts uin dl (db (fst s2))" using depicts_kept dp by blast
  have marked: "wh_sound uin s3" if "rp = Ret (code, None)" "onDB (MarkDelivered env (dl_ID dl) code) s2 = (rm, s3)" for code rm s3
    using post_logged[of cfg signer http dl s1 code s2] p that(1) MarkDelivered_sound[OF so2 uin dp2 _ _ _ _ that(2)] by blast
  show ?thesis
  proof (cases ra)
    case (Ret u)
    show ?thesis
    proof (cases rp)
      case rp: (Ret ce)
      obtain code err where ce: "ce = (code, err)" by fastforce
      obtain rm s3 where m: "onDB (MarkDelivered env (dl_ID dl) code) s2 = (rm, s3)" by (meson surj_pair)
      show ?thesis
      proof (cases err)
        case None
        with run' a p Ret rp ce m have "s' = s3" by (auto simp: andThen_def attempt_def ret_def split: res.splits)
        with marked[OF _ m] rp ce None show ?thesis by simp
      next
        case (Some e)
        with run' a p Ret rp ce failing[OF so2] show ?thesis by (simp add: andThen_def)
      qed
    qed (use run' a p Ret so2 in \<open>simp_all add: andThen_def\<close>)
  qed (use run' a so1 failing[OF so1] in \<open>simp_all\<close>)
qed

lemma deliverLoop_sound:
  assumes "uuid_in env = uin" and "wh_sound uin s" and "\<forall>dl \<in> set batch. depicts uin dl (db (fst s))"
    and "deliverLoop env cfg signer http ctx batch n s = (r, s')"
  shows "wh_sound uin s'"
  using assms(2-)
proof (induction batch arbitrary: s n)
  case Nil
  then show ?case by (simp add: ret_def)
next
  case (Cons dl batch)
  obtain rc s1 where c: "onDB (ctxErr env) s = (rc, s1)" by (meson surj_pair)
  obtain rp s2 where p: "deliver env cfg signer http ctx dl s1 = (rp, s2)" by (meson surj_pair)
  have so1: "wh_sound uin s1" using staysD[OF ws_calls(3) c, of uin] Cons.prems(1) by (simp add: wh_step_def)
  have dp: "\<forall>x \<in> set (dl # batch). depicts uin x (db (fst s1))"
    using depicts_kept[OF staysD[OF wh_quiet(3) c]] Cons.prems(2) by blast
  have so2: "wh_sound uin s2" using deliver_sound[OF assms(1) so1 _ p] dp by simp
  have dp2: "\<forall>x \<in> set batch. depicts uin x (db (fst s2))" using depicts_kept[OF staysD[OF wh_deliver p]] dp by simp
  show ?case
    using Cons.prems(3) c p so1 so2 Cons.IH[OF so2 dp2]
    by (auto simp: attempt_def andThen_def ret_def split: res.splits)
qed

lemma claimed_depicts:
  assumes "onDB (ClaimDue env limit) s = (Ret batch, s')" and "canonical_ids uin (db (fst s))" and "dl \<in> set batch"
  shows "depicts uin dl (db (fst s'))"
proof -
  from assms(1,3) obtain q where q: "q \<in> set (webhook_deliveries (db (fst s)))" "dl = delivery_of q" and d: "db (fst s') = db (fst s)"
    by (auto simp: onDB_def ClaimDue_def ret_inv claim_due_stmt_def split: prod.splits if_splits dest!: in_set_takeD)
  have "r = q" if "r \<in> set (webhook_deliveries (db (fst s)))" "uin (wh_id q) = Some (wh_id r)" for r
    using that assms(2) q(1) by (metis canonical_ids_def distinct_map inj_onD option.inject)
  then show ?thesis by (auto simp: depicts_def d q(2) delivery_of_def)
qed

lemma DeliverOnce_sound:
  assumes "uuid_in env = uin" and "wh_sound uin s" and "DeliverOnce env cfg signer http ctx s = (r, s')"
  shows "wh_sound uin s'"
proof -
  obtain rc s1 where c: "onDB (ClaimDue env (WebhookBatchSize cfg)) s = (rc, s1)" by (meson surj_pair)
  have so1: "wh_sound uin s1" using staysD[OF ws_ClaimDue c, of uin] assms(2) by (simp add: wh_step_def)
  have dp: "\<forall>dl \<in> set batch. depicts uin dl (db (fst s1))" if "rc = Ret batch" for batch
    using claimed_depicts[OF c[unfolded that]] assms(2) unfolding wh_sound_def by blast
  show ?thesis
  proof (cases rc)
    case (Ret batch)
    then show ?thesis using assms(3) c deliverLoop_sound[OF assms(1) so1 dp[OF Ret]]
      by (auto simp: DeliverOnce_def andThen_attempt)
  qed (use assms(3) c so1 in \<open>auto simp: DeliverOnce_def andThen_attempt ret_def\<close>)
qed

end
