(* ===== verification/Webhook_Properties.thy ===== *)
theory Webhook_Properties
  imports Webhook_Facts Retry_Queue Demo
begin

text \<open>Properties of event intake and webhook delivery.\<close>

subsection \<open>One delivery per event and endpoint\<close>

definition one_per_endpoint :: "database \<Rightarrow> bool" where
  "one_per_endpoint d \<longleftrightarrow> distinct (map (\<lambda>r. (wh_event_id r, wh_endpoint r)) (webhook_deliveries d))"

definition queued :: "database \<Rightarrow> string \<Rightarrow> string \<Rightarrow> bool" where
  "queued d i ep \<longleftrightarrow> (\<exists>r \<in> set (webhook_deliveries d). wh_event_id r = i \<and> wh_endpoint r = ep)"

lemma queued_mono: "queued d i ep \<Longrightarrow> webhook_deliveries d' = webhook_deliveries d @ new \<Longrightarrow> queued d' i ep"
  by (auto simp: queued_def)

lemma queued_once:
  assumes "one_per_endpoint d" and "queued d i ep"
  shows "length (filter (\<lambda>r. wh_event_id r = i \<and> wh_endpoint r = ep) (webhook_deliveries d)) = 1"
proof -
  let ?k = "\<lambda>r. (wh_event_id r, wh_endpoint r)"
  have "length (filter (\<lambda>r. ?k r = (i, ep)) rs) = 1" if "distinct (map ?k rs)" "(i, ep) \<in> set (map ?k rs)" for rs
    using that
  proof (induction rs)
    case (Cons r rs)
    show ?case
    proof (cases "?k r = (i, ep)")
      case True
      have "?k r \<notin> set (map ?k rs)" using Cons.prems(1) by simp
      then have "filter (\<lambda>r. ?k r = (i, ep)) rs = []" unfolding True by (auto simp: filter_empty_conv image_iff)
      with True show ?thesis by simp
    qed (use Cons in auto)
  qed simp
  moreover have "(i, ep) \<in> set (map ?k (webhook_deliveries d))" using assms(2) by (force simp: queued_def)
  ultimately show ?thesis using assms(1) by (simp add: one_per_endpoint_def)
qed

lemma Enqueue_queued:
  assumes "Enqueue env dl w = (r, w')" and "uuid_in env (dl_EventID dl) = Some i" and "queued (db w) i (dl_Endpoint dl)"
  shows "db w' = db w"
  using assms by (auto simp: Enqueue_def andThen_def mapErr_def pool_sql_def sql_def enqueue_stmt_def ret_def queued_def
      list_ex_iff split: commit_fault.splits option.splits sum.splits prod.splits if_splits)

lemma Enqueue_Ret:
  assumes "Enqueue env dl w = (Ret b, w')"
  shows "\<exists>i new. uuid_in env (dl_EventID dl) = Some i \<and> queued (db w') i (dl_Endpoint dl) \<and>
    webhook_deliveries (db w') = webhook_deliveries (db w) @ new \<and> ledger_tables (db w) (db w') \<and>
    (one_per_endpoint (db w) \<longrightarrow> one_per_endpoint (db w'))"
  using assms
  by (auto simp: Enqueue_def ret_inv enqueue_stmt_def queued_def list_ex_iff checked_Inr new_webhook_row_def one_per_endpoint_def
      split: option.splits if_splits)

lemma enqueueLoop_queued:
  assumes "\<forall>ep \<in> set eps. queued (db w) i ep" and "uuid_in env (ev_EventID e) = Some i"
    and "enqueueLoop env e payload eps w = (r, w')"
  shows "db w' = db w"
  using assms(1,3)
proof (induction eps arbitrary: w)
  case Nil
  then show ?case by (simp add: ret_def)
next
  case (Cons ep eps)
  let ?dl = "\<lparr>dl_ID = uuid_src env (tick w), dl_EventID = ev_EventID e, dl_Endpoint = ep, dl_EventType = ev_EventType e,
         dl_TransactionID = ev_TransactionID e, dl_Payload = payload, dl_Status = [], dl_Attempts = 0, dl_LastError = [],
         dl_LastStatusCode = 0, dl_NextAttemptAt = 0, dl_DeliveredAt = None, dl_CreatedAt = 0\<rparr>"
  obtain re we where en: "Enqueue env ?dl (tickw w) = (re, we)" by fastforce
  have d: "db we = db w" using Enqueue_queued[OF en, of i] assms(2) Cons.prems(1) by simp
  have "(\<exists>b. re = Ret b \<and> enqueueLoop env e payload eps we = (r, w')) \<or> w' = we"
    using Cons.prems(2) en by (auto simp: andThen_def newUUID_def split: res.splits)
  then show ?case using Cons.IH[of we] Cons.prems(1) d by auto
qed

lemma enqueueLoop_Ret:
  assumes "enqueueLoop env e payload eps w = (Ret (), w')" and "uuid_in env (ev_EventID e) = Some i"
  shows "(\<forall>ep \<in> set eps. queued (db w') i ep) \<and> (\<exists>new. webhook_deliveries (db w') = webhook_deliveries (db w) @ new) \<and>
    ledger_tables (db w) (db w') \<and> (one_per_endpoint (db w) \<longrightarrow> one_per_endpoint (db w'))"
  using assms(1)
proof (induction eps arbitrary: w)
  case Nil
  then show ?case by (simp add: ret_def)
next
  case (Cons ep eps)
  from Cons.prems obtain dl b we where en: "Enqueue env dl (tickw w) = (Ret b, we)" and dl: "dl_EventID dl = ev_EventID e" "dl_Endpoint dl = ep"
    and rest: "enqueueLoop env e payload eps we = (Ret (), w')"
    by (auto simp: ret_inv)
  from Enqueue_Ret[OF en] obtain new where q: "queued (db we) i ep" "webhook_deliveries (db we) = webhook_deliveries (db w) @ new"
    "ledger_tables (db w) (db we)" "one_per_endpoint (db w) \<longrightarrow> one_per_endpoint (db we)"
    using assms(2) dl by auto
  from Cons.IH[OF rest] obtain new2 where r: "\<forall>ep \<in> set eps. queued (db w') i ep" "webhook_deliveries (db w') = webhook_deliveries (db we) @ new2"
    "ledger_tables (db we) (db w')" "one_per_endpoint (db we) \<longrightarrow> one_per_endpoint (db w')" by blast
  have "queued (db w') i ep" using queued_mono[OF q(1) r(2)] .
  with q r ledger_tables_trans[OF q(3) r(3)] show ?case by simp
qed

lemma HandleEvent_run:
  assumes "unmarshalEnvelope (m_Value msg) = Some e" and "ev_EventID e \<noteq> []" and "HandleEvent env cfg ctx msg w = (r, w')"
  shows "db w' = db w \<and> r \<noteq> Ret () \<or> (\<exists>w0. db w0 = db w \<and> enqueueLoop env e (m_Value msg) (WebhookEndpoints cfg) w0 = (r, w'))"
proof -
  obtain ov where "andThen (mapErr (Wrap (Sprintf ''webhook: failpoint before persist: %w'' [])) (fpEval ov BeforeWebhookPersist))
      (\<lambda>_. enqueueLoop env e (m_Value msg) (WebhookEndpoints cfg)) w = (r, w')"
    using assms by (auto simp: HandleEvent_def Let_def)
  moreover obtain rf wf where f: "fpEval ov BeforeWebhookPersist w = (rf, wf)" by fastforce
  moreover have "db wf = db w" using fpEval_db[OF f] .
  ultimately show ?thesis by (cases rf) (auto simp: andThen_def mapErr_def)
qed

text \<open>
  C22. Events are queued once: after an event has been accepted, every configured endpoint has
  exactly one delivery for it, existing deliveries are as they were, and when the event arrives
  again (redelivered by the broker, or replayed with another annotation) the database does not
  change, whatever fails.
\<close>

theorem webhook_deduplicated:
  assumes "one_per_endpoint (db w)" and "unmarshalEnvelope (m_Value msg) = Some e" and "ev_EventID e \<noteq> []"
    and "uuid_in env (ev_EventID e) = Some i" and "HandleEvent env cfg ctx msg w = (Ret (), w1)"
    and "unmarshalEnvelope (m_Value msg2) = Some e2" and "uuid_in env2 (ev_EventID e2) = Some i"
    and "db w2 = db w1" and "HandleEvent env2 cfg ctx2 msg2 w2 = (r, w3)"
  shows "(\<forall>ep \<in> set (WebhookEndpoints cfg).
      length (filter (\<lambda>q. wh_event_id q = i \<and> wh_endpoint q = ep) (webhook_deliveries (db w1))) = 1) \<and>
    (\<exists>new. webhook_deliveries (db w1) = webhook_deliveries (db w) @ new) \<and> ledger_tables (db w) (db w1) \<and> db w3 = db w1"
proof -
  from HandleEvent_run[OF assms(2,3,5)] obtain w0 where "db w0 = db w" "enqueueLoop env e (m_Value msg) (WebhookEndpoints cfg) w0 = (Ret (), w1)"
    by auto
  with enqueueLoop_Ret[OF _ assms(4)] assms(1) have q: "\<forall>ep \<in> set (WebhookEndpoints cfg). queued (db w1) i ep"
    and k: "\<exists>new. webhook_deliveries (db w1) = webhook_deliveries (db w) @ new" "ledger_tables (db w) (db w1)" "one_per_endpoint (db w1)"
    by metis+
  have "db w3 = db w1"
  proof (cases "ev_EventID e2 = []")
    case True
    with assms(6,8,9) show ?thesis by (simp add: HandleEvent_def ret_def)
  next
    case False
    from HandleEvent_run[OF assms(6) False assms(9)] show ?thesis
      using enqueueLoop_queued[OF _ assms(7), of "WebhookEndpoints cfg"] q assms(8) by metis
  qed
  with q k queued_once show ?thesis by blast
qed

definition hook_cfg :: Config where
  "hook_cfg = demo_cfg\<lparr>WebhookEndpoints := [''a'', ''b'']\<rparr>"

definition hook_event :: "string \<Rightarrow> ReplayMeta option \<Rightarrow> Envelope" where
  "hook_event i meta = \<lparr>ev_EventID = i, ev_EventType = ''payment.created'', ev_SchemaVersion = 1, ev_TransactionID = ''t'',
     ev_OccurredAt = 7, ev_CorrelationID = [], ev_Replay = meta, ev_Data = JNull\<rparr>"

definition hook_msg :: "Envelope \<Rightarrow> Message" where
  "hook_msg e = \<lparr>m_Topic = ''payments.created'', m_Key = ev_TransactionID e, m_Value = marshalEnvelope e, m_Headers = []\<rparr>"

definition hook_meta :: ReplayMeta where
  "hook_meta = \<lparr>rm_IsReplay = True, rm_ReplayID = ''r'', rm_ReplayedAt = 9, rm_ReplayedBy = [], rm_OriginalSeq = 0\<rparr>"

lemma hook_once: "fst (HandleEvent demo_env hook_cfg Background (hook_msg (hook_event ''e'' None)) W0) = Ret ()"
  by code_simp

lemma hook_decodes:
  "unmarshalEnvelope (m_Value (hook_msg (hook_event ''e'' None))) = Some (hook_event ''e'' None)"
  "unmarshalEnvelope (m_Value (hook_msg (hook_event ''e'' (Some hook_meta)))) = Some (hook_event ''e'' (Some hook_meta))"
  by code_simp+

theorem webhook_deduplicated_witness:
  "\<exists>w1. HandleEvent demo_env hook_cfg Background (hook_msg (hook_event ''e'' None)) W0 = (Ret (), w1) \<and>
     length (filter (\<lambda>q. wh_event_id q = ''e'' \<and> wh_endpoint q = ''b'') (webhook_deliveries (db w1))) = 1 \<and>
     db (snd (HandleEvent demo_env hook_cfg Background (hook_msg (hook_event ''e'' (Some hook_meta))) w1)) = db w1"
proof -
  obtain w1 where 1: "HandleEvent demo_env hook_cfg Background (hook_msg (hook_event ''e'' None)) W0 = (Ret (), w1)"
    using hook_once by (metis prod.collapse)
  obtain r w3 where 2: "HandleEvent demo_env hook_cfg Background (hook_msg (hook_event ''e'' (Some hook_meta))) w1 = (r, w3)" by fastforce
  have u: "one_per_endpoint (db W0)" "uuid_in demo_env (ev_EventID (hook_event ''e'' m)) = Some ''e''" "ev_EventID (hook_event ''e'' None) \<noteq> []" for m
    by (simp_all add: one_per_endpoint_def W0_def empty_database_def demo_env_def hook_event_def)
  from webhook_deduplicated[OF u(1) hook_decodes(1) u(3) u(2) 1 hook_decodes(2) u(2) refl 2] 1 2 show ?thesis
    by (simp add: hook_cfg_def)
qed

subsection \<open>Delivery\<close>


definition hook_row :: "string \<Rightarrow> string \<Rightarrow> webhook_row" where
  "hook_row i status = \<lparr>wh_id = i, wh_event_id = ''e'', wh_endpoint = ''a'', wh_event_type = ''payment.created'',
     wh_transaction_id = ''t'', wh_payload = JNull, wh_status = status, wh_attempts = 0, wh_last_error = None,
     wh_last_status_code = None, wh_next_attempt_at = 0,
     wh_delivered_at = (if status = StatusDelivered then Some 0 else None), wh_created_at = 0, wh_updated_at = 0\<rparr>"

definition hook_world :: "string \<Rightarrow> world" where
  "hook_world status = W0\<lparr>db := empty_database\<lparr>webhook_deliveries := [hook_row ''d'' status]\<rparr>\<rparr>"

lemma hook_delivered:
  "map wh_status (webhook_deliveries (db (fst (snd (DeliverOnce demo_env demo_cfg (\<lambda>_ _. []) (\<lambda>_. Reply 204) Background
     (hook_world StatusPending, [])))))) = [StatusDelivered]"
  by code_simp


text \<open>
  A new delivery survives exactly \<open>WebhookMaxAttempts - 1\<close> failed attempts: it is a dead letter
  after a sequence of failures exactly when the sequence is at least as long as the budget.
\<close>

lemma webhook_retry_budget:
  assumes "wh_attempts q = 0" and "0 < n" and "ps \<noteq> []"
  shows "wh_status (fold (\<lambda>(cause, code, delay, now). undelivered_row cause code delay n now) ps q) = StatusDeadLetter \<longleftrightarrow>
    nat n \<le> length ps"
  using webhook_retry.budget[OF assms] by (simp add: split_def)

text \<open>
  C25. Delivery is final for \<open>MarkDelivered\<close> but not for \<open>MarkFailed\<close>: marking a delivered row as
  delivered again changes nothing, whereas a failure recorded for it (by another worker that claimed
  the same row) takes it back to pending or dead letter, since the statement has no status guard.
\<close>

theorem delivery_finality:
  assumes "webhook_of (db w) i = Some q" and "uuid_in env i = Some i" and "wh_status q = StatusDelivered"
    and "MarkDelivered env i code w = (r, w')" and "MarkUndelivered env i cause code2 delay n w = (Ret (k, dead), w2)"
  shows "db w' = db w \<and>
    (\<exists>q2. webhook_of (db w2) i = Some q2 \<and> wh_status q2 = (if dead then StatusDeadLetter else StatusPending) \<and>
       k = wh_attempts q + 1 \<and> wh_attempts q2 = k \<and> (dead \<longleftrightarrow> n \<le> k))"
proof
  show "db w' = db w" using assms(1-4)
    by (auto simp: MarkDelivered_def mapErr_def pool_sql_def sql_def mark_delivered_stmt_def split: commit_fault.splits option.splits)
next
  let ?f = "undelivered_row (Outbox.truncate cause 2000) code2 delay n (pg_clock env (tick w))"
  have "find (\<lambda>x. wh_id x = i) (map (\<lambda>x. if wh_id x = i then ?f x else x) (webhook_deliveries (db w))) = Some (?f q)"
    using assms(1) find_map_upd[of "\<lambda>x. wh_id x = i" "\<lambda>x. if wh_id x = i then ?f x else x" "webhook_deliveries (db w)"]
    by (auto simp: webhook_of_def undelivered_row_def dest: find_Some_mem)
  then show "\<exists>q2. webhook_of (db w2) i = Some q2 \<and> wh_status q2 = (if dead then StatusDeadLetter else StatusPending) \<and>
       k = wh_attempts q + 1 \<and> wh_attempts q2 = k \<and> (dead \<longleftrightarrow> n \<le> k)"
    using assms(1,2,5)
    by (auto simp: MarkUndelivered_def ret_inv mark_undelivered_stmt_def checked_Inr Let_def webhook_of_def undelivered_row_def outbox_status_defs)
qed

theorem delivery_finality_witness:
  "\<exists>w2 q2. MarkUndelivered demo_env ''d'' ''timeout'' 0 1 3 (hook_world StatusDelivered) = (Ret (1, False), w2) \<and>
     webhook_of (db w2) ''d'' = Some q2 \<and> wh_status q2 = StatusPending"
proof -
  have f: "webhook_of (db (hook_world StatusDelivered)) ''d'' = Some (hook_row ''d'' StatusDelivered)"
    by (simp add: webhook_of_def hook_world_def hook_row_def)
  have u: "uuid_in demo_env ''d'' = Some ''d''" "wh_status (hook_row ''d'' StatusDelivered) = StatusDelivered"
    by (simp_all add: demo_env_def hook_row_def)
  obtain r w' where 1: "MarkDelivered demo_env ''d'' 200 (hook_world StatusDelivered) = (r, w')" by fastforce
  have "fst (MarkUndelivered demo_env ''d'' ''timeout'' 0 1 3 (hook_world StatusDelivered)) = Ret (1, False)" by code_simp
  then obtain w2 where 2: "MarkUndelivered demo_env ''d'' ''timeout'' 0 1 3 (hook_world StatusDelivered) = (Ret (1, False), w2)"
    by (metis prod.collapse)
  from delivery_finality[OF f u 1 2] 2 show ?thesis by auto
qed

text \<open>
  Claiming due deliveries claims nothing: the statement changes no row, and a second worker that asks
  at the same time gets the same deliveries.
\<close>

lemma ClaimDue_shared:
  assumes "ClaimDue env limit w = (Ret b, w')" and "ClaimDue env2 limit w2 = (Ret b2, w2')" and "db w2 = db w'"
    and "pg_clock env2 (tick w2) = pg_clock env (tick w)"
  shows "db w' = db w \<and> b2 = b"
  using assms by (auto simp: ClaimDue_def ret_inv claim_due_stmt_def split: if_splits)

end
