(* ===== verification/System.thy ===== *)
theory System
  imports Api_Facts Webhook_Properties
begin

text \<open>
  The processes of the system together, on what they share: PostgreSQL, Redis, the broker's log
  and the requests the webhook endpoints have answered. A step is one request served by an API
  process, Redis losing keys, one cycle of a publisher, one message handled by a webhook worker or
  one cycle of deliveries, each taken whole (\<open>Interleaving\<close> takes them apart) under an arbitrary environment: any pattern of failing statements,
  lost acknowledgements, armed failpoints and panics, in any order.
\<close>

record system =
  sy_db :: database
  sy_redis :: redis
  sy_log :: "Message list"
  sy_posts :: "Post list"

inductive system_step :: "(string \<Rightarrow> string option) \<Rightarrow> system \<Rightarrow> system \<Rightarrow> bool"
  for uin :: "string \<Rightarrow> string option" where
  request: "uuid_ok (s_db srv) \<Longrightarrow> uuid_in (s_db srv) = uin \<Longrightarrow> serve srv method path r (w, out) = (x, (w', out')) \<Longrightarrow>
    db w = sy_db y \<Longrightarrow> redis_db out = sy_redis y \<Longrightarrow> kafka_log out = sy_log y \<Longrightarrow>
    system_step uin y (y\<lparr>sy_db := db w', sy_redis := redis_db out', sy_log := kafka_log out'\<rparr>)"
| forget: "redis_sub m (sy_redis y) \<Longrightarrow> system_step uin y (y\<lparr>sy_redis := m\<rparr>)"
| publish: "uuid_in env = uin \<Longrightarrow> RunOnce env cfg brk ctx locked (w, sy_log y) = (n, (w', l)) \<Longrightarrow> db w = sy_db y \<Longrightarrow>
    system_step uin y (y\<lparr>sy_db := db w', sy_log := l\<rparr>)"
| intake: "uuid_ok env \<Longrightarrow> uuid_in env = uin \<Longrightarrow> msg \<in> set (sy_log y) \<Longrightarrow> HandleEvent env cfg ctx msg w = (u, w') \<Longrightarrow>
    db w = sy_db y \<Longrightarrow> system_step uin y (y\<lparr>sy_db := db w'\<rparr>)"
| delivery: "uuid_in env = uin \<Longrightarrow> DeliverOnce env cfg signer http ctx (w, sy_posts y) = (k, (w', ps)) \<Longrightarrow> db w = sy_db y \<Longrightarrow>
    system_step uin y (y\<lparr>sy_db := db w', sy_posts := ps\<rparr>)"

inductive system_reachable :: "(string \<Rightarrow> string option) \<Rightarrow> system \<Rightarrow> bool"
  for uin :: "string \<Rightarrow> string option" where
  start: "system_reachable uin \<lparr>sy_db = empty_database, sy_redis = Map.empty, sy_log = [], sy_posts = []\<rparr>"
| step: "system_reachable uin y \<Longrightarrow> system_step uin y y' \<Longrightarrow> system_reachable uin y'"

inductive_cases system_stepE: "system_step uin y y'"

subsection \<open>The invariant\<close>

text \<open>A delivery is made for an event of the log.\<close>

definition of_log :: "(string \<Rightarrow> string option) \<Rightarrow> Message list \<Rightarrow> webhook_row \<Rightarrow> bool" where
  "of_log uin l r \<longleftrightarrow> (\<exists>msg \<in> set l. \<exists>e. unmarshalEnvelope (m_Value msg) = Some e \<and>
     uin (ev_EventID e) = Some (wh_event_id r) \<and> wh_event_type r = ev_EventType e \<and> wh_transaction_id r = ev_TransactionID e)"

text \<open>What the outbox and the deliveries say of the log and of the endpoints.\<close>

definition log_ok :: "(string \<Rightarrow> string option) \<Rightarrow> database \<Rightarrow> Message list \<Rightarrow> bool" where
  "log_ok uin d l \<longleftrightarrow> (\<forall>r \<in> set (outbox_events d). uin (o_id r) = Some (o_id r) \<and>
     (o_status r = StatusPublished \<longrightarrow> eventMessage (outbox_record_of r) \<in> set l))"

definition hooks_ok :: "(string \<Rightarrow> string option) \<Rightarrow> database \<Rightarrow> Message list \<Rightarrow> Post list \<Rightarrow> bool" where
  "hooks_ok uin d l ps \<longleftrightarrow> canonical_ids uin d \<and> one_per_endpoint d \<and>
     (\<forall>r \<in> set (webhook_deliveries d). of_log uin l r \<and> (wh_status r = StatusDelivered \<longrightarrow> acknowledged ps r))"

definition system_inv :: "(string \<Rightarrow> string option) \<Rightarrow> system \<Rightarrow> bool" where
  "system_inv uin y \<longleftrightarrow> core_inv (sy_db y) \<and> records_ok (sy_db y) \<and> coherent (sy_db y) (sy_redis y) \<and>
     log_ok uin (sy_db y) (sy_log y) \<and> hooks_ok uin (sy_db y) (sy_log y) (sy_posts y)"

lemma sound_iff: "sound uin (w, l) \<longleftrightarrow> distinct (map o_id (outbox_events (db w))) \<and> log_ok uin (db w) l"
  by (auto simp: sound_def log_ok_def)

lemma wh_sound_iff: "wh_sound uin (w, ps) \<longleftrightarrow> canonical_ids uin (db w) \<and>
    (\<forall>r \<in> set (webhook_deliveries (db w)). wh_status r = StatusDelivered \<longrightarrow> acknowledged ps r)"
  by (simp add: wh_sound_def)

lemma of_log_mono: "of_log uin l r \<Longrightarrow> prefix l l' \<Longrightarrow> of_log uin l' r"
  unfolding of_log_def using set_mono_prefix by blast

lemma hooks_same: "hooks_ok uin d l ps \<Longrightarrow> webhook_deliveries d' = webhook_deliveries d \<Longrightarrow> prefix l l' \<Longrightarrow> hooks_ok uin d' l' ps"
  using of_log_mono by (auto simp: hooks_ok_def canonical_ids_def one_per_endpoint_def)

lemma system_inv_start: "system_inv uin \<lparr>sy_db = empty_database, sy_redis = Map.empty, sy_log = [], sy_posts = []\<rparr>"
proof -
  have "core_inv empty_database" using ledger_inv_empty by (simp add: ledger_inv_def)
  then show ?thesis
    by (simp add: system_inv_def records_ok_def coherent_def log_ok_def hooks_ok_def canonical_ids_def one_per_endpoint_def
        empty_database_def)
qed

subsection \<open>Requests\<close>

lemma api_step_core:
  assumes "api_change uin d d'" and "core_inv d"
  shows "core_inv d'"
  using assms ledger_step_inv[of uin d d' False] by (auto simp: api_change_def)

lemma api_step_tables:
  assumes "api_change uin d d'"
  shows "webhook_deliveries d' = webhook_deliveries d \<and>
    (outbox_events d' = outbox_events d \<or>
     (\<exists>ob. outbox_events d' = outbox_events d @ [ob] \<and> uin (o_id ob) = Some (o_id ob) \<and> o_status ob = StatusPending))"
proof -
  have "posting_ok c now t es ob \<Longrightarrow> o_status ob = StatusPending" for c now t es ob
    by (simp add: posting_ok_def outbox_fresh_def)
  with assms show ?thesis
    by (fastforce simp: api_change_def posts_def opens_def account_opening_def claimed_db_def dest!: ledger_step_shape)
qed

lemma api_step_log:
  assumes "api_change uin d d'" and "log_ok uin d l"
  shows "log_ok uin d' l"
  using api_step_tables[OF assms(1)] assms(2) by (auto simp: log_ok_def StatusPending_def StatusPublished_def)

lemma api_steps:
  assumes "(api_change uin)\<^sup>*\<^sup>* d d'"
  shows "(core_inv d \<longrightarrow> core_inv d') \<and> webhook_deliveries d' = webhook_deliveries d \<and> (log_ok uin d l \<longrightarrow> log_ok uin d' l)"
  using assms
proof (induction rule: rtranclp_induct)
  case (step d1 d2)
  then show ?case using api_step_core api_step_log api_step_tables by metis
qed simp

lemma log_ok_mono: "log_ok uin d l \<Longrightarrow> prefix l l' \<Longrightarrow> log_ok uin d l'"
  unfolding log_ok_def using set_mono_prefix by blast

lemma change_keeps:
  assumes ch: "(api_change uin)\<^sup>*\<^sup>* (sy_db y) d" and co: "coherent (sy_db y) (sy_redis y) \<longrightarrow> coherent d m"
    and pre: "prefix (sy_log y) l" and inv: "system_inv uin y"
  shows "system_inv uin (y\<lparr>sy_db := d, sy_redis := m, sy_log := l\<rparr>)"
  using inv api_steps[OF ch, of "sy_log y"] co api_change_records[OF ch] log_ok_mono[OF _ pre, of uin d]
    hooks_same[OF _ _ pre, of uin "sy_db y" "sy_posts y" d]
  by (simp add: system_inv_def)

subsection \<open>Publication\<close>

lemma core_evolves:
  assumes "other_tables d d'" and "map event_identity (outbox_events d') = map event_identity (outbox_events d)"
  shows "core_inv d' = core_inv d"
proof -
  have "map (f \<circ> event_identity) (outbox_events d') = map (f \<circ> event_identity) (outbox_events d)" for f
    using arg_cong[OF assms(2), of "map f"] by simp
  from this[of fst] this[of "\<lambda>(i, t, ty, a, x). (a, ty)"]
  have "map o_id (outbox_events d') = map o_id (outbox_events d)"
    "map (\<lambda>r. (o_aggregate_id r, o_event_type r)) (outbox_events d') = map (\<lambda>r. (o_aggregate_id r, o_event_type r)) (outbox_events d)"
    by (simp_all add: event_identity_def comp_def)
  with assms(1) show ?thesis
    by (simp add: core_inv_def core_defs other_tables_def entries_of_def account_entries_def)
qed

lemma inv_sound: "system_inv uin y \<Longrightarrow> db w = sy_db y \<Longrightarrow> sound uin (w, sy_log y)"
  by (simp add: sound_iff system_inv_def core_inv_def outbox_ok_def)

lemma publisher_keeps:
  assumes fr: "pub_frame (w, sy_log y) (w', l)" and so: "sound uin (w', l)" and "db w = sy_db y" and inv: "system_inv uin y"
  shows "system_inv uin (y\<lparr>sy_db := db w', sy_log := l\<rparr>)"
proof -
  have dist: "distinct (map o_id (outbox_events (db w)))"
    using inv_sound[OF inv assms(3)] by (simp add: sound_iff)
  with fr have ev: "list_all2 evolves (outbox_events (db w)) (outbox_events (db w'))"
    and ot: "other_tables (db w) (db w')" and pre: "prefix (sy_log y) l" by (auto simp: pub_frame_def outbox_evolves_def)
  have "log_ok uin (db w') l" using so by (simp add: sound_iff)
  moreover have "core_inv (db w')" using core_evolves[OF ot] evolved_ids[OF ev] inv by (simp add: system_inv_def assms(3))
  moreover have "records_ok (db w') \<and> coherent (db w') (sy_redis y)"
    using inv ot assms(3) coherent_keeps[of "sy_db y" "sy_redis y" "db w'"]
    by (simp add: system_inv_def records_ok_def other_tables_def keeps_done_def idem_of_def)
  moreover have "hooks_ok uin (db w') l (sy_posts y)"
    using hooks_same[OF _ _ pre, of uin "sy_db y"] inv ot assms(3) by (simp add: system_inv_def other_tables_def)
  ultimately show ?thesis by (simp add: system_inv_def)
qed

lemma publish_keeps:
  assumes "uuid_in env = uin" and run: "RunOnce env cfg brk ctx locked (w, sy_log y) = (n, (w', l))" and "db w = sy_db y"
    and inv: "system_inv uin y"
  shows "system_inv uin (y\<lparr>sy_db := db w', sy_log := l\<rparr>)"
  using publisher_keeps[OF staysD[OF fr_RunOnce run] RunOnce_sound[OF assms(1) inv_sound[OF inv assms(3)] run] assms(3) inv] .

subsection \<open>Intake and delivery\<close>

lemma rest_same:
  assumes "ledger_tables d d'"
  shows "core_inv d' = core_inv d \<and> records_ok d' = records_ok d \<and> log_ok uin d' l = log_ok uin d l \<and> keeps_done d d'"
proof -
  obtain x where x: "d' = d\<lparr>webhook_deliveries := x\<rparr>" using assms unfolding ledger_tables_def by blast
  show ?thesis
    by (simp add: x core_inv_def core_defs entries_of_def account_entries_def records_ok_def log_ok_def keeps_done_def idem_of_def)
qed

lemma hooks_step:
  assumes "system_inv uin y" and "ledger_tables (sy_db y) d'" and "hooks_ok uin d' (sy_log y) ps"
  shows "system_inv uin (y\<lparr>sy_db := d', sy_posts := ps\<rparr>)"
  using assms(1,3) rest_same[OF assms(2)] coherent_keeps by (auto simp: system_inv_def)

text \<open>A statement or a loop of the intake: it adds deliveries of one event of the log.\<close>

definition intake_rel :: "(string \<Rightarrow> string option) \<Rightarrow> Message list \<Rightarrow> world \<Rightarrow> world \<Rightarrow> bool" where
  "intake_rel uin l w w' \<longleftrightarrow> ledger_tables (db w) (db w') \<and> (\<forall>ps. hooks_ok uin (db w) l ps \<longrightarrow> hooks_ok uin (db w') l ps)"

interpretation intk: step_rel "intake_rel uin l" for uin l
  by unfold_locales (auto simp: intake_rel_def intro: ledger_tables_trans)

lemmas intake_basic = intk.stays_ret intk.stays_throw intk.stays_mapErr intk.stays_andThen

lemma intake_quiet: "(\<And>w r w'. m w = (r, w') \<Longrightarrow> db w' = db w) \<Longrightarrow> stays (intake_rel uin l) m"
  unfolding stays_def intake_rel_def by (metis ledger_tables_refl prod.collapse)

lemma enqueue_stmt_hooks:
  assumes "uuid_ok env" and "uuid_in env = uin" and "msg \<in> set l" and "unmarshalEnvelope (m_Value msg) = Some e"
    and "dl_EventID dl = ev_EventID e" "dl_EventType dl = ev_EventType e" "dl_TransactionID dl = ev_TransactionID e"
    and "enqueue_stmt env dl now d = Inr (n, d')" and "hooks_ok uin d l ps"
  shows "hooks_ok uin d' l ps"
  using assms
  by (auto simp: enqueue_stmt_def checked_Inr hooks_ok_def canonical_ids_def one_per_endpoint_def of_log_def new_webhook_row_def
      list_ex_iff list_all_iff uuid_ok_def StatusPending_def StatusDelivered_def split: option.splits if_splits)

lemma intake_Enqueue:
  assumes "uuid_ok env" and "uuid_in env = uin" and "msg \<in> set l" and "unmarshalEnvelope (m_Value msg) = Some e"
    and "dl_EventID dl = ev_EventID e" "dl_EventType dl = ev_EventType e" "dl_TransactionID dl = ev_TransactionID e"
  shows "stays (intake_rel uin l) (Enqueue env dl)"
proof -
  have "ledger_tables d d'" if "enqueue_stmt env dl now d = Inr (n, d')" for now d n d'
    using that by (auto simp: enqueue_stmt_def checked_Inr split: option.splits if_splits)
  then have "stays (intake_rel uin l) (pool_sql env (enqueue_stmt env dl))"
    using enqueue_stmt_hooks[OF assms]
    by (fastforce simp: stays_def intake_rel_def pool_sql_def sql_def split: commit_fault.splits option.splits sum.splits prod.splits)
  then show ?thesis unfolding Enqueue_def by (intro intake_basic)
qed

lemma intake_HandleEvent:
  assumes "uuid_ok env" and "uuid_in env = uin" and "msg \<in> set l"
  shows "stays (intake_rel uin l) (HandleEvent env cfg ctx msg)"
proof -
  have loop: "stays (intake_rel uin l) (enqueueLoop env e (m_Value msg) eps)"
    if e: "unmarshalEnvelope (m_Value msg) = Some e" for e eps
  proof (induction eps)
    case (Cons ep eps)
    have "stays (intake_rel uin l) (newUUID env)" by (rule intake_quiet) (auto simp: newUUID_def)
    then show ?case by (auto intro!: intake_basic intake_Enqueue[OF assms e] Cons)
  qed (simp add: intake_basic)
  have "stays (intake_rel uin l) (fpEval ov n)" for ov n by (rule intake_quiet) (rule fpEval_db)
  then show ?thesis unfolding HandleEvent_def Let_def
    by (auto intro!: intake_basic loop split: option.splits)
qed

lemma delivery_hooks:
  assumes fr: "wh_frame (w, ps) (w', ps')" and "wh_sound uin (w', ps')" and ok: "hooks_ok uin (db w) l ps"
  shows "hooks_ok uin (db w') l ps'"
proof -
  have ids: "map wh_identity (webhook_deliveries (db w')) = map wh_identity (webhook_deliveries (db w))"
    using fr by (simp add: wh_frame_def)
  have "map (f \<circ> wh_identity) (webhook_deliveries (db w')) = map (f \<circ> wh_identity) (webhook_deliveries (db w))" for f
    using arg_cong[OF ids, of "map f"] by simp
  from this[of "\<lambda>(i, ev, ep, x). (ev, ep)"] have one: "one_per_endpoint (db w')"
    using ok by (simp add: hooks_ok_def one_per_endpoint_def wh_identity_def comp_def)
  have "of_log uin l r'" if r': "r' \<in> set (webhook_deliveries (db w'))" for r'
    using frame_mem[OF fr] r' ok by (fastforce simp: hooks_ok_def of_log_def wh_identity_def)
  with assms(2) show ?thesis using one by (simp add: hooks_ok_def wh_sound_iff)
qed

lemma inv_wh_sound: "system_inv uin y \<Longrightarrow> db w = sy_db y \<Longrightarrow> wh_sound uin (w, sy_posts y)"
  by (simp add: wh_sound_iff system_inv_def hooks_ok_def)

lemma courier_keeps:
  assumes fr: "wh_frame (w, sy_posts y) (w', ps)" and so: "wh_sound uin (w', ps)" and "db w = sy_db y" and inv: "system_inv uin y"
  shows "system_inv uin (y\<lparr>sy_db := db w', sy_posts := ps\<rparr>)"
proof (rule hooks_step[OF inv])
  show "ledger_tables (sy_db y) (db w')" using fr assms(3) by (simp add: wh_frame_def)
  show "hooks_ok uin (db w') (sy_log y) ps"
    using delivery_hooks[OF fr so] inv assms(3) by (simp add: system_inv_def)
qed

subsection \<open>Every step keeps the invariant\<close>

lemma system_step_inv:
  assumes "system_step uin y y'" and inv: "system_inv uin y"
  shows "system_inv uin y'"
  using assms(1)
proof cases
  case (request srv verb path r w out x w' out')
  from serve_rel[OF request(2,4)] request(3) have "api_rel uin (w, out) (w', out')" by simp
  with change_keeps[of uin y "db w'" "redis_db out'" "kafka_log out'"] inv request show ?thesis by (simp add: api_rel_def)
next
  case (forget m)
  with inv coherent_sub show ?thesis by (auto simp: system_inv_def)
next
  case (publish env cfg brk ctx locked w n w' l)
  with publish_keeps[OF publish(2-4) inv] show ?thesis by simp
next
  case (intake env msg cfg ctx w u w')
  have "hooks_ok uin (db w) (sy_log y) (sy_posts y)" using inv intake(6) by (simp add: system_inv_def)
  with staysD[OF intake_HandleEvent[OF intake(2-4)] intake(5)]
  have "ledger_tables (sy_db y) (db w')" "hooks_ok uin (db w') (sy_log y) (sy_posts y)"
    using intake(6) by (auto simp: intake_rel_def)
  from hooks_step[OF inv this] intake(1) show ?thesis by simp
next
  case (delivery env cfg signer http ctx w k w' ps)
  from courier_keeps[OF staysD[OF wh_DeliverOnce delivery(3)] DeliverOnce_sound[OF delivery(2) inv_wh_sound[OF inv delivery(4)] delivery(3)]
      delivery(4) inv] delivery(1) show ?thesis by simp
qed

lemma system_reachable_inv: "system_reachable uin y \<Longrightarrow> system_inv uin y"
  by (induction rule: system_reachable.induct) (auto intro: system_inv_start system_step_inv)

end
