(* ===== verification/Api_Demo.thy ===== *)
theory Api_Demo
  imports System Ledger_Retries
begin

text \<open>
  A concrete run of the whole system on which its theorems are instantiated: two accounts and a
  transfer through the HTTP interface, one publication, one intake, one delivery.
\<close>

definition web_env :: env where
  "web_env = demo_env\<lparr>jsonb := (\<lambda>j. j)\<rparr>"

definition web_cfg :: Config where
  "web_cfg = demo_cfg\<lparr>WebhookEndpoints := [''http://hook'']\<rparr>"

definition web_lib :: golib where
  "web_lib = \<lparr>lib_sha256 = (\<lambda>s. [char_of (length s)]), lib_marshal = (\<lambda>j. Inr (case j of JObj ms \<Rightarrow> replicate (length ms) CHR ''x'' | _ \<Rightarrow> [])),
     lib_formatTime = (\<lambda>_. []), lib_parseTime = (\<lambda>_. None), lib_durText = (\<lambda>_. [])\<rparr>"

definition web_redis :: redis_client where
  "web_redis = \<lparr>rc_ack = (\<lambda>_. Acked), rc_lost = (\<lambda>_ _. False)\<rparr>"

definition web_srv :: Server where
  "web_srv = NewServer web_lib \<lparr>op_Config = web_cfg, op_DB = web_env, op_Cache = NewCache (Some web_redis) 1 1,
     op_Redis = Some web_redis, op_Producer = (\<lambda>_. Acked)\<rparr>"

definition web_post :: "string \<Rightarrow> json \<Rightarrow> request" where
  "web_post key doc = \<lparr>hr_Method = ''POST'', hr_Header = (\<lambda>k. if k = HeaderIdempotencyKey then key else if k = HeaderRequestID then ''q'' else []), hr_PathID = [], hr_Query = (\<lambda>_. []),
     hr_Body = Document doc, hr_ContentLength = 1, hr_RemoteAddr = ''r'', hr_Context = Background\<rparr>"

definition open_doc :: "string \<Rightarrow> string \<Rightarrow> bool \<Rightarrow> json" where
  "open_doc i kind overdraft = JObj [(''id'', JStr i), (''currency'', JStr ''USD''), (''kind'', JStr kind), (''allow_overdraft'', JBool overdraft)]"

definition fund_doc :: json where
  "fund_doc = JObj [(''source_account_id'', JStr ''b''), (''destination_account_id'', JStr ''u''), (''amount'', JNum 100), (''currency'', JStr ''USD'')]"

definition web_out :: outside where
  "web_out = \<lparr>redis_db = Map.empty, kafka_log = [], ans_headers = [], ans_status = None, ans_body = [], ans_code = [], samples = []\<rparr>"


subsection \<open>Running a request step by step\<close>

lemma andThen_weak: "m = m' \<Longrightarrow> andThen m f = andThen m' f"
  by simp

lemma mux_accounts: "mux srv ''POST'' [''v1'', ''accounts''] r s = route srv ''POST /v1/accounts'' (handleCreateAccount srv) True (r\<lparr>hr_Method := ''POST'', hr_PathID := []\<rparr>) s"
  by (simp add: mux_def endpoints_def methodMatches_def)

lemma mux_transfers: "mux srv ''POST'' [''v1'', ''transfers''] r s = route srv ''POST /v1/transfers'' (handleTransfer srv) True (r\<lparr>hr_Method := ''POST'', hr_PathID := []\<rparr>) s"
  by (simp add: mux_def endpoints_def methodMatches_def)

lemma route_plain:
  assumes "s_limiter srv = None" and "hr_Header r HeaderFailpoint = []" and "hr_Header r HeaderRequestID = q" "q \<noteq> []"
    and "hr_Header r HeaderCorrelationID = []"
  defines "r' \<equiv> r\<lparr>hr_Context := WithCorrelationID (WithRequestID (hr_Context r) q) q\<rparr>"
  shows "route srv pattern h limited r s = andThen (h r') (\<lambda>_. observeRequest pattern r')
    (fst s, (snd s)\<lparr>ans_headers := AList.update HeaderCorrelationID q (AList.update HeaderRequestID q (ans_headers (snd s))), ans_code := []\<rparr>)"
  using assms by (simp add: route_def withRequestContext_def withObservability_def recordCode_def withRateLimit_def withFailpoints_def Let_def andThen_def ret_def setHeader_def)

lemma mutate_run:
  assumes "hashed srv scope payload = Inr h" and "Get (s_cache srv) scope key s = (Ret None, s1)" and "run h (fst s1) = (Ret x, w2)"
  shows "mutate srv r scope key payload run s = finishIdempotent srv scope key h x (w2, snd s1)"
  using assms by (simp add: mutate_def orError_def lift_def attempt_def andThen_def ret_def replayFromCache_def onDB_def)

lemma web_srv_fields: "s_cache web_srv = NewCache (Some web_redis) 1 1" "s_limiter web_srv = None" "s_db web_srv = web_env"
    "s_cfg web_srv = web_cfg" "s_lib web_srv = web_lib"
  by (simp_all add: web_srv_def NewServer_def web_cfg_def demo_cfg_def Config.defs)

lemma survive_web [simp]: "survive web_redis n m = m"
  by (simp add: survive_def web_redis_def)

lemma web_get: "redis_db out (cacheKey scope key) = None \<Longrightarrow>
    Get (NewCache (Some web_redis) 1 1) scope key (w, out) = (Ret None, (tickw w, out))"
  by (simp add: Get_def NewCache_def redisGet_def redisDo_def Let_def andThen_def) (simp add: web_redis_def ret_def)

lemma web_put: "Put (NewCache (Some web_redis) 1 1) scope key c (w, out) =
    (Ret (), (tickw w, out\<lparr>redis_db := (redis_db out)(cacheKey scope key \<mapsto> RDoc (marshalCached c))\<rparr>))"
  by (simp add: Put_def NewCache_def redisSet_def redisDo_def Let_def andThen_def) (simp add: web_redis_def ret_def)

text \<open>A mutation that misses the cache, is carried out and is cached.\<close>

definition stored :: "string \<Rightarrow> string \<Rightarrow> string \<Rightarrow> Result \<Rightarrow> outside \<Rightarrow> outside" where
  "stored scope key h x out = out\<lparr>redis_db := (redis_db out)(cacheKey scope key \<mapsto> RDoc (marshalCached
     \<lparr>cr_Status = res_ResponseStatus x, cr_Body = res_ResponseBody x, cr_RequestHash = h,
      cr_TransactionID = (case res_Transaction x of None \<Rightarrow> [] | Some t \<Rightarrow> tx_ID t)\<rparr>)),
     ans_headers := AList.update ''Content-Type'' ''application/json'' (ans_headers out),
     ans_status := Some (res_ResponseStatus x), ans_body := ans_body out @ (case res_ResponseBody x of None \<Rightarrow> [] | Some b \<Rightarrow> [b])\<rparr>"

lemma web_mutate:
  assumes "hashed web_srv scope payload = Inr h" and "redis_db out (cacheKey scope key) = None" and "ans_status out = None"
    and "run h (tickw w) = (Ret x, w2)" and "\<not> res_Replayed x" and "res_ResponseStatus x = 201"
  shows "mutate web_srv r scope key payload run (w, out) = (Ret (), (tickw w2, stored scope key h x out))"
proof -
  have "Get (s_cache web_srv) scope key (w, out) = (Ret None, (tickw w, out))" using assms(2) by (simp add: web_srv_fields web_get)
  from mutate_run[where run = run, OF assms(1) this, of x w2 r] assms(3-6) show ?thesis
    by (simp add: finishIdempotent_def Let_def andThen_def web_srv_fields web_put ret_def setHeader_def writeRaw_def writeHeader_def
        writeDoc_def stored_def split: option.splits)
qed

subsection \<open>The run\<close>

definition web_ctx :: ctx where
  "web_ctx = WithCorrelationID (WithRequestID Background ''q'') ''q''"

definition web_open :: "string \<Rightarrow> string \<Rightarrow> string \<Rightarrow> bool \<Rightarrow> CreateAccountCommand" where
  "web_open key i kind overdraft = \<lparr>ca_ID = i, ca_Currency = ''USD'', ca_Kind = kind, ca_AllowOverdraft = overdraft, ca_Metadata = None,
     ca_IdempotencyScope = scopeCreateAccount, ca_IdempotencyKey = key, ca_RequestHash = ''16''\<rparr>"

definition web_fund :: TransferCommand where
  "web_fund = \<lparr>tc_SourceAccountID = ''b'', tc_DestinationAccountID = ''u'', tc_Amount = 100, tc_Currency = ''USD'',
     tc_Description = [], tc_ExternalReference = [], tc_IdempotencyScope = scopeTransfer, tc_IdempotencyKey = ''k3'', tc_RequestHash = ''17''\<rparr>"

definition C1 :: "Result result \<times> world" where
  "C1 = CreateAccount web_env web_cfg (web_open ''k1'' ''b'' ''system'' True) (tickw W0)"
definition C2 :: "Result result \<times> world" where
  "C2 = CreateAccount web_env web_cfg (web_open ''k2'' ''u'' ''user'' False) (tickw (tickw (snd C1)))"
definition C3 :: "Result result \<times> world" where
  "C3 = Transfer web_env web_cfg web_ctx web_fund (tickw (tickw (snd C2)))"

lemma C1_eq: "C1 =
    (Ret \<lparr>res_Transaction = None, res_ResponseStatus = 201, res_ResponseBody = Some (JObj [(''id'', JStr
    ''b''), (''currency'', JStr ''USD''), (''kind'', JStr ''system''), (''allow_overdraft'', JBool True),
    (''metadata'', JObj []), (''created_at'', JTime 1)]), res_Replayed = False\<rparr>, \<lparr>db =
    \<lparr>accounts = [\<lparr>a_id = ''b'', a_currency = ''USD'', a_kind = ''system'', a_allow_overdraft =
    True, a_metadata = JObj [], a_created_at = 1\<rparr>], balances = [\<lparr>b_account_id = ''b'', b_amount =
    0, b_allow_overdraft = True, b_version = 0, b_updated_at = 1\<rparr>], ledger_transactions = [],
    ledger_entries = [], reversals = [], idempotency_records = [\<lparr>i_scope = ''POST /v1/accounts'', i_key =
    ''k1'', i_request_hash = ''16'', i_state = ''completed'', i_response_status = Some 201, i_response_body =
    Some (JObj [(''id'', JStr ''b''), (''currency'', JStr ''USD''), (''kind'', JStr ''system''),
    (''allow_overdraft'', JBool True), (''metadata'', JObj []), (''created_at'', JTime 1)]), i_transaction_id =
    None, i_created_at = 1, i_updated_at = 1\<rparr>], outbox_events = [], webhook_deliveries = []\<rparr>, tick
    = 8, tx_now = 1, row_locks = [], adv_locks = [], fps = None\<rparr>)"
  by code_simp

lemma C2_eq: "C2 =
    (Ret \<lparr>res_Transaction = None, res_ResponseStatus = 201, res_ResponseBody = Some (JObj [(''id'', JStr
    ''u''), (''currency'', JStr ''USD''), (''kind'', JStr ''user''), (''allow_overdraft'', JBool False),
    (''metadata'', JObj []), (''created_at'', JTime 10)]), res_Replayed = False\<rparr>, \<lparr>db =
    \<lparr>accounts = [\<lparr>a_id = ''b'', a_currency = ''USD'', a_kind = ''system'', a_allow_overdraft =
    True, a_metadata = JObj [], a_created_at = 1\<rparr>, \<lparr>a_id = ''u'', a_currency = ''USD'', a_kind =
    ''user'', a_allow_overdraft = False, a_metadata = JObj [], a_created_at = 10\<rparr>], balances =
    [\<lparr>b_account_id = ''b'', b_amount = 0, b_allow_overdraft = True, b_version = 0, b_updated_at =
    1\<rparr>, \<lparr>b_account_id = ''u'', b_amount = 0, b_allow_overdraft = False, b_version = 0,
    b_updated_at = 10\<rparr>], ledger_transactions = [], ledger_entries = [], reversals = [],
    idempotency_records = [\<lparr>i_scope = ''POST /v1/accounts'', i_key = ''k1'', i_request_hash = ''16'',
    i_state = ''completed'', i_response_status = Some 201, i_response_body = Some (JObj [(''id'', JStr ''b''),
    (''currency'', JStr ''USD''), (''kind'', JStr ''system''), (''allow_overdraft'', JBool True), (''metadata'',
    JObj []), (''created_at'', JTime 1)]), i_transaction_id = None, i_created_at = 1, i_updated_at = 1\<rparr>,
    \<lparr>i_scope = ''POST /v1/accounts'', i_key = ''k2'', i_request_hash = ''16'', i_state = ''completed'',
    i_response_status = Some 201, i_response_body = Some (JObj [(''id'', JStr ''u''), (''currency'', JStr
    ''USD''), (''kind'', JStr ''user''), (''allow_overdraft'', JBool False), (''metadata'', JObj []),
    (''created_at'', JTime 10)]), i_transaction_id = None, i_created_at = 10, i_updated_at = 10\<rparr>],
    outbox_events = [], webhook_deliveries = []\<rparr>, tick = 17, tx_now = 10, row_locks = [], adv_locks = [],
    fps = None\<rparr>)"
  unfolding C2_def C1_eq snd_conv by code_simp

lemma C3_eq: "C3 =
    (Ret \<lparr>res_Transaction = Some \<lparr>tx_ID = '';'', tx_Kind = ''funding'', tx_Currency = ''USD'',
    tx_Description = [], tx_ExternalReference = None, tx_ReversesTransactionID = None,
    tx_ReversedByTransactionID = None, tx_CreatedAt = 20, tx_Entries = [\<lparr>e_id = ''B'', e_transaction_id =
    '';'', e_account_id = ''b'', e_amount = - 100, e_currency = ''USD'', e_seq = 0, e_created_at = 20\<rparr>,
    \<lparr>e_id = ''C'', e_transaction_id = '';'', e_account_id = ''u'', e_amount = 100, e_currency = ''USD'',
    e_seq = 1, e_created_at = 20\<rparr>]\<rparr>, res_ResponseStatus = 201, res_ResponseBody = Some (JObj
    [(''id'', JStr '';''), (''kind'', JStr ''funding''), (''currency'', JStr ''USD''), (''description'', JStr
    []), (''created_at'', JTime 20), (''entries'', JArr [JObj [(''id'', JStr ''B''), (''transaction_id'', JStr
    '';''), (''account_id'', JStr ''b''), (''amount'', JNum (- 100)), (''currency'', JStr ''USD''), (''seq'',
    JNum 0), (''created_at'', JTime 20)], JObj [(''id'', JStr ''C''), (''transaction_id'', JStr '';''),
    (''account_id'', JStr ''u''), (''amount'', JNum 100), (''currency'', JStr ''USD''), (''seq'', JNum 1),
    (''created_at'', JTime 20)]])]), res_Replayed = False\<rparr>, \<lparr>db = \<lparr>accounts = [\<lparr>a_id
    = ''b'', a_currency = ''USD'', a_kind = ''system'', a_allow_overdraft = True, a_metadata = JObj [],
    a_created_at = 1\<rparr>, \<lparr>a_id = ''u'', a_currency = ''USD'', a_kind = ''user'', a_allow_overdraft =
    False, a_metadata = JObj [], a_created_at = 10\<rparr>], balances = [\<lparr>b_account_id = ''b'', b_amount
    = - 100, b_allow_overdraft = True, b_version = 1, b_updated_at = 20\<rparr>, \<lparr>b_account_id = ''u'',
    b_amount = 100, b_allow_overdraft = False, b_version = 1, b_updated_at = 20\<rparr>], ledger_transactions =
    [\<lparr>t_id = '';'', t_kind = ''funding'', t_currency = ''USD'', t_description = [], t_external_reference
    = None, t_reverses = None, t_created_at = 20\<rparr>], ledger_entries = [\<lparr>e_id = ''B'',
    e_transaction_id = '';'', e_account_id = ''b'', e_amount = - 100, e_currency = ''USD'', e_seq = 0,
    e_created_at = 20\<rparr>, \<lparr>e_id = ''C'', e_transaction_id = '';'', e_account_id = ''u'', e_amount =
    100, e_currency = ''USD'', e_seq = 1, e_created_at = 20\<rparr>], reversals = [], idempotency_records =
    [\<lparr>i_scope = ''POST /v1/accounts'', i_key = ''k1'', i_request_hash = ''16'', i_state = ''completed'',
    i_response_status = Some 201, i_response_body = Some (JObj [(''id'', JStr ''b''), (''currency'', JStr
    ''USD''), (''kind'', JStr ''system''), (''allow_overdraft'', JBool True), (''metadata'', JObj []),
    (''created_at'', JTime 1)]), i_transaction_id = None, i_created_at = 1, i_updated_at = 1\<rparr>,
    \<lparr>i_scope = ''POST /v1/accounts'', i_key = ''k2'', i_request_hash = ''16'', i_state = ''completed'',
    i_response_status = Some 201, i_response_body = Some (JObj [(''id'', JStr ''u''), (''currency'', JStr
    ''USD''), (''kind'', JStr ''user''), (''allow_overdraft'', JBool False), (''metadata'', JObj []),
    (''created_at'', JTime 10)]), i_transaction_id = None, i_created_at = 10, i_updated_at = 10\<rparr>,
    \<lparr>i_scope = ''POST /v1/transfers'', i_key = ''k3'', i_request_hash = ''17'', i_state = ''completed'',
    i_response_status = Some 201, i_response_body = Some (JObj [(''id'', JStr '';''), (''kind'', JStr
    ''funding''), (''currency'', JStr ''USD''), (''description'', JStr []), (''created_at'', JTime 20),
    (''entries'', JArr [JObj [(''id'', JStr ''B''), (''transaction_id'', JStr '';''), (''account_id'', JStr
    ''b''), (''amount'', JNum (- 100)), (''currency'', JStr ''USD''), (''seq'', JNum 0), (''created_at'', JTime
    20)], JObj [(''id'', JStr ''C''), (''transaction_id'', JStr '';''), (''account_id'', JStr ''u''),
    (''amount'', JNum 100), (''currency'', JStr ''USD''), (''seq'', JNum 1), (''created_at'', JTime 20)]])]),
    i_transaction_id = Some '';'', i_created_at = 20, i_updated_at = 20\<rparr>], outbox_events = [\<lparr>o_id
    = ''I'', o_topic = ''payments.created'', o_event_type = ''payment.created'', o_aggregate_id = '';'',
    o_partition_key = '';'', o_payload = JObj [(''event_id'', JStr ''I''), (''event_type'', JStr
    ''payment.created''), (''schema_version'', JNum 1), (''transaction_id'', JStr '';''), (''occurred_at'',
    JTime 25), (''correlation_id'', JStr ''q''), (''data'', JObj [(''transaction_id'', JStr '';''), (''kind'',
    JStr ''funding''), (''currency'', JStr ''USD''), (''amount'', JNum 100), (''source_account_id'', JStr
    ''b''), (''destination_account_id'', JStr ''u''), (''created_at'', JTime 25), (''entries'', JArr [JObj
    [(''entry_id'', JStr ''B''), (''account_id'', JStr ''b''), (''amount'', JNum (- 100)), (''currency'', JStr
    ''USD''), (''seq'', JNum 0)], JObj [(''entry_id'', JStr ''C''), (''account_id'', JStr ''u''), (''amount'',
    JNum 100), (''currency'', JStr ''USD''), (''seq'', JNum 1)]])])], o_headers = [(''event_type'',
    ''payment.created''), (''correlation_id'', ''q''), (''schema_version'', ''1'')], o_status = ''pending'',
    o_attempts = 0, o_last_error = None, o_claimed_by = None, o_claimed_at = None, o_next_attempt_at = 20,
    o_published_at = None, o_created_at = 20\<rparr>], webhook_deliveries = []\<rparr>, tick = 39, tx_now = 20,
    row_locks = [], adv_locks = [], fps = None\<rparr>)"
  unfolding C3_def C2_eq snd_conv by code_simp

definition K4 :: "(int \<times> goerr option) result \<times> world \<times> Message list" where
  "K4 = RunOnce web_env web_cfg (\<lambda>_. Acked) Background (\<lambda>_. False) (tickw (snd C3), [])"

lemma K4_eq: "snd K4 =
    (\<lparr>db = \<lparr>accounts = [\<lparr>a_id = ''b'', a_currency = ''USD'', a_kind = ''system'',
    a_allow_overdraft = True, a_metadata = JObj [], a_created_at = 1\<rparr>, \<lparr>a_id = ''u'', a_currency =
    ''USD'', a_kind = ''user'', a_allow_overdraft = False, a_metadata = JObj [], a_created_at = 10\<rparr>],
    balances = [\<lparr>b_account_id = ''b'', b_amount = - 100, b_allow_overdraft = True, b_version = 1,
    b_updated_at = 20\<rparr>, \<lparr>b_account_id = ''u'', b_amount = 100, b_allow_overdraft = False,
    b_version = 1, b_updated_at = 20\<rparr>], ledger_transactions = [\<lparr>t_id = '';'', t_kind =
    ''funding'', t_currency = ''USD'', t_description = [], t_external_reference = None, t_reverses = None,
    t_created_at = 20\<rparr>], ledger_entries = [\<lparr>e_id = ''B'', e_transaction_id = '';'', e_account_id =
    ''b'', e_amount = - 100, e_currency = ''USD'', e_seq = 0, e_created_at = 20\<rparr>, \<lparr>e_id = ''C'',
    e_transaction_id = '';'', e_account_id = ''u'', e_amount = 100, e_currency = ''USD'', e_seq = 1,
    e_created_at = 20\<rparr>], reversals = [], idempotency_records = [\<lparr>i_scope = ''POST /v1/accounts'',
    i_key = ''k1'', i_request_hash = ''16'', i_state = ''completed'', i_response_status = Some 201,
    i_response_body = Some (JObj [(''id'', JStr ''b''), (''currency'', JStr ''USD''), (''kind'', JStr
    ''system''), (''allow_overdraft'', JBool True), (''metadata'', JObj []), (''created_at'', JTime 1)]),
    i_transaction_id = None, i_created_at = 1, i_updated_at = 1\<rparr>, \<lparr>i_scope =
    ''POST /v1/accounts'', i_key = ''k2'', i_request_hash = ''16'', i_state = ''completed'', i_response_status =
    Some 201, i_response_body = Some (JObj [(''id'', JStr ''u''), (''currency'', JStr ''USD''), (''kind'', JStr
    ''user''), (''allow_overdraft'', JBool False), (''metadata'', JObj []), (''created_at'', JTime 10)]),
    i_transaction_id = None, i_created_at = 10, i_updated_at = 10\<rparr>, \<lparr>i_scope =
    ''POST /v1/transfers'', i_key = ''k3'', i_request_hash = ''17'', i_state = ''completed'', i_response_status
    = Some 201, i_response_body = Some (JObj [(''id'', JStr '';''), (''kind'', JStr ''funding''), (''currency'',
    JStr ''USD''), (''description'', JStr []), (''created_at'', JTime 20), (''entries'', JArr [JObj [(''id'',
    JStr ''B''), (''transaction_id'', JStr '';''), (''account_id'', JStr ''b''), (''amount'', JNum (- 100)),
    (''currency'', JStr ''USD''), (''seq'', JNum 0), (''created_at'', JTime 20)], JObj [(''id'', JStr ''C''),
    (''transaction_id'', JStr '';''), (''account_id'', JStr ''u''), (''amount'', JNum 100), (''currency'', JStr
    ''USD''), (''seq'', JNum 1), (''created_at'', JTime 20)]])]), i_transaction_id = Some '';'', i_created_at =
    20, i_updated_at = 20\<rparr>], outbox_events = [\<lparr>o_id = ''I'', o_topic = ''payments.created'',
    o_event_type = ''payment.created'', o_aggregate_id = '';'', o_partition_key = '';'', o_payload = JObj
    [(''event_id'', JStr ''I''), (''event_type'', JStr ''payment.created''), (''schema_version'', JNum 1),
    (''transaction_id'', JStr '';''), (''occurred_at'', JTime 25), (''correlation_id'', JStr ''q''), (''data'',
    JObj [(''transaction_id'', JStr '';''), (''kind'', JStr ''funding''), (''currency'', JStr ''USD''),
    (''amount'', JNum 100), (''source_account_id'', JStr ''b''), (''destination_account_id'', JStr ''u''),
    (''created_at'', JTime 25), (''entries'', JArr [JObj [(''entry_id'', JStr ''B''), (''account_id'', JStr
    ''b''), (''amount'', JNum (- 100)), (''currency'', JStr ''USD''), (''seq'', JNum 0)], JObj [(''entry_id'',
    JStr ''C''), (''account_id'', JStr ''u''), (''amount'', JNum 100), (''currency'', JStr ''USD''), (''seq'',
    JNum 1)]])])], o_headers = [(''event_type'', ''payment.created''), (''correlation_id'', ''q''),
    (''schema_version'', ''1'')], o_status = ''published'', o_attempts = 1, o_last_error = None, o_claimed_by =
    None, o_claimed_at = None, o_next_attempt_at = 20, o_published_at = Some 44, o_created_at = 20\<rparr>],
    webhook_deliveries = []\<rparr>, tick = 45, tx_now = 44, row_locks = [], adv_locks = [], fps = None\<rparr>,
    [\<lparr>m_Topic = ''payments.created'', m_Key = '';'', m_Value = JObj [(''event_id'', JStr ''I''),
    (''event_type'', JStr ''payment.created''), (''schema_version'', JNum 1), (''transaction_id'', JStr '';''),
    (''occurred_at'', JTime 25), (''correlation_id'', JStr ''q''), (''data'', JObj [(''transaction_id'', JStr
    '';''), (''kind'', JStr ''funding''), (''currency'', JStr ''USD''), (''amount'', JNum 100),
    (''source_account_id'', JStr ''b''), (''destination_account_id'', JStr ''u''), (''created_at'', JTime 25),
    (''entries'', JArr [JObj [(''entry_id'', JStr ''B''), (''account_id'', JStr ''b''), (''amount'', JNum (-
    100)), (''currency'', JStr ''USD''), (''seq'', JNum 0)], JObj [(''entry_id'', JStr ''C''), (''account_id'',
    JStr ''u''), (''amount'', JNum 100), (''currency'', JStr ''USD''), (''seq'', JNum 1)]])])], m_Headers =
    [(''event_type'', ''payment.created''), (''correlation_id'', ''q''), (''schema_version'', ''1''),
    (''event_id'', ''I''), (''transaction_id'', '';'')]\<rparr>])"
  unfolding K4_def C3_eq snd_conv by code_simp

text \<open>What the requests decode to and how they hash.\<close>

lemma doc_open:
  "decodeStruct (lib_parseTime web_lib) createAccountFields (open_doc ''b'' ''system'' True) =
     Inr [(''id'', JStr ''b''), (''currency'', JStr ''USD''), (''kind'', JStr ''system''), (''allow_overdraft'', JBool True)]"
  "decodeStruct (lib_parseTime web_lib) createAccountFields (open_doc ''u'' ''user'' False) =
     Inr [(''id'', JStr ''u''), (''currency'', JStr ''USD''), (''kind'', JStr ''user''), (''allow_overdraft'', JBool False)]"
  by code_simp+

lemma doc_fund: "decodeStruct (lib_parseTime web_lib) transferFields fund_doc =
    Inr [(''source_account_id'', JStr ''b''), (''destination_account_id'', JStr ''u''), (''amount'', JNum 100), (''currency'', JStr ''USD'')]"
  by code_simp

lemma hash_open: "hashed web_srv scopeCreateAccount (marshalCreateAccount \<lparr>car_ID = i, car_Currency = ''USD'', car_Kind = kd,
    car_AllowOverdraft = od, car_Metadata = None\<rparr>) = Inr ''16''"
  by (simp add: hashed_def HashRequest_def web_srv_fields web_lib_def marshalCreateAccount_def scope_defs hex_def)

lemma hash_fund: "hashed web_srv scopeTransfer (marshalTransferRequest \<lparr>tr_SourceAccountID = ''b'', tr_DestinationAccountID = ''u'',
    tr_Amount = 100, tr_Currency = ''USD'', tr_Description = [], tr_ExternalReference = []\<rparr>) = Inr ''17''"
  by code_simp

definition web_base :: "outside \<Rightarrow> outside" where
  "web_base out = out\<lparr>ans_headers := [(HeaderRequestID, ''q''), (HeaderCorrelationID, ''q'')], ans_status := None, ans_body := [], ans_code := []\<rparr>"

definition noted :: "string \<Rightarrow> outside \<Rightarrow> outside" where
  "noted pattern out = out\<lparr>samples := samples out @
     [(co_Name HTTPRequests, [''POST'', pattern, decimal (sentStatus out), ans_code out]),
      (co_Name HTTPDuration, [''POST'', pattern, decimal (sentStatus out)])]\<rparr>"

lemma noted_redis [simp]: "redis_db (noted pattern out) = redis_db out"
  by (simp add: noted_def)

text \<open>The routes of the two mutations, with every layer around the handler.\<close>

definition web_route :: "string list \<Rightarrow> string \<Rightarrow> handler \<Rightarrow> bool" where
  "web_route path pattern h \<longleftrightarrow>
     path = [''v1'', ''accounts''] \<and> pattern = ''POST /v1/accounts'' \<and> h = handleCreateAccount web_srv \<or>
     path = [''v1'', ''transfers''] \<and> pattern = ''POST /v1/transfers'' \<and> h = handleTransfer web_srv"

lemma mux_web:
  assumes "web_route path pattern h"
    and r_def: "r = (web_post key doc)\<lparr>hr_Context := web_ctx\<rparr>"
  shows "mux web_srv ''POST'' path (web_post key doc) (fresh (w, out)) = andThen (h r) (\<lambda>_. observeRequest pattern r) (w, web_base out)"
proof -
  have hd: "hr_Header (web_post key doc) HeaderRequestID = ''q''" "hr_Header (web_post key doc) HeaderCorrelationID = []"
    "(web_post key doc)\<lparr>hr_Method := ''POST'', hr_PathID := []\<rparr> = web_post key doc" "hr_Context (web_post key doc) = Background"
    "hr_Header (web_post key doc) HeaderFailpoint = []"
    by (simp_all add: web_post_def HeaderIdempotencyKey_def HeaderRequestID_def HeaderCorrelationID_def HeaderFailpoint_def)
  have base: "(fst (fresh (w, out)), (snd (fresh (w, out)))\<lparr>ans_headers := AList.update HeaderCorrelationID ''q''
      (AList.update HeaderRequestID ''q'' (ans_headers (snd (fresh (w, out))))), ans_code := []\<rparr>) = (w, web_base out)"
    by (simp add: fresh_def web_base_def HeaderRequestID_def HeaderCorrelationID_def)
  have "route web_srv pattern h True (web_post key doc) (fresh (w, out)) = andThen (h r) (\<lambda>_. observeRequest pattern r) (w, web_base out)"
    using route_plain[OF web_srv_fields(2) hd(5,1) _ hd(2), of pattern h True "fresh (w, out)"] base hd(4) by (simp add: web_ctx_def r_def)
  with assms show ?thesis by (auto simp: web_route_def mux_accounts mux_transfers hd(3))
qed

lemma serve_web:
  assumes "web_route path pattern h" and "h ((web_post key doc)\<lparr>hr_Context := web_ctx\<rparr>) (w, web_base out) = (Ret (), (w', out'))"
  shows "serve web_srv ''POST'' path (web_post key doc) (w, out) = (Ret (), (w', noted pattern out'))"
proof -
  have "hr_Method ((web_post key doc)\<lparr>hr_Context := web_ctx\<rparr>) = ''POST''" by (simp add: web_post_def)
  then show ?thesis using assms(2)
    by (simp add: serve_def Handler_def withRecovery_def mux_web[OF assms(1) refl] andThen_def observeRequest_run noted_def)
qed

lemma web_key: "key \<noteq> [] \<Longrightarrow> length key \<le> 255 \<Longrightarrow> idempotencyKey ((web_post key doc)\<lparr>hr_Context := c\<rparr>) = Inr key"
  by (simp add: idempotencyKey_def web_post_def)

lemma web_decode: "decodeStruct (lib_parseTime web_lib) flds doc = Inr vals \<Longrightarrow>
    decodeJSON web_srv flds ((web_post key doc)\<lparr>hr_Context := c\<rparr>) = Inr vals"
  by (simp add: decodeJSON_def web_post_def web_srv_fields)

lemma serve_open:
  assumes "redis_db out (cacheKey scopeCreateAccount key) = None" and "key \<noteq> []" "length key \<le> 255" "kd \<noteq> []"
    and "decodeStruct (lib_parseTime web_lib) createAccountFields (open_doc i kd od) =
      Inr [(''id'', JStr i), (''currency'', JStr ''USD''), (''kind'', JStr kd), (''allow_overdraft'', JBool od)]"
    and "CreateAccount web_env web_cfg (web_open key i kd od) (tickw w) = (Ret x, w2)" "\<not> res_Replayed x" "res_ResponseStatus x = 201"
  shows "serve web_srv ''POST'' [''v1'', ''accounts''] (web_post key (open_doc i kd od)) (w, out) =
    (Ret (), (tickw w2, noted ''POST /v1/accounts'' (stored scopeCreateAccount key ''16'' x (web_base out))))"
proof (rule serve_web)
  let ?r = "(web_post key (open_doc i kd od))\<lparr>hr_Context := web_ctx\<rparr>"
  have "handleCreateAccount web_srv ?r = mutate web_srv ?r scopeCreateAccount key (marshalCreateAccount \<lparr>car_ID = i,
      car_Currency = ''USD'', car_Kind = kd, car_AllowOverdraft = od, car_Metadata = None\<rparr>)
      (\<lambda>hash. CreateAccount web_env web_cfg ((web_open key i kd od)\<lparr>ca_RequestHash := hash\<rparr>))"
    using assms(2-4) by (simp add: handleCreateAccount_def web_key web_decode[OF assms(5)] orError_lift Let_def web_srv_fields web_open_def
        decodeCreateAccount_def str_field_def bool_field_def map_field_def)
  moreover have "mutate web_srv ?r scopeCreateAccount key (marshalCreateAccount \<lparr>car_ID = i,
      car_Currency = ''USD'', car_Kind = kd, car_AllowOverdraft = od, car_Metadata = None\<rparr>)
      (\<lambda>hash. CreateAccount web_env web_cfg ((web_open key i kd od)\<lparr>ca_RequestHash := hash\<rparr>)) (w, web_base out)
      = (Ret (), (tickw w2, stored scopeCreateAccount key ''16'' x (web_base out)))"
    using assms(6) by (intro web_mutate[OF hash_open]) (use assms in \<open>simp_all add: web_base_def web_open_def\<close>)
  ultimately show "handleCreateAccount web_srv ?r (w, web_base out) = (Ret (), (tickw w2, stored scopeCreateAccount key ''16'' x (web_base out)))"
    by simp
qed (simp add: web_route_def)

lemma fund_handler:
  "handleTransfer web_srv ((web_post ''k3'' fund_doc)\<lparr>hr_Context := c\<rparr>) = mutate web_srv ((web_post ''k3'' fund_doc)\<lparr>hr_Context := c\<rparr>)
    scopeTransfer ''k3'' (marshalTransferRequest \<lparr>tr_SourceAccountID = ''b'', tr_DestinationAccountID = ''u'', tr_Amount = 100,
      tr_Currency = ''USD'', tr_Description = [], tr_ExternalReference = []\<rparr>)
    (\<lambda>hash. Transfer web_env web_cfg c (web_fund\<lparr>tc_RequestHash := hash\<rparr>))"
  by (simp add: handleTransfer_def web_key web_decode[OF doc_fund] orError_lift Let_def web_srv_fields web_fund_def transferCommand_def
      decodeTransfer_def str_field_def int_field_def)

lemma serve_fund:
  assumes "redis_db out (cacheKey scopeTransfer ''k3'') = None"
    and "Transfer web_env web_cfg web_ctx web_fund (tickw w) = (Ret x, w2)" "\<not> res_Replayed x" "res_ResponseStatus x = 201"
  shows "serve web_srv ''POST'' [''v1'', ''transfers''] (web_post ''k3'' fund_doc) (w, out) =
    (Ret (), (tickw w2, noted ''POST /v1/transfers'' (stored scopeTransfer ''k3'' ''17'' x (web_base out))))"
proof (rule serve_web)
  let ?r = "(web_post ''k3'' fund_doc)\<lparr>hr_Context := web_ctx\<rparr>"
  let ?q = "\<lparr>tr_SourceAccountID = ''b'', tr_DestinationAccountID = ''u'', tr_Amount = 100, tr_Currency = ''USD'', tr_Description = [],
    tr_ExternalReference = []\<rparr>"
  note fund_handler[of web_ctx]
  moreover have "mutate web_srv ?r scopeTransfer ''k3'' (marshalTransferRequest ?q)
      (\<lambda>hash. Transfer web_env web_cfg web_ctx (web_fund\<lparr>tc_RequestHash := hash\<rparr>)) (w, web_base out) =
      (Ret (), (tickw w2, stored scopeTransfer ''k3'' ''17'' x (web_base out)))"
    by (intro web_mutate[OF hash_fund]) (use assms in \<open>simp_all add: web_base_def web_fund_def\<close>)
  ultimately show "handleTransfer web_srv ?r (w, web_base out) = (Ret (), (tickw w2, stored scopeTransfer ''k3'' ''17'' x (web_base out)))"
    by simp
qed (simp add: web_route_def)

text \<open>The states after the three requests, the publication, the intake and the delivery.\<close>

definition res_of :: "Result result \<times> world \<Rightarrow> Result" where
  "res_of c = (case fst c of Ret x \<Rightarrow> x | _ \<Rightarrow> \<lparr>res_Transaction = None, res_ResponseStatus = 0, res_ResponseBody = None, res_Replayed = False\<rparr>)"

definition O1 :: outside where "O1 = noted ''POST /v1/accounts'' (stored scopeCreateAccount ''k1'' ''16'' (res_of C1) (web_base web_out))"
definition O2 :: outside where "O2 = noted ''POST /v1/accounts'' (stored scopeCreateAccount ''k2'' ''16'' (res_of C2) (web_base O1))"
definition O3 :: outside where "O3 = noted ''POST /v1/transfers'' (stored scopeTransfer ''k3'' ''17'' (res_of C3) (web_base O2))"

lemma keys_apart: "cacheKey scopeCreateAccount ''k2'' \<noteq> cacheKey scopeCreateAccount ''k1''"
    "cacheKey scopeTransfer k \<noteq> cacheKey scopeCreateAccount k'"
  by (simp_all add: cacheKey_def scope_defs)

lemma run_results:
  "C1 = (Ret (res_of C1), snd C1)" "C2 = (Ret (res_of C2), snd C2)" "C3 = (Ret (res_of C3), snd C3)"
  by (simp_all add: C1_eq C2_eq C3_eq res_of_def)

lemma run_answers:
  "\<not> res_Replayed (res_of C1)" "\<not> res_Replayed (res_of C2)" "\<not> res_Replayed (res_of C3)"
  "res_ResponseStatus (res_of C1) = 201" "res_ResponseStatus (res_of C2) = 201" "res_ResponseStatus (res_of C3) = 201"
  by (simp_all add: C1_eq C2_eq C3_eq res_of_def)

lemmas outs = noted_def O1_def O2_def stored_def web_base_def web_out_def keys_apart

lemma served1: "serve web_srv ''POST'' [''v1'', ''accounts''] (web_post ''k1'' (open_doc ''b'' ''system'' True)) (W0, web_out) =
    (Ret (), (tickw (snd C1), O1))"
  unfolding O1_def
proof (rule serve_open[OF _ _ _ _ doc_open(1) _ run_answers(1,4)])
  show "CreateAccount web_env web_cfg (web_open ''k1'' ''b'' ''system'' True) (tickw W0) = (Ret (res_of C1), snd C1)"
    using run_results(1) unfolding C1_def .
qed (simp_all add: web_out_def)

lemma served2: "serve web_srv ''POST'' [''v1'', ''accounts''] (web_post ''k2'' (open_doc ''u'' ''user'' False)) (tickw (snd C1), O1) =
    (Ret (), (tickw (snd C2), O2))"
  unfolding O2_def
proof (rule serve_open[OF _ _ _ _ doc_open(2) _ run_answers(2,5)])
  show "CreateAccount web_env web_cfg (web_open ''k2'' ''u'' ''user'' False) (tickw (tickw (snd C1))) = (Ret (res_of C2), snd C2)"
    using run_results(2) unfolding C2_def .
qed (simp_all add: outs)

lemma served3: "serve web_srv ''POST'' [''v1'', ''transfers''] (web_post ''k3'' fund_doc) (tickw (snd C2), O2) =
    (Ret (), (tickw (snd C3), O3))"
  unfolding O3_def
proof (rule serve_fund[OF _ _ run_answers(3,6)])
  show "Transfer web_env web_cfg web_ctx web_fund (tickw (tickw (snd C2))) = (Ret (res_of C3), snd C3)"
    using run_results(3) unfolding C3_def .
qed (simp_all add: outs)

definition W7 :: world where
  "W7 = snd (HandleEvent web_env web_cfg Background (hd (snd (snd K4))) (fst (snd K4)))"

lemma W7_eq: "W7 =
    \<lparr>db = \<lparr>accounts = [\<lparr>a_id = ''b'', a_currency = ''USD'', a_kind = ''system'',
    a_allow_overdraft = True, a_metadata = JObj [], a_created_at = 1\<rparr>, \<lparr>a_id = ''u'', a_currency =
    ''USD'', a_kind = ''user'', a_allow_overdraft = False, a_metadata = JObj [], a_created_at = 10\<rparr>],
    balances = [\<lparr>b_account_id = ''b'', b_amount = - 100, b_allow_overdraft = True, b_version = 1,
    b_updated_at = 20\<rparr>, \<lparr>b_account_id = ''u'', b_amount = 100, b_allow_overdraft = False,
    b_version = 1, b_updated_at = 20\<rparr>], ledger_transactions = [\<lparr>t_id = '';'', t_kind =
    ''funding'', t_currency = ''USD'', t_description = [], t_external_reference = None, t_reverses = None,
    t_created_at = 20\<rparr>], ledger_entries = [\<lparr>e_id = ''B'', e_transaction_id = '';'', e_account_id =
    ''b'', e_amount = - 100, e_currency = ''USD'', e_seq = 0, e_created_at = 20\<rparr>, \<lparr>e_id = ''C'',
    e_transaction_id = '';'', e_account_id = ''u'', e_amount = 100, e_currency = ''USD'', e_seq = 1,
    e_created_at = 20\<rparr>], reversals = [], idempotency_records = [\<lparr>i_scope = ''POST /v1/accounts'',
    i_key = ''k1'', i_request_hash = ''16'', i_state = ''completed'', i_response_status = Some 201,
    i_response_body = Some (JObj [(''id'', JStr ''b''), (''currency'', JStr ''USD''), (''kind'', JStr
    ''system''), (''allow_overdraft'', JBool True), (''metadata'', JObj []), (''created_at'', JTime 1)]),
    i_transaction_id = None, i_created_at = 1, i_updated_at = 1\<rparr>, \<lparr>i_scope =
    ''POST /v1/accounts'', i_key = ''k2'', i_request_hash = ''16'', i_state = ''completed'', i_response_status =
    Some 201, i_response_body = Some (JObj [(''id'', JStr ''u''), (''currency'', JStr ''USD''), (''kind'', JStr
    ''user''), (''allow_overdraft'', JBool False), (''metadata'', JObj []), (''created_at'', JTime 10)]),
    i_transaction_id = None, i_created_at = 10, i_updated_at = 10\<rparr>, \<lparr>i_scope =
    ''POST /v1/transfers'', i_key = ''k3'', i_request_hash = ''17'', i_state = ''completed'', i_response_status
    = Some 201, i_response_body = Some (JObj [(''id'', JStr '';''), (''kind'', JStr ''funding''), (''currency'',
    JStr ''USD''), (''description'', JStr []), (''created_at'', JTime 20), (''entries'', JArr [JObj [(''id'',
    JStr ''B''), (''transaction_id'', JStr '';''), (''account_id'', JStr ''b''), (''amount'', JNum (- 100)),
    (''currency'', JStr ''USD''), (''seq'', JNum 0), (''created_at'', JTime 20)], JObj [(''id'', JStr ''C''),
    (''transaction_id'', JStr '';''), (''account_id'', JStr ''u''), (''amount'', JNum 100), (''currency'', JStr
    ''USD''), (''seq'', JNum 1), (''created_at'', JTime 20)]])]), i_transaction_id = Some '';'', i_created_at =
    20, i_updated_at = 20\<rparr>], outbox_events = [\<lparr>o_id = ''I'', o_topic = ''payments.created'',
    o_event_type = ''payment.created'', o_aggregate_id = '';'', o_partition_key = '';'', o_payload = JObj
    [(''event_id'', JStr ''I''), (''event_type'', JStr ''payment.created''), (''schema_version'', JNum 1),
    (''transaction_id'', JStr '';''), (''occurred_at'', JTime 25), (''correlation_id'', JStr ''q''), (''data'',
    JObj [(''transaction_id'', JStr '';''), (''kind'', JStr ''funding''), (''currency'', JStr ''USD''),
    (''amount'', JNum 100), (''source_account_id'', JStr ''b''), (''destination_account_id'', JStr ''u''),
    (''created_at'', JTime 25), (''entries'', JArr [JObj [(''entry_id'', JStr ''B''), (''account_id'', JStr
    ''b''), (''amount'', JNum (- 100)), (''currency'', JStr ''USD''), (''seq'', JNum 0)], JObj [(''entry_id'',
    JStr ''C''), (''account_id'', JStr ''u''), (''amount'', JNum 100), (''currency'', JStr ''USD''), (''seq'',
    JNum 1)]])])], o_headers = [(''event_type'', ''payment.created''), (''correlation_id'', ''q''),
    (''schema_version'', ''1'')], o_status = ''published'', o_attempts = 1, o_last_error = None, o_claimed_by =
    None, o_claimed_at = None, o_next_attempt_at = 20, o_published_at = Some 44, o_created_at = 20\<rparr>],
    webhook_deliveries = [\<lparr>wh_id = ''U'', wh_event_id = ''I'', wh_endpoint = ''http://hook'',
    wh_event_type = ''payment.created'', wh_transaction_id = '';'', wh_payload = JObj [(''event_id'', JStr
    ''I''), (''event_type'', JStr ''payment.created''), (''schema_version'', JNum 1), (''transaction_id'', JStr
    '';''), (''occurred_at'', JTime 25), (''correlation_id'', JStr ''q''), (''data'', JObj [(''transaction_id'',
    JStr '';''), (''kind'', JStr ''funding''), (''currency'', JStr ''USD''), (''amount'', JNum 100),
    (''source_account_id'', JStr ''b''), (''destination_account_id'', JStr ''u''), (''created_at'', JTime 25),
    (''entries'', JArr [JObj [(''entry_id'', JStr ''B''), (''account_id'', JStr ''b''), (''amount'', JNum (-
    100)), (''currency'', JStr ''USD''), (''seq'', JNum 0)], JObj [(''entry_id'', JStr ''C''), (''account_id'',
    JStr ''u''), (''amount'', JNum 100), (''currency'', JStr ''USD''), (''seq'', JNum 1)]])])], wh_status =
    ''pending'', wh_attempts = 0, wh_last_error = None, wh_last_status_code = None, wh_next_attempt_at = 46,
    wh_delivered_at = None, wh_created_at = 46, wh_updated_at = 46\<rparr>]\<rparr>, tick = 47, tx_now = 46,
    row_locks = [], adv_locks = [], fps = None\<rparr>"
  unfolding W7_def K4_eq fst_conv snd_conv by code_simp

definition P8 :: "(int \<times> goerr option) result \<times> world \<times> Post list" where
  "P8 = DeliverOnce web_env web_cfg (\<lambda>_ _. []) (\<lambda>_. Reply 200) Background (W7, [])"

definition Y8 :: system where
  "Y8 = \<lparr>sy_db = db (fst (snd P8)), sy_redis = redis_db O3, sy_log = snd (snd K4), sy_posts = snd (snd P8)\<rparr>"

lemma Y8_delivered: "map wh_status (webhook_deliveries (sy_db Y8)) = [''delivered''] \<and> length (sy_posts Y8) = 1 \<and>
    map o_status (outbox_events (sy_db Y8)) = [''published'']"
  unfolding Y8_def system.simps P8_def W7_eq by code_simp

lemma web_uuids: "uuid_ok web_env" "uuid_in web_env = uuid_in demo_env"
  using demo_uuid by (simp_all add: web_env_def uuid_ok_def)

definition Y3 :: system where
  "Y3 = \<lparr>sy_db = db (snd C3), sy_redis = redis_db O3, sy_log = [], sy_posts = []\<rparr>"

lemma reach_Y3: "system_reachable (uuid_in demo_env) Y3"
proof -
  let ?u = "uuid_in demo_env"
  let ?y = "\<lambda>w out. \<lparr>sy_db = db w, sy_redis = redis_db out, sy_log = kafka_log out, sy_posts = []\<rparr>"
  have srv: "uuid_ok (s_db web_srv)" "uuid_in (s_db web_srv) = ?u" using web_uuids by (simp_all add: web_srv_fields)
  have req: "system_reachable ?u (?y w' out')"
    if "system_reachable ?u (?y w out)" "serve web_srv m path r (w, out) = (x, (w', out'))" for w out m path r x w' out'
    using system_reachable.step[OF that(1) system_step.request[OF srv that(2)]] by simp
  have "system_reachable ?u (?y W0 web_out)" using system_reachable.start by (simp add: W0_def web_out_def)
  from req[OF req[OF req[OF this served1] served2] served3] have 3: "system_reachable ?u (?y (tickw (snd C3)) O3)" .
  have "kafka_log O3 = []" by (simp add: O3_def outs)
  with 3 show ?thesis by (simp add: Y3_def)
qed

lemma reach_Y8: "system_reachable (uuid_in demo_env) Y8"
proof -
  let ?u = "uuid_in demo_env"
  obtain n w l where pub: "K4 = (n, (w, l))" by (metis prod.collapse)
  let ?y4 = "\<lparr>sy_db = db w, sy_redis = redis_db O3, sy_log = l, sy_posts = []\<rparr>"
  from system_reachable.step[OF reach_Y3 system_step.publish[OF web_uuids(2), of web_cfg "\<lambda>_. Acked" Background "\<lambda>_. False"
      "tickw (snd C3)" _ n w l]] pub
  have 4: "system_reachable ?u ?y4" by (simp add: K4_def Y3_def)
  have "snd (snd K4) \<noteq> []" unfolding K4_eq by simp
  then have "l \<noteq> []" by (simp add: pub)
  then have mem: "hd l \<in> set (sy_log ?y4)" by simp
  obtain u where intake: "HandleEvent web_env web_cfg Background (hd l) w = (u, W7)" using pub by (metis W7_def prod.collapse fst_conv snd_conv)
  from system_reachable.step[OF 4 system_step.intake[OF web_uuids mem intake]]
  have 7: "system_reachable ?u (?y4\<lparr>sy_db := db W7\<rparr>)" by simp
  obtain c w8 ps where dlv: "P8 = (c, (w8, ps))" by (metis prod.collapse)
  from system_reachable.step[OF 7 system_step.delivery[OF web_uuids(2), of web_cfg "\<lambda>_ _. []" "\<lambda>_. Reply 200" Background W7 _ c w8 ps]]
  show ?thesis using dlv by (simp add: P8_def Y8_def pub)
qed

end
