(* ===== verification/Api_Properties.thy ===== *)
theory Api_Properties
  imports Api_Answers Api_Demo
begin

text \<open>Properties of the HTTP interface: the response cache, the rate limiter, the answers.\<close>

subsection \<open>The cache answers what the database recorded\<close>

definition built :: "Cache option \<Rightarrow> bool" where
  "built cache \<longleftrightarrow> cache = None \<or> (\<exists>client ttl timeout. cache = NewCache client ttl timeout)"

lemma Get_value:
  assumes "Get cache scope key s = (Ret (Some c), s')"
  shows "\<exists>v. redis_db (snd s) (cacheKey scope key) = Some v \<and> unmarshalCached (redis_doc v) = Some c"
proof -
  from assms obtain rc where run: "andThen (redisGet rc (cacheKey scope key)) (\<lambda>r. case r of Inl e \<Rightarrow> ret None | Inr None \<Rightarrow> ret None
      | Inr (Some raw) \<Rightarrow> ret (unmarshalCached raw)) s = (Ret (Some c), s')"
    by (auto simp: Get_def split: option.splits if_splits)
  then obtain x s1 where g: "redisGet rc (cacheKey scope key) s = (Ret x, s1)" and x: "(case x of Inl e \<Rightarrow> ret None
      | Inr None \<Rightarrow> ret None | Inr (Some raw) \<Rightarrow> ret (unmarshalCached raw)) s1 = (Ret (Some c) :: CachedResponse option result, s')"
    unfolding andThen_Ret by blast
  from x obtain j where "x = Inr (Some j)" "unmarshalCached j = Some c" by (auto simp: ret_def split: sum.split_asm option.split_asm)
  with g redisGet_value show ?thesis by blast
qed

lemma Get_frame:
  assumes "Get cache scope key s = (r, s')" and "built cache"
  shows "\<exists>x m w'. r = Ret x \<and> s' = (w', (snd s)\<lparr>redis_db := m\<rparr>) \<and> db w' = db (fst s) \<and> fps w' = fps (fst s)"
proof -
  have "s = (fst s, (snd s)\<lparr>redis_db := redis_db (snd s)\<rparr>)" by simp
  then have same: "\<exists>x m w'. Ret y = Ret x \<and> s = (w', (snd s)\<lparr>redis_db := m\<rparr>) \<and> db w' = db (fst s) \<and> fps w' = fps (fst s)"
    for y :: "CachedResponse option" by blast
  have "\<exists>x m w'. r = Ret x \<and> s' = (w', (snd s)\<lparr>redis_db := m\<rparr>) \<and> db w' = db (fst s) \<and> fps w' = fps (fst s)"
    if "andThen (redisGet rc k) (\<lambda>r. case r of Inl e \<Rightarrow> ret None | Inr None \<Rightarrow> ret None
      | Inr (Some raw) \<Rightarrow> ret (unmarshalCached raw)) s = (r, s')" for rc k
    using that by (auto simp: andThen_def redisGet_def redisDo_def Let_def ret_def split: ack.splits option.splits)
  with same assms show ?thesis
    by (auto simp: Get_def built_def NewCache_def split: option.splits if_splits)
qed

lemma cached_answer:
  assumes "coherent d m" and "records_ok d" and "scope \<in> set scopes"
    and "m (cacheKey scope key) = Some v" and "unmarshalCached (redis_doc v) = Some c"
  shows "\<exists>row. idem_of d scope key = Some row \<and> i_state row = StateCompleted \<and> cr_RequestHash c = i_request_hash row \<and>
    i_response_status row = Some (cr_Status c) \<and> i_response_body row = cr_Body c"
proof -
  from assms(1,3,4) obtain row where row: "idem_of d scope key = Some row" "cached_row row v"
    unfolding coherent_def backed_def by blast
  from row(2) obtain t where v: "v = RDoc (marshalCached \<lparr>cr_Status = (case i_response_status row of None \<Rightarrow> 0 | Some st \<Rightarrow> st),
      cr_Body = i_response_body row, cr_RequestHash = i_request_hash row, cr_TransactionID = t\<rparr>)"
    and fin: "i_state row = StateCompleted" by (auto simp: cached_row_def)
  have "answer_ok row" using assms(2) idem_of_id[OF row(1)] by (auto simp: records_ok_def list_all_iff)
  with fin obtain st where st: "i_response_status row = Some st" "100 \<le> st" "st \<le> 999" "i_response_body row \<noteq> None"
    by (auto simp: answer_ok_def)
  have "unmarshalCached (redis_doc v) = Some \<lparr>cr_Status = st, cr_Body = i_response_body row, cr_RequestHash = i_request_hash row,
      cr_TransactionID = t\<rparr>"
    using st by (simp add: v cached_round_trip in64_def)
  with assms(5) st(1) fin row(1) show ?thesis by auto
qed

text \<open>
  C36. Coherence of the response cache: in every reachable state of the system, whatever failed
  and whatever Redis lost, an answer found in the cache for a scope and a key is the answer
  PostgreSQL has recorded for them: the record is completed, with the same request hash, status
  and body. The cache can forget but never invents or outlives an answer.
\<close>

theorem cache_coherent:
  assumes "system_reachable uin y" and "scope \<in> set scopes" and "redis_db out = sy_redis y"
    and "Get cache scope key (w, out) = (Ret (Some c), s')"
  shows "\<exists>row. idem_of (sy_db y) scope key = Some row \<and> i_state row = StateCompleted \<and> cr_RequestHash c = i_request_hash row \<and>
    i_response_status row = Some (cr_Status c) \<and> i_response_body row = cr_Body c"
proof -
  from Get_value[OF assms(4)] assms(3) obtain v where
    v: "sy_redis y (cacheKey scope key) = Some v" "unmarshalCached (redis_doc v) = Some c" by auto
  have "coherent (sy_db y) (sy_redis y)" "records_ok (sy_db y)"
    using system_reachable_inv[OF assms(1)] by (simp_all add: system_inv_def)
  from cached_answer[OF this assms(2) v] show ?thesis .
qed

lemma Get_O3: "\<exists>c s'. Get (s_cache web_srv) scopeTransfer ''k3'' (tickw (snd C3), O3) = (Ret (Some c), s') \<and> cr_Status c = 201"
proof -
  let ?c = "\<lparr>cr_Status = res_ResponseStatus (res_of C3), cr_Body = res_ResponseBody (res_of C3), cr_RequestHash = ''17'',
    cr_TransactionID = (case res_Transaction (res_of C3) of None \<Rightarrow> [] | Some t \<Rightarrow> tx_ID t)\<rparr>"
  have "unmarshalCached (marshalCached ?c) = Some ?c"
    by (rule cached_round_trip) (simp_all add: C3_eq res_of_def in64_def)
  moreover have "redis_db O3 (cacheKey scopeTransfer ''k3'') = Some (RDoc (marshalCached ?c))" by (simp add: O3_def stored_def)
  ultimately show ?thesis
    by (simp add: web_srv_fields Get_def NewCache_def redisGet_def redisDo_def Let_def andThen_def)
      (simp add: web_redis_def ret_def run_answers)
qed

theorem cache_coherent_witness:
  "\<exists>c s' row. Get (s_cache web_srv) scopeTransfer ''k3'' (tickw (snd C3), O3) = (Ret (Some c), s') \<and> cr_Status c = 201 \<and>
    idem_of (sy_db Y3) scopeTransfer ''k3'' = Some row \<and> i_response_body row = cr_Body c"
proof -
  obtain c s' where g: "Get (s_cache web_srv) scopeTransfer ''k3'' (tickw (snd C3), O3) = (Ret (Some c), s')" "cr_Status c = 201"
    using Get_O3 by blast
  have "scopeTransfer \<in> set scopes" "redis_db O3 = sy_redis Y3" by (simp_all add: scopes_def Y3_def)
  from cache_coherent[OF reach_Y3 this g(1)] g show ?thesis by blast
qed

subsection \<open>The cache is transparent\<close>

text \<open>The answer to a request whose key was used: the recorded one, or a conflict.\<close>

definition replay_answer :: "request \<Rightarrow> string \<Rightarrow> string \<Rightarrow> idem_row \<Rightarrow> outside \<Rightarrow> outside" where
  "replay_answer r key h row out =
     (if i_request_hash row = h then
        out\<lparr>ans_headers := AList.update ''Content-Type'' ''application/json''
              (AList.update HeaderIdempotentHit ''true'' (ans_headers out)),
            ans_status := i_response_status row,
            ans_body := ans_body out @ (case i_response_body row of None \<Rightarrow> [] | Some j \<Rightarrow> [j])\<rparr>
      else
        out\<lparr>ans_headers := AList.update ''Content-Type'' ''application/json'' (ans_headers out),
            ans_status := Some 409,
            ans_body := ans_body out @ [errorResponse CodeIdempotencyConflict (err_message (Conflict key))
              (err_details (Conflict key)) (RequestID (hr_Context r))],
            ans_code := code_string CodeIdempotencyConflict\<rparr>)"

lemma writeError_Conflict:
  assumes "ans_status (snd s) = None" and "i_request_hash row \<noteq> h"
  shows "writeError r (Conflict key) s = (Ret (), (fst s, replay_answer r key h row (snd s)))"
  using assms
  by (simp add: writeError_def Let_def Conflict_def From_def apperr_defs recordCode_def writeJSON_def setHeader_def writeHeader_def writeDoc_def
      andThen_def replay_answer_def)

lemma write_recorded:
  assumes "ans_status (snd s) = None" and "i_request_hash row = h"
    and "i_response_status row = Some st" "100 \<le> st" "st \<le> 999"
  shows "andThen (setHeader HeaderIdempotentHit ''true'') (\<lambda>_. writeRaw st (i_response_body row)) s
    = (Ret (), (fst s, replay_answer r key h row (snd s)))"
  using assms
  by (simp add: writeRaw_def setHeader_def writeHeader_def writeDoc_def andThen_def ret_def replay_answer_def split: option.splits)

lemma Put_frame:
  assumes "built cache"
  shows "\<exists>m w'. Put cache scope key c s = (Ret (), (w', (snd s)\<lparr>redis_db := m\<rparr>)) \<and> db w' = db (fst s)"
proof -
  have s: "s = (fst s, (snd s)\<lparr>redis_db := redis_db (snd s)\<rparr>)" by simp
  have "\<exists>m w'. andThen (redisSet rc k j) (\<lambda>_. ret ()) s = (Ret (), (w', (snd s)\<lparr>redis_db := m\<rparr>)) \<and> db w' = db (fst s)" for rc k j
    by (auto simp: andThen_def redisSet_def redisDo_def Let_def ret_def split: ack.splits)
  with s assms show ?thesis by (auto simp: Put_def built_def NewCache_def split: option.splits) (metis s)+
qed

lemma replay_answer_redis [simp]:
  "replay_answer r key h row (out\<lparr>redis_db := m\<rparr>) = (replay_answer r key h row out)\<lparr>redis_db := m\<rparr>"
  by (simp add: replay_answer_def)

lemma finish_replayed:
  assumes "built (s_cache srv)" and "recorded (db (fst s)) scope key h x" and "res_Replayed x"
    and row: "idem_of (db (fst s)) scope key = Some row" and "answer_ok row" and "ans_status (snd s) = None"
  shows "\<exists>m w'. finishIdempotent srv scope key h x s = (Ret (), (w', (replay_answer r key h row (snd s))\<lparr>redis_db := m\<rparr>)) \<and>
    db w' = db (fst s)"
proof -
  obtain c where f: "finishIdempotent srv scope key h x = andThen (Put (s_cache srv) scope key c) (\<lambda>_.
      andThen (setHeader HeaderIdempotentHit ''true'') (\<lambda>_. writeRaw (res_ResponseStatus x) (res_ResponseBody x)))"
    by (simp add: finishIdempotent_def Let_def assms(3))
  from Put_frame[OF assms(1)] obtain m w' where p: "Put (s_cache srv) scope key c s = (Ret (), (w', (snd s)\<lparr>redis_db := m\<rparr>))"
    "db w' = db (fst s)" by blast
  have rec: "i_request_hash row = h" "i_response_body row = res_ResponseBody x" "i_state row = StateCompleted"
    "(case i_response_status row of None \<Rightarrow> 0 | Some st \<Rightarrow> st) = res_ResponseStatus x"
    using assms(2) row by (auto simp: recorded_def)
  with assms(5) obtain st where st: "i_response_status row = Some st" "100 \<le> st" "st \<le> 999" "res_ResponseStatus x = st"
    by (auto simp: answer_ok_def)
  from write_recorded[of "(w', (snd s)\<lparr>redis_db := m\<rparr>)" row h st r key] assms(6) rec(1) st
  have "andThen (setHeader HeaderIdempotentHit ''true'') (\<lambda>_. writeRaw st (i_response_body row)) (w', (snd s)\<lparr>redis_db := m\<rparr>)
      = (Ret (), (w', (replay_answer r key h row (snd s))\<lparr>redis_db := m\<rparr>))" by simp
  with p st(4) rec(2) show ?thesis unfolding f by (auto simp: andThen_def)
qed

lemma cached_hit:
  assumes ok: "coherent (db w) (redis_db out)" "records_ok (db w)" and "scope \<in> set scopes"
    and g: "Get (s_cache srv) scope key (w, out) = (Ret (Some c), (w1, out\<lparr>redis_db := m\<rparr>))"
    and row: "idem_of (db w) scope key = Some row" and fresh: "ans_status out = None"
  shows "andThen (replayFromCache srv r scope key h) (\<lambda>replayed. if replayed then ret () else rest) (w, out) =
    (Ret (), (w1, (replay_answer r key h row out)\<lparr>redis_db := m\<rparr>))"
proof -
  from Get_value[OF g] obtain u where u: "redis_db out (cacheKey scope key) = Some u" "unmarshalCached (redis_doc u) = Some c" by auto
  from cached_answer[OF ok assms(3) u] row have c: "cr_RequestHash c = i_request_hash row" "i_response_status row = Some (cr_Status c)"
    "cr_Body c = i_response_body row" "i_state row = StateCompleted" by auto
  have "answer_ok row" using ok(2) idem_of_id[OF row] by (auto simp: records_ok_def list_all_iff)
  with c have st: "100 \<le> cr_Status c" "cr_Status c \<le> 999" by (auto simp: answer_ok_def)
  let ?s1 = "(w1, out\<lparr>redis_db := m\<rparr>)"
  show ?thesis
  proof (cases "i_request_hash row = h")
    case True
    from write_recorded[of ?s1 row h "cr_Status c" r key, OF _ True c(2) st] fresh
    show ?thesis using c True by (simp add: replayFromCache_def andThen_def g ret_def setHeader_def)
  next
    case False
    with writeError_Conflict[of ?s1 row h r key] fresh show ?thesis
      by (simp add: replayFromCache_def andThen_def g c ret_def)
  qed
qed

lemma transfer_from_db:
  assumes q: "quiet (s_db srv) (s_cfg srv) w1" and valid: "ValidateTransfer cmd = None"
    and inv: "ledger_inv (db w1)" "canonical (uuid_in (s_db srv)) (db w1)" "built (s_cache srv)" "answer_ok row"
    and row: "idem_of (db w1) (tc_IdempotencyScope cmd) (tc_IdempotencyKey cmd) = Some row" and fresh: "ans_status out1 = None"
  shows "\<exists>w' m. orError r (onDB (Transfer (s_db srv) (s_cfg srv) ctx cmd))
      (finishIdempotent srv (tc_IdempotencyScope cmd) (tc_IdempotencyKey cmd) (tc_RequestHash cmd)) (w1, out1) =
    (Ret (), (w', (replay_answer r (tc_IdempotencyKey cmd) (tc_RequestHash cmd) row out1)\<lparr>redis_db := m\<rparr>)) \<and> db w' = db w1"
proof (cases "i_request_hash row = tc_RequestHash cmd")
  case True
  with Transfer_taken[OF q valid inv(1,2) row, of ctx] obtain x w2 where t: "Transfer (s_db srv) (s_cfg srv) ctx cmd w1 = (Ret x, w2)"
    "db w2 = db w1" "res_Replayed x" "recorded (db w1) (tc_IdempotencyScope cmd) (tc_IdempotencyKey cmd) (tc_RequestHash cmd) x" by blast
  from finish_replayed[OF inv(3), of "(w2, out1)" "tc_IdempotencyScope cmd" "tc_IdempotencyKey cmd" "tc_RequestHash cmd" x row r]
    t row fresh inv(4) show ?thesis by (auto simp: orError_def attempt_def andThen_def onDB_def)
next
  case False
  with Transfer_taken[OF q valid inv(1,2) row, of ctx] obtain w2 where t: "db w2 = db w1"
    "Transfer (s_db srv) (s_cfg srv) ctx cmd w1 = (Err (Conflict (tc_IdempotencyKey cmd)), w2)" by blast
  from writeError_Conflict[of "(w2, out1)" row "tc_RequestHash cmd" r "tc_IdempotencyKey cmd"] False fresh t
  have "orError r (onDB (Transfer (s_db srv) (s_cfg srv) ctx cmd))
      (finishIdempotent srv (tc_IdempotencyScope cmd) (tc_IdempotencyKey cmd) (tc_RequestHash cmd)) (w1, out1) =
    (Ret (), (w2, (replay_answer r (tc_IdempotencyKey cmd) (tc_RequestHash cmd) row out1)\<lparr>redis_db :=
      redis_db (replay_answer r (tc_IdempotencyKey cmd) (tc_RequestHash cmd) row out1)\<rparr>))"
    by (simp add: orError_def attempt_def andThen_def onDB_def)
  with t(1) show ?thesis by blast
qed

text \<open>
  C37. Transparency of the cache: a healthy request for a transfer whose key was used is answered
  the same whether the response comes from Redis or from PostgreSQL, with any cache or none and
  whatever the cache has kept: the recorded status and body with the replay header when the
  payload is the same, a 409 otherwise. The database does not change.
\<close>

theorem cache_transparent:
  assumes "quiet (s_db srv) (s_cfg srv) w" and reach: "ledger_reachable (uuid_in (s_db srv)) (db w)"
    and co: "coherent (db w) (redis_db out)" and "built cache" and fresh: "ans_status out = None"
    and k: "idempotencyKey r = Inr key" and v: "decodeJSON srv transferFields r = Inr vals"
    and h: "hashed srv scopeTransfer (marshalTransferRequest (decodeTransfer vals)) = Inr h"
    and valid: "ValidateTransfer (transferCommand (decodeTransfer vals) key h) = None"
    and row: "idem_of (db w) scopeTransfer key = Some row"
  shows "\<exists>w' m. handleTransfer (srv\<lparr>s_cache := cache\<rparr>) r (w, out) =
    (Ret (), (w', (replay_answer r key h row out)\<lparr>redis_db := m\<rparr>)) \<and> db w' = db w"
proof -
  let ?srv = "srv\<lparr>s_cache := cache\<rparr>" and ?cmd = "transferCommand (decodeTransfer vals) key h"
  have "records_ok (db w)" using reachable_inv[OF reach]
    by (auto simp: ledger_inv_def idem_ok_def records_ok_def answer_ok_def idem_done_def list_all_iff)
  note ok = co this
  have ar: "answer_ok row" using ok(2) idem_of_id[OF row] by (auto simp: records_ok_def list_all_iff)
  obtain gr s1 where g: "Get cache scopeTransfer key (w, out) = (gr, s1)" by (meson surj_pair)
  from Get_frame[OF g \<open>built cache\<close>] obtain x m w1 where x: "gr = Ret x" "s1 = (w1, out\<lparr>redis_db := m\<rparr>)" "db w1 = db w"
    "fps w1 = fps w" by auto
  have v': "decodeJSON ?srv transferFields r = Inr vals" using v by (simp add: decodeJSON_def cong: body.case_cong sum.case_cong)
  have h': "hashed ?srv scopeTransfer (marshalTransferRequest (decodeTransfer vals)) = Inr h" using h by (simp add: hashed_def)
  have run: "handleTransfer ?srv r (w, out) = andThen (replayFromCache ?srv r scopeTransfer key h) (\<lambda>replayed.
      if replayed then ret () else orError r (onDB (Transfer (s_db srv) (s_cfg srv) (hr_Context r) ?cmd))
        (finishIdempotent ?srv scopeTransfer key h)) (w, out)"
    by (simp add: handleTransfer_def mutate_def k v' h' orError_lift Let_def)
  show ?thesis
  proof (cases x)
    case (Some c)
    have "scopeTransfer \<in> set scopes" by (simp add: scopes_def)
    from cached_hit[OF ok this, of ?srv key c w1 m row r h] Some g x row fresh run show ?thesis by auto
  next
    case None
    let ?o1 = "out\<lparr>redis_db := m\<rparr>"
    have q: "quiet (s_db srv) (s_cfg srv) w1" using assms(1) x(4) by (simp add: quiet_def)
    have "\<exists>w' n. orError r (onDB (Transfer (s_db srv) (s_cfg srv) (hr_Context r) ?cmd)) (finishIdempotent ?srv scopeTransfer key h) (w1, ?o1)
        = (Ret (), (w', (replay_answer r key h row out)\<lparr>redis_db := n\<rparr>)) \<and> db w' = db w"
      using transfer_from_db[of ?srv w1 ?cmd row ?o1 r "hr_Context r"] q valid reachable_inv[OF reach] ar row fresh x(3) \<open>built cache\<close>
      by (simp add: transferCommand_def)
    then show ?thesis unfolding run using g x None by (simp add: andThen_def replayFromCache_def ret_def)
  qed
qed

lemma reach_C3: "ledger_reachable (uuid_in web_env) (db (snd C3))"
proof -
  have "in64 (tc_Amount web_fund)" by (simp add: web_fund_def in64_def)
  note st = ledger_step.create[OF web_uuids(1) refl] ledger_step.transfer[OF web_uuids(1) refl this]
  have "ledger_reachable (uuid_in web_env) (db (tickw W0))" by (simp add: W0_def ledger_reachable.start)
  from ledger_reachable.step[OF this st(1)[of web_cfg _ _ "fst C1" "snd C1"]]
  have "ledger_reachable (uuid_in web_env) (db (tickw (tickw (snd C1))))" by (simp add: C1_def)
  from ledger_reachable.step[OF this st(1)[of web_cfg _ _ "fst C2" "snd C2"]]
  have "ledger_reachable (uuid_in web_env) (db (tickw (tickw (snd C2))))" by (simp add: C2_def)
  from ledger_reachable.step[OF this st(2)[of web_cfg _ _ "fst C3" "snd C3"]] show ?thesis by (simp add: C3_def)
qed

theorem cache_transparent_witness:
  "\<exists>w1 w2 o1 o2. handleTransfer (web_srv\<lparr>s_cache := NewCache (Some web_redis) 1 1\<rparr>) (web_post ''k3'' fund_doc) (snd C3, web_base O3) = (Ret (), (w1, o1)) \<and>
    handleTransfer (web_srv\<lparr>s_cache := None\<rparr>) (web_post ''k3'' fund_doc) (snd C3, web_base O3) = (Ret (), (w2, o2)) \<and>
    ans_status o1 = Some 201 \<and> ans_status o2 = Some 201 \<and> ans_body o1 = ans_body o2 \<and> ans_headers o1 = ans_headers o2 \<and> db w1 = db w2"
proof -
  let ?r = "web_post ''k3'' fund_doc" and ?o = "web_base O3"
  have q: "quiet (s_db web_srv) (s_cfg web_srv) (snd C3)"
    using demo_healthy by (simp add: quiet_def web_srv_fields web_env_def web_cfg_def healthy_def demo_cfg_def Config.defs C3_eq Enabled_def)
  have re: "ledger_reachable (uuid_in (s_db web_srv)) (db (snd C3))" using reach_C3 by (simp add: web_srv_fields)
  have co: "coherent (db (snd C3)) (redis_db ?o)"
    using system_reachable_inv[OF reach_Y3] by (simp add: system_inv_def Y3_def web_base_def)
  have b: "built (NewCache (Some web_redis) 1 1)" "built None" by (auto simp: built_def)
  have f: "ans_status ?o = None" by (simp add: web_base_def)
  have k: "idempotencyKey ?r = Inr ''k3''" by (simp add: idempotencyKey_def web_post_def)
  let ?v = "[(''source_account_id'', JStr ''b''), (''destination_account_id'', JStr ''u''), (''amount'', JNum 100), (''currency'', JStr ''USD'')]"
  have v: "decodeJSON web_srv transferFields ?r = Inr ?v" using doc_fund by (simp add: decodeJSON_def web_post_def web_srv_fields)
  have dt: "decodeTransfer ?v = \<lparr>tr_SourceAccountID = ''b'', tr_DestinationAccountID = ''u'', tr_Amount = 100, tr_Currency = ''USD'',
      tr_Description = [], tr_ExternalReference = []\<rparr>" by (simp add: decodeTransfer_def str_field_def int_field_def)
  have h: "hashed web_srv scopeTransfer (marshalTransferRequest (decodeTransfer ?v)) = Inr ''17''" unfolding dt by (rule hash_fund)
  have va: "ValidateTransfer (transferCommand (decodeTransfer ?v) ''k3'' ''17'') = None"
    by (simp add: dt ValidateTransfer_None transferCommand_def currencyRe_def is_upper_def less_eq_char_def)
  obtain row where row: "idem_of (db (snd C3)) scopeTransfer ''k3'' = Some row" and st: "i_response_status row = Some 201"
    "i_request_hash row = ''17''" by (auto simp: idem_of_def C3_eq scope_defs)
  note t = cache_transparent[OF q re co _ f k v h va row]
  from t[OF b(1)] t[OF b(2)] st show ?thesis by (fastforce simp: replay_answer_def)
qed

subsection \<open>The rate limiter\<close>

text \<open>Successive decisions for one client.\<close>

fun allowTimes :: "env \<Rightarrow> (time \<Rightarrow> string) \<Rightarrow> RateLimiter option \<Rightarrow> string \<Rightarrow> nat \<Rightarrow> bool list acomp" where
  "allowTimes env f l key 0 = ret []"
| "allowTimes env f l key (Suc n) = andThen (Allow env f l key) (\<lambda>(b, t). andThen (allowTimes env f l key n) (\<lambda>bs. ret (b # bs)))"

definition counted :: "redis \<Rightarrow> string \<Rightarrow> int \<Rightarrow> bool" where
  "counted m k c \<longleftrightarrow> m k = (if c = 0 then None else Some (RCount c))"

lemma allow_counts:
  assumes "rl_window l \<noteq> 0" and "\<And>n. rc_ack (rl_client l) n = Acked" and "\<And>n k. \<not> rc_lost (rl_client l) n k"
    and "\<And>n. go_quot (go_clock env n) (rl_window l) = win" and "counted (redis_db (snd s)) (windowKey f key win) c"
    and "0 \<le> c" and "in64 (c + int n)"
  shows "\<exists>s'. allowTimes env f (Some l) key n s = (Ret (map (\<lambda>i. c + int i < rl_limit l) [0..<n]), s')"
  using assms(5-7)
proof (induction n arbitrary: c s)
  case (Suc n)
  let ?k = "windowKey f key win"
  let ?s1 = "(tickw (tickw (fst s)), (snd s)\<lparr>redis_db := (redis_db (snd s))(?k \<mapsto> RCount (c + 1))\<rparr>)"
  have i: "in64 (c + 1)" using Suc.prems(2,3) by (simp add: in64_def)
  have sv: "survive (rl_client l) m r = r" for m r using assms(3) by (simp add: survive_def)
  have "redisIncr (rl_client l) ?k (tickw (fst s), snd s) = (Ret (Inr (c + 1)), ?s1)"
    using Suc.prems(1) i by (auto simp: redisIncr_def redisDo_def Let_def assms(2) sv counted_def split: if_splits)
  then have al: "\<exists>t. Allow env f (Some l) key s = (Ret (c < rl_limit l, t), ?s1)"
    using assms(1,4) by (auto simp: Allow_def andThen_def onDB_def goNow_def ret_def)
  have "counted (redis_db (snd ?s1)) ?k (c + 1)" using Suc.prems(2) by (simp add: counted_def)
  from Suc.IH[OF this] Suc.prems(2,3) obtain s' where
    "allowTimes env f (Some l) key n ?s1 = (Ret (map (\<lambda>i. c + 1 + int i < rl_limit l) [0..<n]), s')"
    by (auto simp: add.assoc)
  moreover have "map (\<lambda>i. c + int i < rl_limit l) [0..<Suc n] = (c < rl_limit l) # map (\<lambda>i. c + 1 + int i < rl_limit l) [0..<n]"
    by (simp add: upt_conv_Cons map_Suc_upt[symmetric] ac_simps del: upt_Suc)
  ultimately show ?case using al by (auto simp: andThen_def ret_def)
qed (simp add: ret_def)

text \<open>
  C38. The rate limiter is exact and fails open: while Redis answers and a window lasts, of the
  requests of one client in that window exactly the first \<open>limit\<close> are allowed, every later one is
  refused; and when Redis does not answer, the request is allowed.
\<close>

theorem rate_limit_exact:
  assumes "NewRateLimiter (Some rc) limit window timeout = Some l" and "window \<noteq> 0"
    and "\<And>n. rc_ack rc n = Acked" and "\<And>n k. \<not> rc_lost rc n k"
    and "\<And>n. go_quot (go_clock env n) window = win" and "redis_db (snd s) (windowKey f key win) = None" and "in64 (int n)"
    and "\<And>n. rc_ack dead n \<noteq> Acked"
  shows "fst (allowTimes env f (Some l) key n s) = Ret (map (\<lambda>i. int i < limit) [0..<n]) \<and>
    fst (Allow env f (Some (l\<lparr>rl_client := dead\<rparr>)) key s) = Ret (True, 0)"
proof
  show "fst (allowTimes env f (Some l) key n s) = Ret (map (\<lambda>i. int i < limit) [0..<n])"
    using allow_counts[of l env win s f key 0 n] assms(1-7)
    by (auto simp: NewRateLimiter_def counted_def split: if_splits)
  have l: "l = \<lparr>rl_client = rc, rl_limit = limit, rl_window = window, rl_timeout = timeout\<rparr>"
    using assms(1) by (simp add: NewRateLimiter_def split: if_splits)
  have "\<exists>e s'. redisIncr dead k' t = (Ret (Inl e), s')" for k' t
    using assms(8)[of "tick (fst t)"] by (auto simp: redisIncr_def redisDo_def Let_def split: prod.splits ack.splits)
  then obtain e s' where "redisIncr dead (windowKey f key (go_quot (go_clock env (tick (fst s))) window)) (tickw (fst s), snd s)
      = (Ret (Inl e), s')" by blast
  then show "fst (Allow env f (Some (l\<lparr>rl_client := dead\<rparr>)) key s) = Ret (True, 0)"
    using assms(2) by (simp add: l Allow_def andThen_def onDB_def goNow_def ret_def)
qed

definition frozen_env :: env where
  "frozen_env = demo_env\<lparr>go_clock := (\<lambda>_. 7)\<rparr>"

theorem rate_limit_exact_witness:
  "\<exists>l. NewRateLimiter (Some web_redis) 2 10 1 = Some l \<and>
    fst (allowTimes frozen_env (\<lambda>_. []) (Some l) ''ip:r'' 4 (W0, web_out)) = Ret [True, True, False, False] \<and>
    fst (Allow frozen_env (\<lambda>_. []) (Some (l\<lparr>rl_client := \<lparr>rc_ack = (\<lambda>_. NotWritten (ErrOther [])), rc_lost = (\<lambda>_ _. False)\<rparr>\<rparr>)) ''ip:r'' (W0, web_out))
      = Ret (True, 0)"
proof -
  let ?dead = "\<lparr>rc_ack = (\<lambda>_. NotWritten (ErrOther [])), rc_lost = (\<lambda>_ _. False)\<rparr>"
  obtain l where l: "NewRateLimiter (Some web_redis) 2 10 1 = Some l" by (simp add: NewRateLimiter_def)
  have h: "rc_ack web_redis n = Acked" "\<not> rc_lost web_redis n k" "go_quot (go_clock frozen_env n) 10 = 0"
    "redis_db (snd (W0, web_out)) j = None" "in64 (int 4)" "rc_ack ?dead n \<noteq> Acked" for n k j
    by (simp_all add: web_redis_def frozen_env_def go_quot_def web_out_def in64_def)
  have "[0..<4] = [0, 1, 2, 3 :: nat]" by (simp add: upt_rec)
  with rate_limit_exact[OF l _ h, of "\<lambda>_. []" "''ip:r''"] l show ?thesis by simp
qed

subsection \<open>Every request is answered\<close>

text \<open>
  C39. Every request gets exactly one answer: whatever the request, the route, the state and the
  failures, the server returns normally with one status of three digits and at most one document.
  When a handler panics, the answer is a 500 with the code \<open>internal_error\<close> and nothing else.
\<close>

theorem request_answered:
  "fst (serve srv method path r s) = Ret () \<and> answered (snd (serve srv method path r s)) \<and>
   (\<forall>p s1. mux srv method path r (fresh s) = (Panic p, s1) \<longrightarrow>
     ans_status (snd (snd (serve srv method path r s))) = Some 500 \<and>
     ans_body (snd (snd (serve srv method path r s))) =
       [errorResponse CodeInternal (Sprintf ''internal error'' []) [] (RequestID (hr_Context r))])"
proof -
  have un: "unanswered (fresh s)" by (simp add: unanswered_def fresh_def)
  obtain x s1 where m: "mux srv method path r (fresh s) = (x, s1)" by (meson surj_pair)
  from answersD[OF mux_answers un m] show ?thesis
  proof (elim disjE conjE exE)
    assume "x = Ret ()" and "answered s1"
    with m show ?thesis by (simp add: serve_def Handler_def withRecovery_def)
  next
    fix p assume p: "x = Panic p" and s1: "unanswered s1"
    have "serve srv method path r s = writeError r (New CodeInternal ''internal error'' []) s1"
      using m p by (simp add: serve_def Handler_def withRecovery_def)
    with s1 m p show ?thesis
      by (auto simp: writeError_def Let_def New_def From_def recordCode_def writeJSON_def setHeader_def writeHeader_def writeDoc_def andThen_def
          unanswered_def answered_def)
  qed
qed

definition panic_world :: world where
  "panic_world = W0\<lparr>fps := Some \<lparr>reg_enabled = True, reg_actions = [(BeforeTxBegin, \<lparr>act_kind = ''panic'', act_duration = 0, act_remaining = 1\<rparr>)]\<rparr>\<rparr>"

lemma panic_run:
  "\<exists>p s1. mux web_srv ''POST'' [''v1'', ''transfers''] (web_post ''k3'' fund_doc) (fresh (panic_world, web_out)) = (Panic p, s1) \<and>
    snd s1 = web_base web_out"
proof -
  have v: "ValidateTransfer (web_fund\<lparr>tc_RequestHash := ''17''\<rparr>) = None"
    by (simp add: ValidateTransfer_None web_fund_def currencyRe_def is_upper_def less_eq_char_def)
  have "fpEval None BeforeTxBegin (tickw panic_world) = (Panic (''failpoint: injected panic at '' @ BeforeTxBegin),
      (tickw panic_world)\<lparr>fps := Some \<lparr>reg_enabled = True, reg_actions = []\<rparr>\<rparr>)"
    by (simp add: fpEval_def Eval_def fromContext_def panic_world_def apply_action_def)
  then obtain p w' where t: "Transfer web_env web_cfg web_ctx (web_fund\<lparr>tc_RequestHash := ''17''\<rparr>) (tickw panic_world) = (Panic p, w')"
    by (simp add: Transfer_def v andThen_def failIf_def mapErr_def web_ctx_def Background_def WithCorrelationID_def WithRequestID_def)
  have g: "Get (s_cache web_srv) scopeTransfer ''k3'' (panic_world, web_base web_out) = (Ret None, (tickw panic_world, web_base web_out))"
    by (simp add: web_srv_fields web_get web_base_def web_out_def)
  show ?thesis
    using t by (simp add: mux_web[OF _ refl, of _ _ "handleTransfer web_srv"] web_route_def fund_handler mutate_def hash_fund lift_def andThen_def
        replayFromCache_def g ret_def orError_def attempt_def onDB_def)
qed

theorem request_answered_witness:
  "(\<exists>p s1. mux web_srv ''POST'' [''v1'', ''transfers''] (web_post ''k3'' fund_doc) (fresh (panic_world, web_out)) = (Panic p, s1)) \<and>
   ans_status (snd (snd (serve web_srv ''POST'' [''v1'', ''transfers''] (web_post ''k3'' fund_doc) (panic_world, web_out)))) = Some 500"
  using panic_run request_answered[of web_srv "''POST''" "[''v1'', ''transfers'']" "web_post ''k3'' fund_doc" "(panic_world, web_out)"]
  by blast

subsection \<open>Requests are counted\<close>

text \<open>A request of a metered route that was answered is counted under the status that was sent.\<close>

lemma observed_counted:
  assumes "answers (h r)" and "unanswered s" and run: "withObservability pattern h r s = (Ret (), s')"
  shows "\<exists>st code before. ans_status (snd s') = Some st \<and> samples (snd s') = before @
    [(co_Name HTTPRequests, [hr_Method r, pattern, decimal st, code]), (co_Name HTTPDuration, [hr_Method r, pattern, decimal st])]"
proof -
  let ?s = "(fst s, (snd s)\<lparr>ans_code := []\<rparr>)"
  have u: "unanswered ?s" using assms(2) by (simp add: unanswered_def)
  obtain y s1 where y: "h r ?s = (y, s1)" by (meson surj_pair)
  have "y = Ret ()" using run y by (cases y) (auto simp: withObservability_def recordCode_def andThen_def)
  with answersD[OF assms(1) u y] obtain st where "ans_status (snd s1) = Some st" by (auto simp: answered_def)
  with run y \<open>y = Ret ()\<close> show ?thesis
    by (auto simp: withObservability_def recordCode_def andThen_def observeRequest_run sentStatus_def)
qed

lemma context_passes:
  assumes "unanswered s" and run: "withRequestContext srv next r s = (Ret (), s')"
  shows "\<exists>q s1. hr_Method q = hr_Method r \<and> unanswered s1 \<and> next q s1 = (Ret (), s')"
proof -
  obtain i w1 where i: "(if hr_Header r HeaderRequestID = [] then onDB (newUUID (s_db srv)) else ret (hr_Header r HeaderRequestID)) s = (Ret i, (w1, snd s))"
    by (cases s, cases "hr_Header r HeaderRequestID = []") (simp_all add: onDB_def newUUID_def ret_def)
  let ?cid = "if hr_Header r HeaderCorrelationID = [] then i else hr_Header r HeaderCorrelationID"
  let ?q = "r\<lparr>hr_Context := WithCorrelationID (WithRequestID (hr_Context r) i) ?cid\<rparr>"
  obtain hs where "next ?q (w1, (snd s)\<lparr>ans_headers := hs\<rparr>) = (Ret (), s')"
    using run unfolding withRequestContext_def Let_def andThen_def[of "if b then m else k" for b m k] i by (auto simp: andThen_def setHeader_def)
  moreover have "unanswered (w1, (snd s)\<lparr>ans_headers := hs\<rparr>)" using assms(1) by (simp add: unanswered_def)
  moreover have "hr_Method ?q = hr_Method r" by simp
  ultimately show ?thesis by blast
qed

lemma route_counted:
  assumes "replies h" and "unanswered s" and run: "route srv pattern h limited r s = (Ret (), s')"
  shows "\<exists>st code before. ans_status (snd s') = Some st \<and> samples (snd s') = before @
    [(co_Name HTTPRequests, [hr_Method r, pattern, decimal st, code]), (co_Name HTTPDuration, [hr_Method r, pattern, decimal st])]"
proof -
  define h2 where "h2 = (if limited then withRateLimit srv pattern (withFailpoints srv h) else withFailpoints srv h)"
  note fp = replies_layers(2)[OF assms(1)]
  have ans: "answers (h2 q)" for q using replies_layers(3)[OF fp] fp by (simp add: h2_def replies_def)
  from context_passes[OF assms(2) run[unfolded route_def Let_def h2_def[symmetric]]] obtain q s1 where
    q: "hr_Method q = hr_Method r" "unanswered s1" "withObservability pattern h2 q s1 = (Ret (), s')" by blast
  from observed_counted[OF ans q(2,3)] q(1) show ?thesis by simp
qed

text \<open>One whose handler panics is answered with 500 by \<open>withRecovery\<close>, outside the layer that counts: it is not counted.\<close>

lemma panic_uncounted:
  "ans_status (snd (snd (serve web_srv ''POST'' [''v1'', ''transfers''] (web_post ''k3'' fund_doc) (panic_world, web_out)))) = Some 500 \<and>
   samples (snd (snd (serve web_srv ''POST'' [''v1'', ''transfers''] (web_post ''k3'' fund_doc) (panic_world, web_out)))) = []"
proof -
  obtain p s1 where m: "mux web_srv ''POST'' [''v1'', ''transfers''] (web_post ''k3'' fund_doc) (fresh (panic_world, web_out)) = (Panic p, s1)"
    and s1: "snd s1 = web_base web_out" using panic_run by blast
  then show ?thesis
    by (simp add: serve_def Handler_def withRecovery_def writeError_def Let_def New_def From_def recordCode_def writeJSON_def setHeader_def
        writeHeader_def writeDoc_def andThen_def web_base_def web_out_def)
qed

subsection \<open>Answers of two error paths\<close>

text \<open>When PostgreSQL cannot be reached, a read is answered with 500.\<close>

lemma db_down_500:
  assumes "fault (s_db srv) (tick w) = Some e" and "as_app e = None" and "\<not> errIs e ErrNoRows" and "ans_status out = None"
  shows "\<exists>w' out'. handleGetAccount srv r (w, out) = (Ret (), (w', out')) \<and> ans_status out' = Some 500"
  using assms
  by (auto simp: handleGetAccount_def orError_def attempt_def andThen_def onDB_def GetAccount_def mapErr_def pool_sql_def sql_def
      writeError_def Let_def From_def recordCode_def writeJSON_def setHeader_def writeHeader_def writeDoc_def)

text \<open>The identifier of a request is part of what is hashed for a replay: a retry under another one does not match.\<close>

lemma replay_hash_input:
  assumes "a \<noteq> b"
  shows "marshalReplayRequest (q\<lparr>rq_RequestedBy := a\<rparr>) f t \<noteq> marshalReplayRequest (q\<lparr>rq_RequestedBy := b\<rparr>) f t"
  using assms by (auto simp: marshalReplayRequest_def omit_str_def opt_time_def split: option.splits if_splits)

end
