(* ===== verification/Workers.thy ===== *)
theory Workers
  imports Webhook_Properties Json
begin

text \<open>
  The loops of the background processes: \<open>Publisher.Run\<close> (\<open>internal/outbox/publisher.go\<close>),
  \<open>Worker.RunDeliveries\<close> (\<open>internal/webhook/worker.go\<close>) and \<open>Consumer.Run\<close>
  (\<open>internal/kafka/consumer.go\<close>). A loop that may run for ever takes fuel, one unit for each
  iteration: \<open>Ret True\<close> means that it returned, \<open>Ret False\<close> that it was still running when the
  fuel was used up.
\<close>

subsection \<open>Polling\<close>

text \<open>
  \<open>select\<close> on the end of the context and on a timer. Either branch may be taken when both are
  ready: \<open>timer n\<close> says that at the \<open>n\<close>-th interaction the timer is taken although the context is
  done.
\<close>

definition selectDone :: "env \<Rightarrow> (nat \<Rightarrow> bool) \<Rightarrow> bool comp" where
  "selectDone env timer w = (Ret (ctx_done env (tick w) \<noteq> None \<and> \<not> timer (tick w)), tickw w)"

fun publisherLoop :: "nat \<Rightarrow> env \<Rightarrow> Config \<Rightarrow> broker \<Rightarrow> ctx \<Rightarrow> (nat \<Rightarrow> string \<Rightarrow> bool) \<Rightarrow> (nat \<Rightarrow> bool) \<Rightarrow> bool kcomp" where
  "publisherLoop 0 env cfg brk ctx locked timer = ret False"
| "publisherLoop (Suc n) env cfg brk ctx locked timer =
     andThen (RunOnce env cfg brk ctx (locked n)) (\<lambda>(published, err).
       if published \<ge> OutboxBatchSize cfg then publisherLoop n env cfg brk ctx locked timer
       else andThen (onDB (selectDone env timer)) (\<lambda>stop.
         if stop then ret True else publisherLoop n env cfg brk ctx locked timer))"

text \<open>\<open>time.NewTicker\<close> panics on an interval that is not positive.\<close>

definition tickerPanic :: string where
  "tickerPanic = ''non-positive interval for NewTicker''"

definition publisherRun :: "nat \<Rightarrow> env \<Rightarrow> Config \<Rightarrow> broker \<Rightarrow> ctx \<Rightarrow> (nat \<Rightarrow> string \<Rightarrow> bool) \<Rightarrow> (nat \<Rightarrow> bool) \<Rightarrow> bool kcomp" where
  "publisherRun n env cfg brk ctx locked timer s =
     (if OutboxPollInterval cfg \<le> 0 then (Panic tickerPanic, s) else publisherLoop n env cfg brk ctx locked timer s)"

fun deliveriesLoop ::
  "nat \<Rightarrow> env \<Rightarrow> Config \<Rightarrow> (string \<Rightarrow> json \<Rightarrow> string) \<Rightarrow> (nat \<Rightarrow> reply) \<Rightarrow> ctx \<Rightarrow> (nat \<Rightarrow> bool) \<Rightarrow> bool wcomp" where
  "deliveriesLoop 0 env cfg signer http ctx timer = ret False"
| "deliveriesLoop (Suc n) env cfg signer http ctx timer =
     andThen (DeliverOnce env cfg signer http ctx) (\<lambda>(delivered, err).
       andThen (onDB (selectDone env timer)) (\<lambda>stop.
         if stop then ret True else deliveriesLoop n env cfg signer http ctx timer))"

definition RunDeliveries ::
  "nat \<Rightarrow> env \<Rightarrow> Config \<Rightarrow> (string \<Rightarrow> json \<Rightarrow> string) \<Rightarrow> (nat \<Rightarrow> reply) \<Rightarrow> ctx \<Rightarrow> (nat \<Rightarrow> bool) \<Rightarrow> bool wcomp" where
  "RunDeliveries n env cfg signer http ctx timer s =
     (if WebhookPollInterval cfg \<le> 0 then (Panic tickerPanic, s) else deliveriesLoop n env cfg signer http ctx timer s)"

subsection \<open>Consuming\<close>

text \<open>
  The group reader belongs to the client library: its two calls are arguments, over any state of
  the reader. A message comes with its offset; the code commits by the message.
\<close>

record fetched =
  f_Topic :: string
  f_Offset :: nat
  f_Key :: string
  f_Value :: json
  f_Headers :: "(string \<times> string) list"

record 'r reader =
  FetchMessage :: "'r \<Rightarrow> (goerr + fetched) \<times> 'r"
  CommitMessages :: "fetched \<Rightarrow> 'r \<Rightarrow> goerr option \<times> 'r"

text \<open>The errors that mean shutdown.\<close>

definition Canceled :: goerr where "Canceled = ErrOther ''context canceled''"
definition DeadlineExceeded :: goerr where "DeadlineExceeded = ErrOther ''context deadline exceeded''"
definition ErrClosedPipe :: goerr where "ErrClosedPipe = ErrOther ''io: read/write on closed pipe''"
definition ErrGroupClosed :: goerr where "ErrGroupClosed = ErrOther ''consumer group is closed''"

definition readerDone :: "goerr \<Rightarrow> bool" where
  "readerDone err \<longleftrightarrow> errIs err Canceled \<or> errIs err DeadlineExceeded \<or> errIs err ErrClosedPipe \<or> errIs err ErrGroupClosed"

definition fetchBackoff :: "int \<Rightarrow> rat \<Rightarrow> time" where
  "fetchBackoff failures u =
     (let base = 250 * 10 ^ 6; maxDelay = 30 * 10 ^ 9; n = max failures 1;
          d = base * 2 ^ nat (n - 1); delay = (if d > maxDelay then maxDelay else d); half = delay / 2
      in trunc (half + u * half))"

definition consumedMessage :: "fetched \<Rightarrow> Message" where
  "consumedMessage msg = \<lparr>m_Topic = f_Topic msg, m_Key = f_Key msg, m_Value = f_Value msg,
     m_Headers = fold (\<lambda>(k, v). AList.update k v) (f_Headers msg) []\<rparr>"

text \<open>The state is the world, the reader and the pauses taken so far.\<close>

fun consumerRun :: "nat \<Rightarrow> 'r reader \<Rightarrow> env \<Rightarrow> (nat \<Rightarrow> bool) \<Rightarrow> (Message \<Rightarrow> unit comp) \<Rightarrow> int \<Rightarrow>
    world \<times> 'r \<times> time list \<Rightarrow> bool result \<times> (world \<times> 'r \<times> time list)" where
  "consumerRun 0 rd env timer handle failures s = (Ret False, s)"
| "consumerRun (Suc n) rd env timer handle failures (w, r, ps) =
     (case FetchMessage rd r of
        (Inl err, r1) \<Rightarrow>
          if readerDone err then (Ret True, (w, r1, ps))
          else
            let delay = fetchBackoff (failures + 1) (float64_of env (tick w));
                (stop, w1) = selectDone env timer (tickw w)
            in if stop = Ret True then (Ret True, (w1, r1, ps))
               else consumerRun n rd env timer handle (failures + 1) (w1, r1, ps @ [delay])
      | (Inr msg, r1) \<Rightarrow>
          (case handle (consumedMessage msg) w of
             (Panic p, w1) \<Rightarrow> (Panic p, (w1, r1, ps))
           | (Err e, w1) \<Rightarrow> consumerRun n rd env timer handle 0 (w1, r1, ps)
           | (Ret _, w1) \<Rightarrow>
               (case CommitMessages rd msg r1 of (_, r2) \<Rightarrow> consumerRun n rd env timer handle 0 (w1, r2, ps))))"

subsection \<open>Shutdown\<close>

lemma publishLoop_counts:
  assumes "publishLoop env cfg brk ctx batch n s = (Ret (k, e), s')"
  shows "n \<le> k"
  using assms
proof (induction batch arbitrary: n s)
  case Nil
  then show ?case by (simp add: ret_def)
next
  case (Cons rec batch)
  from Cons.prems obtain y s1 where "attempt (onDB (ctxErr env)) s = (Ret y, s1)" and y: "(case y of Inl e \<Rightarrow> ret (n, Some e)
      | Inr _ \<Rightarrow> andThen (publishOne env cfg brk ctx rec) (\<lambda>ok. publishLoop env cfg brk ctx batch (if ok then n + 1 else n))) s1
      = (Ret (k, e) :: (int \<times> goerr option) result, s')"
    unfolding publishLoop.simps andThen_Ret by blast
  show ?case
  proof (cases y)
    case (Inl e')
    with y show ?thesis by (simp add: ret_def)
  next
    case (Inr u)
    with y obtain ok s2 where "publishLoop env cfg brk ctx batch (if ok then n + 1 else n) s2 = (Ret (k, e), s')"
      unfolding Inr sum.case andThen_Ret by blast
    from Cons.IH[OF this] show ?thesis by (simp split: if_splits)
  qed
qed

lemma RunOnce_counts:
  assumes "RunOnce env cfg brk ctx locked s = (Ret (k, e), s')"
  shows "0 \<le> k"
proof -
  from assms obtain y s0 s1 where "attempt (onDB (ClaimOutbox env (OutboxWorkerID cfg) (OutboxBatchSize cfg) (OutboxClaimTTL cfg) locked)) s0 = (Ret y, s1)"
    and "(case y of Inl e \<Rightarrow> ret (0, Some e) | Inr batch \<Rightarrow> publishLoop env cfg brk ctx batch 0) s1
      = (Ret (k, e) :: (int \<times> goerr option) result, s')"
    unfolding RunOnce_def andThen_Ret by blast
  then show ?thesis using publishLoop_counts by (cases y) (auto simp: ret_def)
qed

text \<open>Under a context that is done nothing is published.\<close>

lemma publishLoop_done:
  assumes "\<And>n. ctx_done env n \<noteq> None"
  shows "\<exists>e s'. publishLoop env cfg brk ctx batch k s = (Ret (k, e), s')"
  using assms[of "tick (fst s)"]
  by (cases batch) (auto simp: ret_def andThen_def attempt_def onDB_def ctxErr_def)

lemma pool_no_panic: "pool_sql env stmt w = (r, w') \<Longrightarrow> r \<noteq> Panic p"
  by (auto simp: pool_sql_def sql_def split: commit_fault.splits option.splits sum.splits)

lemma attempt_pool: "\<exists>y s'. attempt (onDB (mapErr g (pool_sql env stmt))) s = (Ret y, s')"
proof -
  obtain r w' where e: "pool_sql env stmt (fst s) = (r, w')" by (meson surj_pair)
  show ?thesis using pool_no_panic[OF e] by (cases r) (auto simp: attempt_def onDB_def mapErr_def e)
qed

lemma RunOnce_done:
  assumes "\<And>n. ctx_done env n \<noteq> None"
  shows "\<exists>e s'. RunOnce env cfg brk ctx locked s = (Ret (0, e), s')"
proof -
  obtain y1 s1 where 1: "attempt (onDB (Backlog env)) s = (Ret y1, s1)" unfolding Backlog_def using attempt_pool by blast
  obtain y2 s2 where 2: "attempt (onDB (ClaimOutbox env (OutboxWorkerID cfg) (OutboxBatchSize cfg) (OutboxClaimTTL cfg) locked)) s1 = (Ret y2, s2)"
    unfolding ClaimOutbox_def using attempt_pool by blast
  show ?thesis using publishLoop_done[where cfg = cfg and brk = brk and ctx = ctx and k = 0 and s = s2, OF assms]
    by (cases y2) (auto simp: RunOnce_def andThen_def 1 2 ret_def)
qed

lemma publisherLoop_spins:
  assumes "OutboxBatchSize cfg \<le> 0"
  shows "fst (publisherLoop n env cfg brk ctx locked timer s) \<noteq> Ret True"
proof (induction n arbitrary: s)
  case (Suc n)
  obtain r s1 where e: "RunOnce env cfg brk ctx (locked n) s = (r, s1)" by (meson surj_pair)
  show ?case
  proof (cases r)
    case (Ret x)
    obtain k er where x: "x = (k, er)" by fastforce
    have "0 \<le> k" using RunOnce_counts e Ret x by blast
    with Suc.IH[of s1] assms e Ret x show ?thesis by (simp add: andThen_def)
  qed (use e in \<open>simp_all add: andThen_def\<close>)
qed (simp add: ret_def)


definition stopped_env :: env where
  "stopped_env = demo_env\<lparr>ctx_done := (\<lambda>_. Some Canceled)\<rparr>"


text \<open>The delivery loop ends with the cycle in which its context is done, or panics in it.\<close>

lemma deliveries_shutdown:
  assumes "0 < n" and "\<And>k. ctx_done env k \<noteq> None" and "\<And>k. \<not> timer k"
  shows "fst (deliveriesLoop n env cfg signer http ctx timer s) \<noteq> Ret False"
proof -
  obtain m where "n = Suc m" using assms(1) gr0_implies_Suc by blast
  with assms(2,3) show ?thesis
    by (auto simp: andThen_def onDB_def selectDone_def ret_def split: prod.splits res.splits)
qed

subsection \<open>What a commit covers\<close>

text \<open>
  The documented behaviour of a group reader on a partition: messages come in the order of their
  offsets, a fetch commits nothing, and committing a message commits every offset up to its own.
\<close>

definition reader_ok :: "'r reader \<Rightarrow> ('r \<Rightarrow> nat) \<Rightarrow> ('r \<Rightarrow> nat) \<Rightarrow> bool" where
  "reader_ok rd pos cmt \<longleftrightarrow>
     (\<forall>r m r'. FetchMessage rd r = (Inr m, r') \<longrightarrow> f_Offset m = pos r \<and> pos r' = Suc (pos r) \<and> cmt r' = cmt r) \<and>
     (\<forall>r e r'. FetchMessage rd r = (Inl e, r') \<longrightarrow> pos r' = pos r \<and> cmt r' = cmt r) \<and>
     (\<forall>r m x r'. CommitMessages rd m r = (x, r') \<longrightarrow> pos r' = pos r \<and>
        (cmt r' = cmt r \<or> cmt r' = Suc (f_Offset m)) \<and> (x = None \<longrightarrow> cmt r' = Suc (f_Offset m)))"

text \<open>Without failures of the handler, everything below the committed offset has been handled.\<close>

lemma commits_handled:
  assumes rd: "reader_ok rd pos cmt"
    and ok: "\<And>r m r' w x w'. FetchMessage rd r = (Inr m, r') \<Longrightarrow> handle (consumedMessage m) w = (x, w') \<Longrightarrow>
      (\<forall>e. x \<noteq> Err e) \<and> (x = Ret () \<longrightarrow> handled w' (f_Offset m)) \<and> (\<forall>j. handled w j \<longrightarrow> handled w' j)"
    and quiet: "\<And>w j. handled (tickw w) j = handled w j"
    and run: "consumerRun n rd env timer handle fl (w, r, ps) = (x, (w', r', ps'))"
    and inv: "\<forall>j < pos r. handled w j" "cmt r \<le> pos r"
  shows "\<forall>j < cmt r'. handled w' j"
  using run inv
proof (induction n arbitrary: fl w r ps)
  case 0
  then show ?case by auto
next
  case (Suc n)
  note law = rd[unfolded reader_ok_def]
  obtain y r1 where f: "FetchMessage rd r = (y, r1)" by (meson surj_pair)
  show ?case
  proof (cases y)
    case (Inl err)
    with law f have p: "pos r1 = pos r" "cmt r1 = cmt r" by auto
    have "(w', r') = (w, r1) \<or> (w', r') = (tickw (tickw w), r1) \<or>
        consumerRun n rd env timer handle (fl + 1) (tickw (tickw w), r1, ps @ [fetchBackoff (fl + 1) (float64_of env (tick w))]) = (x, (w', r', ps'))"
      using Suc.prems(1) f Inl by (auto simp: selectDone_def Let_def split: if_splits)
    then show ?thesis using Suc.IH[of "fl + 1" "tickw (tickw w)" r1] Suc.prems(2,3) p quiet by auto
  next
    case (Inr m)
    with law f have p: "f_Offset m = pos r" "pos r1 = Suc (pos r)" "cmt r1 = cmt r" by auto
    obtain z w1 where h: "handle (consumedMessage m) w = (z, w1)" by (meson surj_pair)
    note o = ok[OF f[unfolded Inr] h]
    show ?thesis
    proof (cases z)
      case (Err e)
      with o show ?thesis by blast
    next
      case (Panic q)
      with Suc.prems f Inr h o p show ?thesis by auto
    next
      case (Ret u)
      obtain c r2 where c: "CommitMessages rd m r1 = (c, r2)" by (meson surj_pair)
      with law have q: "pos r2 = pos r1" "cmt r2 = cmt r1 \<or> cmt r2 = Suc (f_Offset m)" by auto
      have "\<forall>j < pos r2. handled w1 j" using o Ret p q(1) Suc.prems(2) by (auto simp: less_Suc_eq)
      moreover have "cmt r2 \<le> pos r2" using q p Suc.prems(3) by auto
      moreover have "consumerRun n rd env timer handle 0 (w1, r2, ps) = (x, (w', r', ps'))"
        using Suc.prems(1) f Inr h Ret c by simp
      ultimately show ?thesis using Suc.IH by blast
    qed
  qed
qed


text \<open>A reader of one partition: its state is the next offset and the committed one.\<close>

definition part_reader :: "fetched list \<Rightarrow> (nat \<times> nat) reader" where
  "part_reader ms = \<lparr>FetchMessage = (\<lambda>(p, c). if p < length ms then (Inr ((ms ! p)\<lparr>f_Offset := p\<rparr>), (Suc p, c)) else (Inl Canceled, (p, c))),
     CommitMessages = (\<lambda>m (p, c). (None, (p, Suc (f_Offset m))))\<rparr>"

lemma part_reader_ok: "reader_ok (part_reader ms) fst snd"
  by (auto simp: reader_ok_def part_reader_def split: if_splits)

definition hook_fetched :: "string \<Rightarrow> fetched" where
  "hook_fetched i = \<lparr>f_Topic = ''payments.created'', f_Offset = 0, f_Key = ''t'', f_Value = marshalEnvelope (hook_event i None), f_Headers = []\<rparr>"

text \<open>The first statement fails, every later one succeeds.\<close>

definition flaky_env :: env where
  "flaky_env = demo_env\<lparr>fault := (\<lambda>n. if n = 1 then Some ErrInjected else None)\<rparr>"

definition flaky_handle :: "Message \<Rightarrow> unit comp" where
  "flaky_handle = HandleEvent flaky_env hook_cfg Background"

definition flaky_ran :: "unit result \<Rightarrow> string" where
  "flaky_ran r = (case r of Ret _ \<Rightarrow> ''ok'' | Err _ \<Rightarrow> ''failed'' | Panic _ \<Rightarrow> ''panic'')"

lemma flaky_run:
  "flaky_ran (fst (flaky_handle (consumedMessage ((hook_fetched ''e'')\<lparr>f_Offset := 0\<rparr>)) W0)) = ''failed''"
  "(let w1 = snd (flaky_handle (consumedMessage ((hook_fetched ''e'')\<lparr>f_Offset := 0\<rparr>)) W0);
        (r, w2) = flaky_handle (consumedMessage ((hook_fetched ''f'')\<lparr>f_Offset := 1\<rparr>)) w1
    in flaky_ran r = ''ok'' \<and> map wh_event_id (webhook_deliveries (db w2)) = [''f'', ''f''])"
  by code_simp+


text \<open>The pause between failed fetches.\<close>

lemma fetchBackoff_bounds:
  assumes "0 \<le> u" and "u < 1"
  shows "125 * 10 ^ 6 \<le> fetchBackoff failures u \<and> fetchBackoff failures u \<le> 30 * 10 ^ 9"
proof -
  define d :: rat where "d = 250 * 10 ^ 6 * 2 ^ nat (max failures 1 - 1)"
  define half where "half = (if d > 30 * 10 ^ 9 then 30 * 10 ^ 9 else d) / 2"
  have "250 * 10 ^ 6 * 1 \<le> d" unfolding d_def by (intro mult_left_mono) simp_all
  then have h: "125 * 10 ^ 6 \<le> half" "half \<le> 15 * 10 ^ 9" by (auto simp: half_def)
  have "0 \<le> u * half" using assms(1) h(1) by simp
  moreover have "u * half \<le> half" using mult_right_mono[of u 1 half] assms(2) h(1) by simp
  ultimately have b: "125 * 10 ^ 6 \<le> half + u * half" "half + u * half \<le> 30 * 10 ^ 9" using h by linarith+
  have "fetchBackoff failures u = trunc (half + u * half)"
    unfolding fetchBackoff_def Let_def d_def half_def by (rule refl)
  moreover have "\<not> half + u * half < 0" using order.trans[OF _ b(1), of 0] by (simp add: not_less)
  ultimately have f: "fetchBackoff failures u = \<lfloor>half + u * half\<rfloor>" unfolding trunc_def by presburger
  show ?thesis unfolding f using b by (simp add: le_floor_iff floor_le_iff)
qed

end
