(* ===== verification/Receiver.thy ===== *)
theory Receiver
  imports Api
begin

text \<open>
  \<open>cmd/example-webhook\<close>: a receiver that acknowledges duplicates without processing them again.
  Its handlers are functions on the state behind its mutex; an answer is a status and a document.
\<close>

record receiver =
  rcv_processed :: "(string \<times> int) list"
  rcv_order :: "string list"
  rcv_failNext :: int
  rcv_failAlways :: bool

type_synonym answer = "int \<times> json"

definition newReceiver :: receiver where
  "newReceiver = \<lparr>rcv_processed = [], rcv_order = [], rcv_failNext = 0, rcv_failAlways = False\<rparr>"

text \<open>Reading a counter that is absent gives zero.\<close>

definition deliveriesOf :: "receiver \<Rightarrow> string \<Rightarrow> int" where
  "deliveriesOf rv i = (case map_of (rcv_processed rv) i of None \<Rightarrow> 0 | Some n \<Rightarrow> n)"

text \<open>
  \<open>json.Unmarshal\<close> into the anonymous envelope: unknown members are ignored, a member of the wrong
  type is an error. Only the event identifier decides what happens.
\<close>

definition replayNote :: "json \<Rightarrow> bool" where
  "replayNote j = (case j of
       JNull \<Rightarrow> True
     | JObj ms \<Rightarrow> as_bool (member_of ms ''is_replay'') \<noteq> None \<and> as_str (member_of ms ''replay_id'') \<noteq> None
     | _ \<Rightarrow> False)"

definition receivedEventID :: "body \<Rightarrow> string option" where
  "receivedEventID b = (case b of
       Document (JObj ms) \<Rightarrow>
         (case (as_str (member_of ms ''event_id''), as_str (member_of ms ''event_type''), as_str (member_of ms ''transaction_id'')) of
            (Some i, Some _, Some _) \<Rightarrow> if replayNote (member_of ms ''replay'') then Some i else None
          | _ \<Rightarrow> None)
     | Document JNull \<Rightarrow> Some []
     | _ \<Rightarrow> None)"

definition handleWebhook :: "body \<Rightarrow> receiver \<Rightarrow> answer \<times> receiver" where
  "handleWebhook b rv =
     (if b = Unreadable then ((400, JObj [(''error'', JStr ''unreadable body'')]), rv)
      else case receivedEventID b of
        None \<Rightarrow> ((400, JObj [(''error'', JStr ''missing event_id'')]), rv)
      | Some i \<Rightarrow>
          if i = [] then ((400, JObj [(''error'', JStr ''missing event_id'')]), rv)
          else if rcv_failAlways rv \<or> rcv_failNext rv > 0 then
            ((500, JObj [(''error'', JStr ''simulated failure'')]),
             if rcv_failNext rv > 0 then rv\<lparr>rcv_failNext := rcv_failNext rv - 1\<rparr> else rv)
          else
            let c = deliveriesOf rv i;
                rv1 = rv\<lparr>rcv_processed := AList.update i (c + 1) (rcv_processed rv)\<rparr>;
                rv2 = (if c = 0 then rv1\<lparr>rcv_order := rcv_order rv1 @ [i]\<rparr> else rv1)
            in ((200, JObj [(''event_id'', JStr i), (''status'', JStr (if c > 0 then ''duplicate_ignored'' else ''processed''))]), rv2))"

definition handleEvents :: "receiver \<Rightarrow> answer \<times> receiver" where
  "handleEvents rv = ((200, JObj
     [(''events'', JArr (map (\<lambda>i. JObj [(''deliveries'', JNum (deliveriesOf rv i)), (''event_id'', JStr i)]) (rcv_order rv))),
      (''unique_events'', JNum (int (length (rcv_order rv))))]), rv)"

text \<open>
  The value \<open>strconv.Atoi\<close> returns beside its error, which the code ignores: the nearest bound of
  \<open>int\<close> for a number out of range, also when more than 64 bits have been read before a character
  that is no digit, and 0 for any other text that is no number.
\<close>

definition atoiValue :: "string \<Rightarrow> int" where
  "atoiValue s =
     (let (neg, ds) = (case s of [] \<Rightarrow> (False, []) | c # cs \<Rightarrow>
            if c = CHR ''-'' then (True, cs) else if c = CHR ''+'' then (False, cs) else (False, s));
          n = digits_value (takeWhile is_digit ds)
      in if ds \<noteq> [] \<and> (list_all is_digit ds \<or> n \<ge> 2 ^ 64)
         then if neg then max (- int n) (- (2 ^ 63)) else min (int n) (2 ^ 63 - 1)
         else 0)"

lemma atoiValue_Atoi: "Atoi s = Some n \<Longrightarrow> atoiValue s = n"
proof -
  assume a: "Atoi s = Some n"
  define p where "p = (case s of [] \<Rightarrow> (False, []) | c # cs \<Rightarrow>
            if c = CHR ''-'' then (True, cs) else if c = CHR ''+'' then (False, cs) else (False, s))"
  obtain neg ds where p: "p = (neg, ds)" by fastforce
  from a have ok: "ds \<noteq> []" "list_all is_digit ds" "in64 n" "n = (if neg then - int (digits_value ds) else int (digits_value ds))"
    unfolding Atoi_def p_def[symmetric] p by (auto simp: Let_def split: if_splits)
  then have tw: "takeWhile is_digit ds = ds" by (simp add: list_all_iff takeWhile_eq_all_conv)
  show ?thesis unfolding atoiValue_def p_def[symmetric] p Let_def prod.case tw
    using ok by (cases neg) (auto simp: in64_def min_def max_def)
qed

definition handleFail :: "string \<Rightarrow> string \<Rightarrow> receiver \<Rightarrow> answer \<times> receiver" where
  "handleFail countText alwaysText rv =
     (let n = atoiValue countText; always = (ParseBool alwaysText = Some True)
      in ((200, JObj [(''fail_always'', JBool always), (''fail_next'', JNum n)]),
          rv\<lparr>rcv_failNext := n, rcv_failAlways := always\<rparr>))"

definition handleReset :: "receiver \<Rightarrow> answer \<times> receiver" where
  "handleReset rv = ((200, JObj [(''status'', JStr ''reset'')]), newReceiver)"

subsection \<open>Every event is processed once\<close>

definition receiver_ok :: "receiver \<Rightarrow> bool" where
  "receiver_ok rv \<longleftrightarrow> distinct (rcv_order rv) \<and> distinct (map fst (rcv_processed rv)) \<and>
     (\<forall>i. i \<in> set (rcv_order rv) \<longleftrightarrow> deliveriesOf rv i \<noteq> 0) \<and> (\<forall>i. 0 \<le> deliveriesOf rv i)"

lemma deliveriesOf_update: "deliveriesOf (rv\<lparr>rcv_processed := AList.update i n (rcv_processed rv), rcv_order := o'\<rparr>) j =
    (if j = i then n else deliveriesOf rv j)"
  by (simp add: deliveriesOf_def update_conv')

lemma handleWebhook_ok:
  assumes "receiver_ok rv" and "handleWebhook b rv = (a, rv')"
  shows "receiver_ok rv'"
proof -
  have fr: "receiver_ok (rv\<lparr>rcv_failNext := n\<rparr>) = receiver_ok rv" for n by (simp add: receiver_ok_def deliveriesOf_def)
  show ?thesis
  proof (cases "fst a = 200")
    case False
    with assms fr show ?thesis by (auto simp: handleWebhook_def Let_def split: if_splits option.splits)
  next
    case True
    with assms(2) obtain i where acc: "receivedEventID b = Some i" "i \<noteq> []" "b \<noteq> Unreadable" "\<not> rcv_failAlways rv" "\<not> 0 < rcv_failNext rv"
      by (auto simp: handleWebhook_def split: if_splits option.splits)
    then have rv': "rv' = rv\<lparr>rcv_processed := AList.update i (deliveriesOf rv i + 1) (rcv_processed rv),
        rcv_order := (if deliveriesOf rv i = 0 then rcv_order rv @ [i] else rcv_order rv)\<rparr>"
      using assms(2) by (auto simp: handleWebhook_def Let_def)
    have "0 \<le> deliveriesOf rv i" using assms(1) by (simp add: receiver_ok_def)
    then have "deliveriesOf rv i + 1 \<noteq> 0" by linarith
    then show ?thesis
      using assms(1) unfolding rv' receiver_ok_def deliveriesOf_update by (auto simp: distinct_update)
  qed
qed

text \<open>Only the first accepted delivery of an event is processed; later ones are acknowledged as duplicates.\<close>

lemma processed_once:
  assumes "receiver_ok rv" and "receivedEventID b = Some i" and "i \<noteq> []" and "b \<noteq> Unreadable"
    and "\<not> rcv_failAlways rv" and "rcv_failNext rv \<le> 0"
  shows "\<exists>rv'. handleWebhook b rv = ((200, JObj [(''event_id'', JStr i), (''status'', JStr (if i \<in> set (rcv_order rv) then ''duplicate_ignored'' else ''processed''))]), rv') \<and>
    set (rcv_order rv') = insert i (set (rcv_order rv)) \<and> deliveriesOf rv' i = deliveriesOf rv i + 1"
proof -
  have "i \<in> set (rcv_order rv) \<longleftrightarrow> deliveriesOf rv i \<noteq> 0" and nn: "0 \<le> deliveriesOf rv i" using assms(1) unfolding receiver_ok_def by blast+
  then have "i \<in> set (rcv_order rv) \<longleftrightarrow> 0 < deliveriesOf rv i" by linarith
  with nn assms(2-6) show ?thesis
    by (auto simp: handleWebhook_def Let_def deliveriesOf_def update_conv' split: option.splits)
qed

end
