(* ===== verification/Seed.thy ===== *)
theory Seed
  imports Api_Server
begin

text \<open>
  \<open>cmd/seed\<close>: the requests that set up a demonstration ledger. The HTTP client is an argument: a
  call (verb, URL, idempotency key, document) answers with a status and the text of the body or
  with an error of the transport.
\<close>

type_synonym 's http = "string \<Rightarrow> string \<Rightarrow> string \<Rightarrow> json \<Rightarrow> 's \<Rightarrow> (goerr + int \<times> string) \<times> 's"

definition systemAccount :: string where "systemAccount = ''system:issuance:usd''"
definition accountA :: string where "accountA = ''account-a''"
definition accountB :: string where "accountB = ''account-b''"

definition seedSystem :: json where
  "seedSystem = JObj [(''allow_overdraft'', JBool True), (''currency'', JStr ''USD''), (''id'', JStr systemAccount), (''kind'', JStr ''system'')]"

definition seedAccount :: "string \<Rightarrow> json" where
  "seedAccount i = JObj [(''currency'', JStr ''USD''), (''id'', JStr i), (''kind'', JStr ''user'')]"

definition seedFunding :: "int \<Rightarrow> string \<Rightarrow> json" where
  "seedFunding amount i = JObj [(''amount'', JNum amount), (''currency'', JStr ''USD''), (''description'', JStr ''Initial funding''),
     (''destination_account_id'', JStr i), (''external_reference'', JStr (''seed-'' @ i)), (''source_account_id'', JStr systemAccount)]"

definition seedPlan :: "int \<Rightarrow> (string \<times> string \<times> json) list" where
  "seedPlan amount =
     [(''/v1/accounts'', ''seed-system-account'', seedSystem)]
     @ map (\<lambda>i. (''/v1/accounts'', ''seed-'' @ i, seedAccount i)) [accountA, accountB]
     @ map (\<lambda>i. (''/v1/transfers'', ''seed-fund-'' @ i, seedFunding amount i)) [accountA, accountB]"

text \<open>\<open>mustPost\<close>: \<open>None\<close> lets the program go on, an error ends it.\<close>

definition mustPost :: "'s http \<Rightarrow> string \<Rightarrow> string \<Rightarrow> json \<Rightarrow> 's \<Rightarrow> goerr option \<times> 's" where
  "mustPost http url key doc s =
     (case http ''POST'' url key doc s of
        (Inl e, s') \<Rightarrow> (Some e, s')
      | (Inr (status, respBody), s') \<Rightarrow>
          if status < 300 then (None, s')
          else if status = 409 then (None, s')
          else (Some (ErrOther (sprintf (Sprintf ''%s returned %d: %s'' [AStr url, AInt status, AStr respBody]))), s'))"

fun seedPosts :: "'s http \<Rightarrow> string \<Rightarrow> (string \<times> string \<times> json) list \<Rightarrow> 's \<Rightarrow> goerr option \<times> 's" where
  "seedPosts http base [] s = (None, s)"
| "seedPosts http base ((path, key, doc) # plan) s =
     (case mustPost http (base @ path) key doc s of
        (Some e, s') \<Rightarrow> (Some e, s')
      | (None, s') \<Rightarrow> seedPosts http base plan s')"

text \<open>
  \<open>waitForReady\<close> polls once a second until the deadline; \<open>now n\<close> is the clock at its \<open>n\<close>-th reading,
  and the fuel bounds the number of polls.
\<close>

fun waitForReady :: "nat \<Rightarrow> (nat \<Rightarrow> time) \<Rightarrow> time \<Rightarrow> 's http \<Rightarrow> string \<Rightarrow> goerr option \<Rightarrow> nat \<Rightarrow> 's \<Rightarrow> (goerr option) option \<times> 's" where
  "waitForReady 0 now deadline http base lastErr n s = (None, s)"
| "waitForReady (Suc fuel) now deadline http base lastErr n s =
     (if now n < deadline then
        (case http ''GET'' (base @ ''/health/ready'') [] JNull s of
           (Inr (status, _), s') \<Rightarrow>
             if status = 200 then (Some None, s')
             else waitForReady fuel now deadline http base
               (Some (ErrOther (sprintf (Sprintf ''readiness returned %d'' [AInt status])))) (Suc n) s'
         | (Inl e, s') \<Rightarrow> waitForReady fuel now deadline http base (Some e) (Suc n) s')
      else (Some (Some (case lastErr of
          None \<Rightarrow> ErrOther ''api never became ready: %!w(<nil>)''
        | Some e \<Rightarrow> Wrap (Sprintf ''api never became ready: %w'' []) e)), s))"

definition seedMain :: "nat \<Rightarrow> (nat \<Rightarrow> time) \<Rightarrow> 's http \<Rightarrow> string \<Rightarrow> int \<Rightarrow> 's \<Rightarrow> (goerr option) option \<times> 's" where
  "seedMain fuel now http base amount s =
     (case waitForReady fuel now (now 0 + 60 * 10 ^ 9) http base None 1 s of
        (Some None, s') \<Rightarrow> (case seedPosts http base (seedPlan amount) s' of (e, s'') \<Rightarrow> (Some e, s''))
      | other \<Rightarrow> other)"

text \<open>With a clock that advances by a second at each reading, \<open>k\<close> seconds before the deadline leave at most \<open>k\<close> polls.\<close>

lemma waitForReady_ends:
  assumes "\<And>i. now (Suc i) \<ge> now i + 10 ^ 9" and "deadline \<le> now n + int k * 10 ^ 9" and "k < fuel"
  shows "\<exists>x s'. waitForReady fuel now deadline http base lastErr n s = (Some x, s')"
  using assms(2,3)
proof (induction fuel arbitrary: n k s lastErr)
  case (Suc fuel)
  show ?case
  proof (cases k)
    case 0
    then show ?thesis using Suc.prems by simp
  next
    case (Suc j)
    have "deadline \<le> now (Suc n) + int j * 10 ^ 9"
      using Suc.prems(1) assms(1)[of n] Suc by simp
    moreover have "j < fuel" using Suc.prems(2) Suc by simp
    ultimately show ?thesis using Suc.IH by (auto split: prod.splits sum.splits)
  qed
qed simp

text \<open>The wait of \<open>main\<close> is a minute: 62 polls are always enough.\<close>

lemma seedMain_ends:
  assumes "\<And>i. now (Suc i) \<ge> now i + 10 ^ 9"
  shows "\<exists>x s'. seedMain 62 now http base amount s = (Some x, s')"
proof -
  have "now 0 + 60 * 10 ^ 9 \<le> now 1 + int 60 * 10 ^ 9"
    using assms[of 0] by simp
  from waitForReady_ends[OF assms this, of 62 http base None s] show ?thesis
    by (auto simp: seedMain_def split: prod.splits option.splits)
qed

text \<open>The documents are requests of the API: they have the members its decoders admit, of the right types.\<close>

lemmas seed_members = decodeStruct_def createAccountFields_def transferFields_def findField_def

lemma seed_account_decodes:
  "\<exists>vals. decodeStruct pt createAccountFields seedSystem = Inr vals"
  "\<exists>vals. decodeStruct pt createAccountFields (seedAccount i) = Inr vals"
  by (simp_all add: seedSystem_def seedAccount_def seed_members)

lemma seed_funding_decodes:
  assumes "in64 amount"
  shows "\<exists>vals. decodeStruct pt transferFields (seedFunding amount i) = Inr vals"
  using assms by (simp add: seedFunding_def seed_members)

end
