(* ===== verification/Process.thy ===== *)
theory Process
  imports Api_Server Config_Load
begin

text \<open>
  The set-up every process shares: \<open>NewLogger\<close> and \<open>Logger\<close> of \<open>internal/observability/logging.go\<close>,
  \<open>Open\<close> of \<open>internal/storage/postgres.go\<close>, \<open>Ping\<close> and \<open>EnsureTopics\<close> of
  \<open>internal/kafka/producer.go\<close> with \<open>NewProducer\<close> and \<open>NewConsumer\<close>, and \<open>Build\<close> of \<open>internal/app/app.go\<close>. What the driver of
  PostgreSQL and the Kafka client answer is an argument.
\<close>

subsection \<open>Logging\<close>

datatype level = LevelDebug | LevelInfo | LevelWarn | LevelError

definition lower :: "string \<Rightarrow> string" where
  "lower = map (\<lambda>c. if CHR ''A'' \<le> c \<and> c \<le> CHR ''Z'' then char_of (of_char c + 32 :: nat) else c)"

definition logLevel :: "string \<Rightarrow> level" where
  "logLevel s =
     (let l = lower s in
      if l = ''debug'' then LevelDebug else if l = ''warn'' then LevelWarn else if l = ''error'' then LevelError else LevelInfo)"

text \<open>A logger is its level and its attributes; \<open>Logger\<close> adds the identifiers of the context.\<close>

record logger =
  lg_level :: level
  lg_attrs :: "(string \<times> string) list"

definition NewLogger :: "string \<Rightarrow> string \<Rightarrow> logger" where
  "NewLogger service l = \<lparr>lg_level = logLevel l, lg_attrs = [(''service'', service)]\<rparr>"

definition Logger :: "logger \<Rightarrow> ctx \<Rightarrow> logger" where
  "Logger base c =
     base\<lparr>lg_attrs := lg_attrs base @ filter (\<lambda>(k, v). v \<noteq> [])
       [(''request_id'', RequestID c), (''correlation_id'', CorrelationID c), (''transaction_id'', TransactionIDOf c)]\<rparr>"

subsection \<open>The database pool\<close>

record pool_config =
  pc_MaxConns :: int
  pc_MinConns :: int
  pc_MaxConnLifetime :: time
  pc_HealthCheckPeriod :: time
  pc_RuntimeParams :: "(string \<times> string) list"

record driver =
  dr_ParseConfig :: "string \<Rightarrow> goerr + pool_config"
  dr_NewWithConfig :: "pool_config \<Rightarrow> goerr option"

record DB =
  db_pool :: pool_config
  db_maxRetries :: int

text \<open>\<open>Duration.Milliseconds\<close> truncates towards zero.\<close>

definition msString :: "time \<Rightarrow> string" where
  "msString d = decimal (sgn d * (\<bar>d\<bar> div 10 ^ 6))"

definition poolConfig :: "Config \<Rightarrow> pool_config \<Rightarrow> pool_config" where
  "poolConfig cfg pc =
     pc\<lparr>pc_MaxConns := DBMaxConns cfg, pc_MinConns := DBMinConns cfg,
        pc_MaxConnLifetime := 3600 * 10 ^ 9, pc_HealthCheckPeriod := 30 * 10 ^ 9,
        pc_RuntimeParams := fold (\<lambda>(k, v). AList.update k v)
          [(''lock_timeout'', msString (DBLockTimeout cfg)), (''statement_timeout'', msString (DBStatementTime cfg)),
           (''idle_in_transaction_session_timeout'', msString (30 * 10 ^ 9)), (''application_name'', ServiceName cfg)]
          (pc_RuntimeParams pc)\<rparr>"

definition Open :: "env \<Rightarrow> driver \<Rightarrow> Config \<Rightarrow> DB comp" where
  "Open env dr cfg =
     (case dr_ParseConfig dr (DatabaseURL cfg) of
        Inl e \<Rightarrow> throw (Wrap (Sprintf ''storage: parse database url: %w'' []) e)
      | Inr pc \<Rightarrow>
          (case dr_NewWithConfig dr (poolConfig cfg pc) of
             Some e \<Rightarrow> throw (Wrap (Sprintf ''storage: create pool: %w'' []) e)
           | None \<Rightarrow>
               andThen (mapErr (Wrap (Sprintf ''storage: ping: %w'' [])) (PingDB env)) (\<lambda>_.
               ret \<lparr>db_pool = poolConfig cfg pc, db_maxRetries = DBMaxTxRetries cfg\<rparr>)))"

subsection \<open>Kafka\<close>

text \<open>
  The calls of the client library, on any state of the cluster: to open a connection, to ask for
  the brokers or the controller, and to create topics (name, partitions, replication).
\<close>

record 'k cluster =
  kc_dial :: "string \<Rightarrow> 'k \<Rightarrow> goerr option \<times> 'k"
  kc_brokers :: "'k \<Rightarrow> goerr option \<times> 'k"
  kc_controller :: "'k \<Rightarrow> (goerr + string \<times> int) \<times> 'k"
  kc_createTopics :: "(string \<times> int \<times> int) list \<Rightarrow> 'k \<Rightarrow> goerr option \<times> 'k"

definition noBrokers :: goerr where
  "noBrokers = ErrOther ''kafka: no brokers configured''"

definition PingKafka :: "'k cluster \<Rightarrow> string list \<Rightarrow> 'k \<Rightarrow> goerr option \<times> 'k" where
  "PingKafka kc brokers k =
     (case brokers of
        [] \<Rightarrow> (Some noBrokers, k)
      | b # _ \<Rightarrow>
          (case kc_dial kc b k of
             (Some e, k1) \<Rightarrow> (Some (Wrap (Sprintf ''kafka: dial %s: %w'' [AStr b]) e), k1)
           | (None, k1) \<Rightarrow>
               (case kc_brokers kc k1 of
                  (Some e, k2) \<Rightarrow> (Some (Wrap (Sprintf ''kafka: metadata: %w'' []) e), k2)
                | (None, k2) \<Rightarrow> (None, k2))))"

definition EnsureTopics :: "'k cluster \<Rightarrow> string list \<Rightarrow> int \<Rightarrow> string list \<Rightarrow> 'k \<Rightarrow> goerr option \<times> 'k" where
  "EnsureTopics kc brokers partitions topics k =
     (case brokers of
        [] \<Rightarrow> (Some noBrokers, k)
      | b # _ \<Rightarrow>
          (case kc_dial kc b k of
             (Some e, k1) \<Rightarrow> (Some (Wrap (Sprintf ''kafka: dial: %w'' []) e), k1)
           | (None, k1) \<Rightarrow>
               (case kc_controller kc k1 of
                  (Inl e, k2) \<Rightarrow> (Some (Wrap (Sprintf ''kafka: controller: %w'' []) e), k2)
                | (Inr (host, port), k2) \<Rightarrow>
                    (case kc_dial kc (host @ '':'' @ decimal port) k2 of
                       (Some e, k3) \<Rightarrow> (Some (Wrap (Sprintf ''kafka: dial controller: %w'' []) e), k3)
                     | (None, k3) \<Rightarrow>
                         (case kc_createTopics kc (map (\<lambda>t. (t, partitions, 1)) topics) k3 of
                            (Some e, k4) \<Rightarrow> (Some (Wrap (Sprintf ''kafka: create topics: %w'' []) e), k4)
                          | (None, k4) \<Rightarrow> (None, k4))))))"

text \<open>
  The writer and the group reader as the code configures them. What they do is the business of the
  client: a \<open>broker\<close> acknowledges a message that every replica has written, or not, and tries once.
\<close>

datatype acks = RequireNone | RequireOne | RequireAll
datatype balancer = HashBalancer | RoundRobin

record writer_config =
  wc_Addr :: "string list"
  wc_Balancer :: balancer
  wc_RequiredAcks :: acks
  wc_MaxAttempts :: int
  wc_Async :: bool
  wc_AllowAutoTopicCreation :: bool
  wc_WriteTimeout :: time
  wc_ReadTimeout :: time
  wc_BatchTimeout :: time

record Producer =
  pr_writer :: writer_config
  pr_timeout :: time

definition NewProducer :: "Config \<Rightarrow> Producer" where
  "NewProducer cfg =
     \<lparr>pr_writer = \<lparr>wc_Addr = KafkaBrokers cfg, wc_Balancer = HashBalancer, wc_RequiredAcks = RequireAll, wc_MaxAttempts = 1,
        wc_Async = False, wc_AllowAutoTopicCreation = True, wc_WriteTimeout = KafkaTimeout cfg, wc_ReadTimeout = KafkaTimeout cfg,
        wc_BatchTimeout = 10 * 10 ^ 6\<rparr>,
      pr_timeout = KafkaTimeout cfg\<rparr>"

datatype start_offset = FirstOffset | LastOffset

record reader_config =
  rd_Brokers :: "string list"
  rd_GroupID :: string
  rd_GroupTopics :: "string list"
  rd_MinBytes :: int
  rd_MaxBytes :: int
  rd_MaxWait :: time
  rd_CommitInterval :: time
  rd_StartOffset :: start_offset

record Consumer =
  cn_reader :: reader_config
  cn_topics :: "string list"

definition NewConsumer :: "Config \<Rightarrow> string \<Rightarrow> string list \<Rightarrow> Consumer" where
  "NewConsumer cfg grp topics =
     \<lparr>cn_reader = \<lparr>rd_Brokers = KafkaBrokers cfg, rd_GroupID = grp, rd_GroupTopics = topics, rd_MinBytes = 1,
        rd_MaxBytes = 10 * 2 ^ 20, rd_MaxWait = 500 * 10 ^ 6, rd_CommitInterval = 0, rd_StartOffset = FirstOffset\<rparr>,
      cn_topics = topics\<rparr>"

subsection \<open>Build\<close>

record Deps =
  dp_Config :: Config
  dp_Logger :: logger
  dp_Metrics :: "collector list"
  dp_DB :: DB
  dp_Redis :: "redis_client option"

text \<open>
  The registry of failpoints is part of the world of the process. \<open>redisOf\<close> is the client for a
  configuration; its answer to the ping is only logged. \<open>lib\<close> are the collectors of the Prometheus
  library.
\<close>

definition Build ::
  "collector list \<Rightarrow> env \<Rightarrow> driver \<Rightarrow> (Config \<Rightarrow> redis_client) \<Rightarrow> environ \<Rightarrow> string option \<Rightarrow> int \<Rightarrow> string \<Rightarrow> Deps acomp" where
  "Build lib env dr redisOf getenv hostname pid serviceName =
     (case Load getenv hostname pid serviceName of
        Inl e \<Rightarrow> throw e
      | Inr cfg \<Rightarrow>
          andThen (\<lambda>s. (NewMetrics lib, s)) (\<lambda>metrics.
          case Parse (NewRegistry (FailpointsEnabled cfg)) (Failpoints cfg) of
             (Some e, reg) \<Rightarrow> throw e
           | (None, reg) \<Rightarrow>
               andThen (\<lambda>s. (Ret (), ((fst s)\<lparr>fps := reg\<rparr>, snd s))) (\<lambda>_.
               andThen (onDB (mapErr (Wrap (Sprintf ''app: postgres: %w'' [])) (Open env dr cfg))) (\<lambda>db.
               andThen (if RedisEnabled cfg then andThen (redisPing (redisOf cfg)) (\<lambda>_. ret (Some (redisOf cfg))) else ret None) (\<lambda>rdb.
               ret \<lparr>dp_Config = cfg, dp_Logger = NewLogger (ServiceName cfg) (LogLevel cfg), dp_Metrics = metrics,
                 dp_DB = db, dp_Redis = rdb\<rparr>)))))"

text \<open>The options of \<open>cmd/api\<close>; the handlers find the registry in the world.\<close>

definition apiOptions :: "env \<Rightarrow> broker \<Rightarrow> Deps \<Rightarrow> Options" where
  "apiOptions env brk deps =
     \<lparr>op_Config = dp_Config deps, op_DB = env,
      op_Cache = NewCache (dp_Redis deps) (IdempotencyCacheTTL (dp_Config deps)) (RedisTimeout (dp_Config deps)),
      op_Redis = dp_Redis deps, op_Producer = brk\<rparr>"

subsection \<open>What a started process has\<close>

lemma parseParts_disabled:
  assumes "\<not> Enabled r" and "parseParts r ps = (None, r')"
  shows "r' = r"
  using assms by (induction r ps rule: parseParts.induct) (auto simp: Let_def Arm_def split: if_splits option.splits)

lemma Parse_disabled: "\<not> Enabled r \<Longrightarrow> Parse r spec = (None, r') \<Longrightarrow> r' = r"
  by (auto simp: Parse_def split: if_splits dest: parseParts_disabled)

lemma Open_settings:
  assumes "Open env dr cfg w = (Ret d, w')"
  shows "map_of (pc_RuntimeParams (db_pool d)) ''lock_timeout'' = Some (msString (DBLockTimeout cfg)) \<and>
    map_of (pc_RuntimeParams (db_pool d)) ''statement_timeout'' = Some (msString (DBStatementTime cfg)) \<and>
    db_maxRetries d = DBMaxTxRetries cfg \<and> db w' = db w \<and> fps w' = fps w"
  using assms
  by (auto simp: Open_def poolConfig_def PingDB_def pool_sql_def sql_def throw_def andThen_def mapErr_def ret_def tickw_def update_conv'
      split: commit_fault.splits sum.splits option.splits)

text \<open>
  A process that started has at least one attempt for every transaction, its timeouts set, a Redis
  client exactly when Redis is enabled, whatever Redis answers, and, with failpoints disabled,
  none armed.
\<close>

lemma Build_ready:
  assumes "Build lib env dr redisOf getenv hostname pid serviceName (w, x) = (Ret deps, (w', x'))"
  shows "Load getenv hostname pid serviceName = Inr (dp_Config deps) \<and> 1 \<le> db_maxRetries (dp_DB deps) \<and>
    dp_Redis deps = (if RedisEnabled (dp_Config deps) then Some (redisOf (dp_Config deps)) else None) \<and>
    (\<not> FailpointsEnabled (dp_Config deps) \<longrightarrow> fps w' = NewRegistry False)"
proof -
  obtain cfg where cfg: "Load getenv hostname pid serviceName = Inr cfg"
    using assms by (auto simp: Build_def throw_def split: sum.splits)
  obtain ms where ms: "NewMetrics lib = (Ret ms :: collector list result)"
    using assms unfolding Build_def cfg by (auto simp: andThen_Ret)
  obtain reg where reg: "Parse (NewRegistry (FailpointsEnabled cfg)) (Failpoints cfg) = (None, reg)"
    using assms unfolding Build_def cfg by (auto simp: andThen_def ms throw_def split: prod.splits option.splits)
  let ?w = "w\<lparr>fps := reg\<rparr>"
  obtain d w1 where d: "Open env dr cfg ?w = (Ret d, w1)"
    and rest: "andThen (if RedisEnabled cfg then andThen (redisPing (redisOf cfg)) (\<lambda>_. ret (Some (redisOf cfg))) else ret None) (\<lambda>rdb.
      ret \<lparr>dp_Config = cfg, dp_Logger = NewLogger (ServiceName cfg) (LogLevel cfg), dp_Metrics = ms, dp_DB = d, dp_Redis = rdb\<rparr>) (w1, x) = (Ret deps, (w', x'))"
    using assms unfolding Build_def cfg
    by (auto simp: reg andThen_Ret ms mapErr_Ret onDB_def split: prod.splits)
  from rest have deps: "dp_Config deps = cfg" "dp_DB deps = d" "dp_Redis deps = (if RedisEnabled cfg then Some (redisOf cfg) else None)"
    and w': "fps w' = fps w1"
    by (auto simp: andThen_Ret ret_def redisPing_def redisDo_def Let_def tickw_def split: if_splits ack.splits)
  have "1 \<le> DBMaxTxRetries cfg" using cfg by (auto simp: Load_def Let_def split: if_splits)
  moreover have "reg = NewRegistry False" if "\<not> FailpointsEnabled cfg"
    using reg that Parse_disabled[of "NewRegistry False"] by (simp add: Enabled_def NewRegistry_def)
  ultimately show ?thesis using cfg deps w' Open_settings[OF d] by simp
qed

text \<open>A lock timeout below a millisecond reaches PostgreSQL as 0, which switches it off.\<close>

lemma msString_small: "0 \<le> d \<Longrightarrow> d < 10 ^ 6 \<Longrightarrow> msString d = msString 0"
  by (simp add: msString_def)

end
