(* ===== verification/Commands.thy ===== *)
theory Commands
  imports Process Migrate_Properties Publisher_Facts
begin

text \<open>
  The commands with logic of their own: \<open>cmd/migrate\<close> and \<open>cmd/replay\<close>. The values of the flags
  are arguments; a command ends with the lines it prints or with the error it fails with (exit
  status 1).
\<close>

subsection \<open>cmd/migrate\<close>

text \<open>
  \<open>waitForDB\<close> reads the clock, pings, and pauses for a second or until the context is done, which
  may come first or not (\<open>timer\<close>). \<open>None\<close> is a wait that has not ended within the fuel.
\<close>

definition mtick :: "'s mworld \<Rightarrow> 's mworld" where
  "mtick w = w\<lparr>mw_tick := mw_tick w + 1\<rparr>"

fun waitForDB :: "nat \<Rightarrow> env \<Rightarrow> (nat \<Rightarrow> bool) \<Rightarrow> time \<Rightarrow> goerr option \<Rightarrow> 's mworld \<Rightarrow> (goerr option) option \<times> 's mworld" where
  "waitForDB 0 env timer deadline lastErr w = (None, w)"
| "waitForDB (Suc n) env timer deadline lastErr w =
     (let w1 = mtick w; w2 = mtick w1; w3 = mtick w2 in
      if go_clock env (mw_tick w) < deadline then
        (case fault env (mw_tick w1) of
           None \<Rightarrow> (Some None, w2)
         | Some e \<Rightarrow>
             (case ctx_done env (mw_tick w2) of
                Some ce \<Rightarrow> if timer (mw_tick w2) then waitForDB n env timer deadline (Some e) w3 else (Some (Some ce), w3)
              | None \<Rightarrow> waitForDB n env timer deadline (Some e) w3))
      else (Some (Some (case lastErr of
          None \<Rightarrow> ErrOther ''database not reachable: %!w(<nil>)''
        | Some e \<Rightarrow> Wrap (Sprintf ''database not reachable: %w'' []) e)), w1))"

text \<open>\<open>%v\<close> of a slice of numbers.\<close>

fun joined :: "int list \<Rightarrow> string" where
  "joined [] = []"
| "joined [n] = decimal n"
| "joined (n # ns) = decimal n @ '' '' @ joined ns"

definition versionsText :: "int list \<Rightarrow> string" where
  "versionsText ns = ''['' @ joined ns @ '']''"

definition orFail :: "('s, int list \<times> goerr option) mcomp \<Rightarrow> (int list \<Rightarrow> string) \<Rightarrow> ('s, string) mcomp" where
  "orFail m text =
     andThen m (\<lambda>(versions, err). case err of Some e \<Rightarrow> throw e | None \<Rightarrow> ret (text versions))"

definition migrateDirection :: "env \<Rightarrow> 's scripts \<Rightarrow> (string \<times> string) list \<Rightarrow> string \<Rightarrow> int \<Rightarrow> ('s, string) mcomp" where
  "migrateDirection env sc files direction steps =
     (if direction = ''up'' then
        orFail (MigrateUp env sc files) (\<lambda>applied.
          if applied = [] then ''migrate: schema already up to date'' else ''migrate: applied '' @ versionsText applied)
      else if direction = ''down'' then
        orFail (MigrateDown env sc files steps) (\<lambda>reverted. ''migrate: reverted '' @ versionsText reverted)
      else if direction = ''status'' then
        andThen (AppliedVersions env) (\<lambda>versions. ret (''migrate: applied versions '' @ versionsText versions))
      else throw (ErrOther (sprintf (Sprintf ''unknown direction %q (want up, down or status)'' [AStr direction]))))"

text \<open>\<open>newPool\<close> is what \<open>pgxpool.New\<close> answers to a URL; the wait begins at the current time.\<close>

definition migrateMain ::
  "nat \<Rightarrow> env \<Rightarrow> (nat \<Rightarrow> bool) \<Rightarrow> 's scripts \<Rightarrow> (string \<times> string) list \<Rightarrow> (string \<Rightarrow> goerr option) \<Rightarrow>
   environ \<Rightarrow> string option \<Rightarrow> int \<Rightarrow> string \<Rightarrow> int \<Rightarrow> 's mworld \<Rightarrow> (string result) option \<times> 's mworld" where
  "migrateMain fuel env timer sc files newPool getenv hostname pid direction steps w =
     (case Load getenv hostname pid ''migrate'' of
        Inl e \<Rightarrow> (Some (Err e), w)
      | Inr cfg \<Rightarrow>
          (case newPool (DatabaseURL cfg) of
             Some e \<Rightarrow> (Some (Err (Wrap (Sprintf ''connect: %w'' []) e)), w)
           | None \<Rightarrow>
               (case waitForDB fuel env timer (go_clock env (mw_tick w) + 60 * 10 ^ 9) None (mtick w) of
                  (None, w1) \<Rightarrow> (None, w1)
                | (Some (Some e), w1) \<Rightarrow> (Some (Err e), w1)
                | (Some None, w1) \<Rightarrow>
                    (case migrateDirection env sc files direction steps w1 of (r, w2) \<Rightarrow> (Some r, w2)))))"

subsection \<open>cmd/replay\<close>

definition flagTime :: "(string \<Rightarrow> goerr + time) \<Rightarrow> string \<Rightarrow> string \<Rightarrow> goerr + time option" where
  "flagTime pt what s =
     (if s = [] then Inr None
      else case pt s of Inl e \<Rightarrow> Inl (Wrap (Sprintf what []) e) | Inr t \<Rightarrow> Inr (Some t))"

definition replayRequest :: "(string \<Rightarrow> goerr + time) \<Rightarrow> string \<Rightarrow> string \<Rightarrow> string \<Rightarrow> int \<Rightarrow> bool \<Rightarrow> goerr + ReplayRequest" where
  "replayRequest pt transactionID fromStr toStr limit dryRun =
     (case flagTime pt ''invalid -from: %w'' fromStr of
        Inl e \<Rightarrow> Inl e
      | Inr f \<Rightarrow>
          (case flagTime pt ''invalid -to: %w'' toStr of
             Inl e \<Rightarrow> Inl e
           | Inr t \<Rightarrow>
               (let req = \<lparr>rq_TransactionID = transactionID, rq_From = f, rq_To = t, rq_Limit = limit,
                      rq_RequestedBy = ''cmd/replay'', rq_DryRun = dryRun\<rparr>
                in case ValidateReplay req of Some e \<Rightarrow> Inl e | None \<Rightarrow> Inr req)))"

text \<open>The exit status and the result that is printed, if any.\<close>

definition replayCommand ::
  "(string \<Rightarrow> goerr + time) \<Rightarrow> env \<Rightarrow> broker \<Rightarrow> string \<Rightarrow> string \<Rightarrow> string \<Rightarrow> int \<Rightarrow> bool \<Rightarrow> (int \<times> ReplayResult option) kcomp" where
  "replayCommand pt env brk transactionID fromStr toStr limit dryRun =
     (case replayRequest pt transactionID fromStr toStr limit dryRun of
        Inl e \<Rightarrow> ret (1, None)
      | Inr req \<Rightarrow>
          andThen (attempt (Replay env brk req)) (\<lambda>r.
            ret (case r of
                   Inl e \<Rightarrow> (1, None)
                 | Inr result \<Rightarrow> (if rr_Failed result > 0 then 1 else 0, Some result))))"

subsection \<open>The waits end, the answers are right\<close>

text \<open>
  The clock moves by a second between two rounds of a wait: \<open>k\<close> seconds before the deadline leave
  at most \<open>k\<close> rounds.
\<close>

lemma waitForDB_ends:
  assumes "\<And>i. go_clock env (i + 3) \<ge> go_clock env i + 10 ^ 9"
    and "deadline \<le> go_clock env (mw_tick w) + int k * 10 ^ 9" and "k < n"
  shows "\<exists>x w'. waitForDB n env timer deadline lastErr w = (Some x, w')"
  using assms(2,3)
proof (induction n arbitrary: k w lastErr)
  case (Suc n)
  show ?case
  proof (cases k)
    case 0
    then show ?thesis using Suc.prems by (simp add: Let_def)
  next
    case (Suc j)
    let ?w3 = "mtick (mtick (mtick w))"
    have "deadline \<le> go_clock env (mw_tick ?w3) + int j * 10 ^ 9"
      using Suc.prems(1) assms(1)[of "mw_tick w"] Suc by (simp add: mtick_def numeral_3_eq_3)
    moreover have "j < n" using Suc.prems(2) Suc by simp
    ultimately have "\<exists>x w'. waitForDB n env timer deadline le ?w3 = (Some x, w')" for le using Suc.IH by blast
    then show ?thesis by (auto simp: Let_def split: option.splits)
  qed
qed simp

text \<open>Waiting changes nothing in the database.\<close>

lemma waitForDB_quiet:
  assumes "waitForDB n env timer deadline lastErr w = (x, w')"
  shows "mw_cur w' = mw_cur w \<and> mw_base w' = mw_base w \<and> mw_open w' = mw_open w"
  using assms
  by (induction n arbitrary: w lastErr) (fastforce simp: Let_def mtick_def split: if_splits option.splits)+

text \<open>A dry run publishes nothing and exits with 0 when it succeeds.\<close>

lemma replayLoop_dry:
  assumes "rq_DryRun req"
  shows "\<exists>res. replayLoop brk req i t n records result s = (Ret res, s) \<and> rr_Failed res = rr_Failed result \<and>
    rr_EventIDs res = rr_EventIDs result @ map or_ID records"
proof (induction records arbitrary: n result)
  case Nil
  then show ?case by (simp add: ret_def)
next
  case (Cons rec records)
  from Cons.IH[of "Suc n" "result\<lparr>rr_EventIDs := rr_EventIDs result @ [or_ID rec]\<rparr>"] assms show ?case
    by (simp add: Let_def)
qed

lemma Replay_dry:
  assumes "rq_DryRun req" and "Replay env brk req s = (r, s')"
  shows "snd s' = snd s \<and> db (fst s') = db (fst s) \<and> (\<forall>p. r \<noteq> Panic p) \<and> (\<forall>result. r = Ret result \<longrightarrow> rr_Failed result = 0)"
proof (cases "ValidateReplay req")
  case (Some e)
  with assms show ?thesis by (auto simp: Replay_def throw_def)
next
  case None
  let ?limit = "if rq_Limit req = 0 then 1000 else rq_Limit req"
  obtain r1 w1 where l: "ListForReplay env (rq_TransactionID req) (rq_From req) (rq_To req) ?limit (fst s) = (r1, w1)"
    by (meson surj_pair)
  have np: "db w1 = db (fst s) \<and> (\<forall>p. r1 \<noteq> Panic p)"
    using l by (auto simp: ListForReplay_def mapErr_def pool_sql_def sql_def list_for_replay_stmt_def tickw_def split: commit_fault.splits option.splits sum.splits if_splits)
  show ?thesis
  proof (cases r1)
    case (Ret records)
    from replayLoop_dry[OF assms(1), where brk = brk and records = records and n = 0] obtain res where
      "replayLoop brk req (uuid_src env (tick w1)) (go_clock env (tick (tickw w1))) 0 records
        \<lparr>rr_ReplayID = uuid_src env (tick w1), rr_Matched = int (length records), rr_Published = 0, rr_Failed = 0,
         rr_DryRun = rq_DryRun req, rr_EventIDs = []\<rparr> (tickw (tickw w1), snd s) = (Ret res, (tickw (tickw w1), snd s))" "rr_Failed res = 0"
      by force
    with assms(2) None l Ret np show ?thesis
      by (auto simp: Replay_def Let_def andThen_def onDB_def newUUID_def goNow_def tickw_def)
  qed (use assms(2) None l np in \<open>auto simp: Replay_def Let_def andThen_def onDB_def\<close>)
qed

lemma replay_dry_run:
  assumes "replayCommand pt env brk tid f t limit True s = (r, s')"
  shows "snd s' = snd s \<and> db (fst s') = db (fst s) \<and> (r = Ret (1, None) \<or> (\<exists>result. r = Ret (0, Some result)))"
proof (cases "replayRequest pt tid f t limit True")
  case (Inl e)
  with assms show ?thesis by (auto simp: replayCommand_def ret_def)
next
  case (Inr req)
  then have dry: "rq_DryRun req"
    by (auto simp: replayRequest_def Let_def split: sum.splits option.splits)
  obtain x s1 where x: "Replay env brk req s = (x, s1)" by (meson surj_pair)
  from Replay_dry[OF dry x] assms Inr x show ?thesis
    by (cases x) (auto simp: replayCommand_def andThen_def attempt_def ret_def)
qed

end
