(* ===== verification/Access_Log.thy ===== *)
theory Access_Log
  imports Api_Server
begin

text \<open>
  \<open>statusRecorder\<close> of \<open>internal/api/middleware.go\<close>, through which every routed handler writes its
  answer: it notes the status for the access log and passes the writes on. The handlers of \<open>Api\<close>
  write to the response directly; the recorder does not change what the client gets, and the status
  it notes is the one that is sent.
\<close>

record statusRecorder =
  sr_status :: int
  sr_code :: string
  sr_written :: bool

type_synonym 'a rcomp = "statusRecorder \<times> (world \<times> outside) \<Rightarrow> 'a result \<times> (statusRecorder \<times> (world \<times> outside))"

definition newRecorder :: statusRecorder where
  "newRecorder = \<lparr>sr_status = 200, sr_code = [], sr_written = False\<rparr>"

text \<open>The writer of \<open>net/http\<close> sends status 200 before the first byte of a body without one.\<close>

definition writeBody :: "json \<Rightarrow> unit acomp" where
  "writeBody j = andThen (writeHeader 200) (\<lambda>_. writeDoc j)"

definition onWriter :: "'a acomp \<Rightarrow> 'a rcomp" where
  "onWriter m s = (case m (snd s) of (x, s') \<Rightarrow> (x, (fst s, s')))"

definition WriteHeader :: "int \<Rightarrow> unit rcomp" where
  "WriteHeader status s =
     (if sr_written (fst s) then (Ret (), s)
      else onWriter (writeHeader status) ((fst s)\<lparr>sr_status := status, sr_written := True\<rparr>, snd s))"

definition WriteBytes :: "json \<Rightarrow> unit rcomp" where
  "WriteBytes j =
     andThen (\<lambda>s. if \<not> sr_written (fst s) then WriteHeader 200 s else (Ret (), s)) (\<lambda>_. onWriter (writeBody j))"

text \<open>\<open>writeError\<close> leaves its code with the recorder.\<close>

definition setCode :: "string \<Rightarrow> unit rcomp" where
  "setCode c s = (Ret (), ((fst s)\<lparr>sr_code := c\<rparr>, snd s))"

subsection \<open>Transparency\<close>

text \<open>What a handler does to its writer, through the recorder and without it.\<close>

datatype response_op = Header int | Body json | ErrorCode string

fun recorded :: "response_op list \<Rightarrow> unit rcomp" where
  "recorded [] = ret ()"
| "recorded (Header c # ws) = andThen (WriteHeader c) (\<lambda>_. recorded ws)"
| "recorded (Body j # ws) = andThen (WriteBytes j) (\<lambda>_. recorded ws)"
| "recorded (ErrorCode c # ws) = andThen (setCode c) (\<lambda>_. recorded ws)"

fun direct :: "response_op list \<Rightarrow> unit acomp" where
  "direct [] = ret ()"
| "direct (Header c # ws) = andThen (writeHeader c) (\<lambda>_. direct ws)"
| "direct (Body j # ws) = andThen (writeBody j) (\<lambda>_. direct ws)"
| "direct (ErrorCode c # ws) = direct ws"

definition in_step :: "statusRecorder \<Rightarrow> outside \<Rightarrow> bool" where
  "in_step rec out \<longleftrightarrow> ans_status out = (if sr_written rec then Some (sr_status rec) else None) \<and>
     (\<not> sr_written rec \<longrightarrow> sr_status rec = 200)"

lemma WriteHeader_step:
  assumes "in_step rec (snd s)"
  shows "\<exists>rec'. WriteHeader c (rec, s) = (fst (writeHeader c s), (rec', snd (writeHeader c s))) \<and>
    (fst (writeHeader c s) = Ret () \<longrightarrow> in_step rec' (snd (snd (writeHeader c s))))"
  using assms by (auto simp: WriteHeader_def onWriter_def writeHeader_def in_step_def)

lemma WriteBytes_step:
  assumes "in_step rec (snd s)"
  shows "\<exists>rec'. WriteBytes j (rec, s) = (fst (writeBody j s), (rec', snd (writeBody j s))) \<and>
    fst (writeBody j s) = Ret () \<and> in_step rec' (snd (snd (writeBody j s)))"
  using assms
  by (auto simp: WriteBytes_def WriteHeader_def onWriter_def writeBody_def writeHeader_def writeDoc_def andThen_def in_step_def)

lemma recorder_transparent:
  assumes "in_step rec (snd s)" and "direct ws s = (x, s')"
  shows "\<exists>rec'. recorded ws (rec, s) = (x, (rec', s')) \<and> (x = Ret () \<longrightarrow> in_step rec' (snd s'))"
  using assms
proof (induction ws arbitrary: rec s)
  case Nil
  then show ?case by (auto simp: ret_def)
next
  case (Cons op ws)
  show ?case
  proof (cases op)
    case (Header c)
    from WriteHeader_step[OF Cons.prems(1), of c] obtain rec1 where
      h: "WriteHeader c (rec, s) = (fst (writeHeader c s), (rec1, snd (writeHeader c s)))"
        "fst (writeHeader c s) = Ret () \<longrightarrow> in_step rec1 (snd (snd (writeHeader c s)))" by blast
    then show ?thesis
      using Cons.IH[of rec1 "snd (writeHeader c s)"] Cons.prems(2)
      by (auto simp: Header andThen_def split: prod.splits res.splits)
  next
    case (Body j)
    from WriteBytes_step[OF Cons.prems(1), of j] obtain rec1 where
      h: "WriteBytes j (rec, s) = (fst (writeBody j s), (rec1, snd (writeBody j s)))" "fst (writeBody j s) = Ret ()"
        "in_step rec1 (snd (snd (writeBody j s)))" by blast
    then show ?thesis
      using Cons.IH[of rec1 "snd (writeBody j s)"] Cons.prems(2)
      by (auto simp: Body andThen_def split: prod.splits res.splits)
  next
    case (ErrorCode c)
    have "in_step (rec\<lparr>sr_code := c\<rparr>) (snd s)" using Cons.prems(1) by (simp add: in_step_def)
    from Cons.IH[OF this] Cons.prems(2) ErrorCode show ?thesis by (simp add: andThen_def setCode_def)
  qed
qed

text \<open>The status in the access log is the status sent; a handler that writes nothing is logged, and answered, with 200.\<close>

lemma logged_status:
  assumes "ans_status (snd s) = None" and "direct ws s = (Ret (), s')"
  shows "\<exists>rec. recorded ws (newRecorder, s) = (Ret (), (rec, s')) \<and>
    sr_status rec = (case ans_status (snd s') of None \<Rightarrow> 200 | Some c \<Rightarrow> c)"
proof -
  have "in_step newRecorder (snd s)" using assms(1) by (simp add: in_step_def newRecorder_def)
  from recorder_transparent[OF this assms(2)] show ?thesis by (auto simp: in_step_def split: if_splits)
qed

end
