(* ===== verification/Interleaving.thy ===== *)
theory Interleaving
  imports System
begin

text \<open>
  The processes of the system side by side. \<open>System\<close> takes a cycle of a worker as one step; here a
  step is a single call on PostgreSQL, Redis, Kafka or an endpoint, and any number of publishers,
  consumers, delivery workers and API processes take steps in any order, crash and start again. A
  process is where it stands in its loop, with what it has read so far; every step runs the call the
  code makes there. A transaction is one call: PostgreSQL serialises those that touch the same
  balances or key (\<open>Locking\<close>). Reads and replays are requests taken whole. That the code runs in
  these steps is shown in \<open>Step_Runs\<close>.
\<close>

subsection \<open>A publisher\<close>

text \<open>
  \<open>RunOnce\<close>: before the next event of the batch, after an acknowledged publication, before a failure
  is recorded, before the dead letter is published.
\<close>

datatype publisher_at =
    Resting
  | Batch "outbox_record list"
  | Sent outbox_record "outbox_record list"
  | Failing outbox_record goerr "outbox_record list"
  | Dying outbox_record goerr "outbox_record list"

inductive pub_step :: "(string \<Rightarrow> string option) \<Rightarrow> publisher_at \<times> database \<times> Message list \<Rightarrow> publisher_at \<times> database \<times> Message list \<Rightarrow> bool"
  for uin :: "string \<Rightarrow> string option" where
  claim: "uuid_in env = uin \<Longrightarrow> ClaimOutbox env wid limit ttl locked w = (r, w') \<Longrightarrow> db w = d \<Longrightarrow>
    pub_step uin (Resting, d, l) (case r of Ret batch \<Rightarrow> Batch batch | _ \<Rightarrow> Resting, db w', l)"
| publish: "Publish brk (eventMessage rec) (w, l) = (r, (w', l')) \<Longrightarrow> db w = d \<Longrightarrow>
    pub_step uin (Batch (rec # rs), d, l) (case r of Ret _ \<Rightarrow> Sent rec rs | Err e \<Rightarrow> Failing rec e rs | Panic _ \<Rightarrow> Resting, db w', l')"
| inject: "pub_step uin (Batch (rec # rs), d, l) (Failing rec e rs, d, l)"
| unmarked: "pub_step uin (Sent rec rs, d, l) (Batch rs, d, l)"
| mark: "uuid_in env = uin \<Longrightarrow> MarkPublished env (or_ID rec) w = (r, w') \<Longrightarrow> db w = d \<Longrightarrow>
    pub_step uin (Sent rec rs, d, l) (Batch rs, db w', l)"
| failed: "uuid_in env = uin \<Longrightarrow>
    MarkFailed env (or_ID rec) (err_text env e) (Backoff (or_Attempts rec + 1) (OutboxBaseBackoff (cfg :: Config)) (OutboxMaxBackoff cfg) u)
      (OutboxMaxAttempts cfg) w = (r, w') \<Longrightarrow> db w = d \<Longrightarrow>
    pub_step uin (Failing rec e rs, d, l) (case r of Ret (k, True) \<Rightarrow> Dying rec e rs | _ \<Rightarrow> Batch rs, db w', l)"
| bury: "publishToDLQ env cfg brk rec e (w, l) = (r, (w', l')) \<Longrightarrow> db w = d \<Longrightarrow>
    pub_step uin (Dying rec e rs, d, l) (Batch rs, db w', l')"
| stop: "pub_step uin (pc, d, l) (Resting, d, l)"

subsection \<open>A consumer\<close>

text \<open>\<open>HandleEvent\<close>: between the deliveries it stores for the endpoints of one event.\<close>

datatype intake_at = NoMessage | Storing Envelope json "string list"

inductive intake_step :: "(string \<Rightarrow> string option) \<Rightarrow> intake_at \<times> database \<times> Message list \<Rightarrow> intake_at \<times> database \<times> Message list \<Rightarrow> bool"
  for uin :: "string \<Rightarrow> string option" where
  take: "msg \<in> set l \<Longrightarrow> unmarshalEnvelope (m_Value msg) = Some e \<Longrightarrow> ev_EventID e \<noteq> [] \<Longrightarrow>
    intake_step uin (NoMessage, d, l) (Storing e (m_Value msg) (WebhookEndpoints (cfg :: Config)), d, l)"
| store: "uuid_ok env \<Longrightarrow> uuid_in env = uin \<Longrightarrow>
    Enqueue env \<lparr>dl_ID = i, dl_EventID = ev_EventID e, dl_Endpoint = ep, dl_EventType = ev_EventType e,
      dl_TransactionID = ev_TransactionID e, dl_Payload = payload, dl_Status = [], dl_Attempts = 0, dl_LastError = [],
      dl_LastStatusCode = 0, dl_NextAttemptAt = 0, dl_DeliveredAt = None, dl_CreatedAt = 0\<rparr> w = (r, w') \<Longrightarrow> db w = d \<Longrightarrow>
    intake_step uin (Storing e payload (ep # eps), d, l) (case r of Ret _ \<Rightarrow> Storing e payload eps | _ \<Rightarrow> NoMessage, db w', l)"
| leave: "intake_step uin (pc, d, l) (NoMessage, d, l)"

subsection \<open>A delivery worker\<close>

text \<open>\<open>DeliverOnce\<close>: before the next delivery of the batch, after the endpoint has answered, before a failure is recorded.\<close>

datatype courier_at =
    AtRest
  | Due "Delivery list"
  | Answered Delivery int "Delivery list"
  | Refused Delivery string int "Delivery list"

inductive del_step :: "(string \<Rightarrow> string option) \<Rightarrow> courier_at \<times> database \<times> Post list \<Rightarrow> courier_at \<times> database \<times> Post list \<Rightarrow> bool"
  for uin :: "string \<Rightarrow> string option" where
  due: "ClaimDue env limit w = (r, w') \<Longrightarrow> db w = d \<Longrightarrow>
    del_step uin (AtRest, d, ps) (case r of Ret batch \<Rightarrow> Due batch | _ \<Rightarrow> AtRest, db w', ps)"
| send: "post cfg signer http dl (w, ps) = (Ret (code, err), (w', ps')) \<Longrightarrow> db w = d \<Longrightarrow>
    del_step uin (Due (dl # dls), d, ps) (case err of None \<Rightarrow> Answered dl code dls | Some e \<Rightarrow> Refused dl (err_text (env :: env) e) code dls, db w', ps')"
| refuse: "del_step uin (Due (dl # dls), d, ps) (Refused dl cause 0 dls, d, ps)"
| delivered: "uuid_in env = uin \<Longrightarrow> MarkDelivered env (dl_ID dl) code w = (r, w') \<Longrightarrow> db w = d \<Longrightarrow>
    del_step uin (Answered dl code dls, d, ps) (Due dls, db w', ps)"
| undelivered: "uuid_in env = uin \<Longrightarrow>
    MarkUndelivered env (dl_ID dl) cause code (Backoff (dl_Attempts dl + 1) (WebhookBaseBackoff (cfg :: Config)) (WebhookMaxBackoff cfg) u)
      (WebhookMaxAttempts cfg) w = (r, w') \<Longrightarrow> db w = d \<Longrightarrow>
    del_step uin (Refused dl cause code dls, d, ps) (Due dls, db w', ps)"
| rest: "del_step uin (pc, d, ps) (AtRest, d, ps)"

subsection \<open>A request that changes the ledger\<close>

text \<open>\<open>mutate\<close>: between the transaction and the write of its answer to the cache.\<close>

datatype api_at = Free | Unanswered string string string Result

inductive api_step :: "(string \<Rightarrow> string option) \<Rightarrow> api_at \<times> database \<times> redis \<Rightarrow> api_at \<times> database \<times> redis \<Rightarrow> bool"
  for uin :: "string \<Rightarrow> string option" where
  create: "uuid_ok env \<Longrightarrow> uuid_in env = uin \<Longrightarrow> CreateAccount env cfg cmd w = (r, w') \<Longrightarrow> db w = d \<Longrightarrow>
    ca_IdempotencyScope cmd = scopeCreateAccount \<Longrightarrow>
    api_step uin (Free, d, m) (case r of Ret x \<Rightarrow> Unanswered scopeCreateAccount (ca_IdempotencyKey cmd) (ca_RequestHash cmd) x | _ \<Rightarrow> Free, db w', m)"
| transfer: "uuid_ok env \<Longrightarrow> uuid_in env = uin \<Longrightarrow> in64 (tc_Amount cmd) \<Longrightarrow> Transfer env cfg ctx cmd w = (r, w') \<Longrightarrow> db w = d \<Longrightarrow>
    tc_IdempotencyScope cmd = scopeTransfer \<Longrightarrow>
    api_step uin (Free, d, m) (case r of Ret x \<Rightarrow> Unanswered scopeTransfer (tc_IdempotencyKey cmd) (tc_RequestHash cmd) x | _ \<Rightarrow> Free, db w', m)"
| reverse: "uuid_ok env \<Longrightarrow> uuid_in env = uin \<Longrightarrow> Reverse env cfg ctx cmd w = (r, w') \<Longrightarrow> db w = d \<Longrightarrow>
    rc_IdempotencyScope cmd = scopeReverse \<Longrightarrow>
    api_step uin (Free, d, m) (case r of Ret x \<Rightarrow> Unanswered scopeReverse (rc_IdempotencyKey cmd) (rc_RequestHash cmd) x | _ \<Rightarrow> Free, db w', m)"
| answer: "finishIdempotent srv scope key h x (w, out) = (r, (w', out')) \<Longrightarrow> db w = d \<Longrightarrow> redis_db out = m \<Longrightarrow>
    api_step uin (Unanswered scope key h x, d, m) (Free, db w', redis_db out')"
| lose: "redis_sub m' m \<Longrightarrow> api_step uin (pc, d, m) (pc, d, m')"
| crash: "api_step uin (pc, d, m) (Free, d, m)"

subsection \<open>All of them\<close>

record fleet =
  fl_sys :: system
  fl_pub :: "nat \<Rightarrow> publisher_at"
  fl_in :: "nat \<Rightarrow> intake_at"
  fl_del :: "nat \<Rightarrow> courier_at"
  fl_api :: "nat \<Rightarrow> api_at"

inductive fleet_step :: "(string \<Rightarrow> string option) \<Rightarrow> fleet \<Rightarrow> fleet \<Rightarrow> bool"
  for uin :: "string \<Rightarrow> string option" where
  publisher: "pub_step uin (fl_pub c i, sy_db (fl_sys c), sy_log (fl_sys c)) (pc, d, l) \<Longrightarrow>
    fleet_step uin c (c\<lparr>fl_sys := (fl_sys c)\<lparr>sy_db := d, sy_log := l\<rparr>, fl_pub := (fl_pub c)(i := pc)\<rparr>)"
| consumer: "intake_step uin (fl_in c i, sy_db (fl_sys c), sy_log (fl_sys c)) (pc, d, l) \<Longrightarrow>
    fleet_step uin c (c\<lparr>fl_sys := (fl_sys c)\<lparr>sy_db := d, sy_log := l\<rparr>, fl_in := (fl_in c)(i := pc)\<rparr>)"
| courier: "del_step uin (fl_del c i, sy_db (fl_sys c), sy_posts (fl_sys c)) (pc, d, ps) \<Longrightarrow>
    fleet_step uin c (c\<lparr>fl_sys := (fl_sys c)\<lparr>sy_db := d, sy_posts := ps\<rparr>, fl_del := (fl_del c)(i := pc)\<rparr>)"
| api: "api_step uin (fl_api c i, sy_db (fl_sys c), sy_redis (fl_sys c)) (pc, d, m) \<Longrightarrow>
    fleet_step uin c (c\<lparr>fl_sys := (fl_sys c)\<lparr>sy_db := d, sy_redis := m\<rparr>, fl_api := (fl_api c)(i := pc)\<rparr>)"
| whole: "uuid_ok (s_db srv) \<Longrightarrow> uuid_in (s_db srv) = uin \<Longrightarrow> serve srv meth path r (w, out) = (x, (w', out')) \<Longrightarrow>
    db w = sy_db (fl_sys c) \<Longrightarrow> redis_db out = sy_redis (fl_sys c) \<Longrightarrow> kafka_log out = sy_log (fl_sys c) \<Longrightarrow>
    fleet_step uin c (c\<lparr>fl_sys := (fl_sys c)\<lparr>sy_db := db w', sy_redis := redis_db out', sy_log := kafka_log out'\<rparr>\<rparr>)"

definition fleet_start :: fleet where
  "fleet_start = \<lparr>fl_sys = \<lparr>sy_db = empty_database, sy_redis = Map.empty, sy_log = [], sy_posts = []\<rparr>,
     fl_pub = (\<lambda>_. Resting), fl_in = (\<lambda>_. NoMessage), fl_del = (\<lambda>_. AtRest), fl_api = (\<lambda>_. Free)\<rparr>"

inductive fleet_reachable :: "(string \<Rightarrow> string option) \<Rightarrow> fleet \<Rightarrow> bool" for uin :: "string \<Rightarrow> string option" where
  start: "fleet_reachable uin fleet_start"
| step: "fleet_reachable uin c \<Longrightarrow> fleet_step uin c c' \<Longrightarrow> fleet_reachable uin c'"

subsection \<open>What never goes back\<close>

text \<open>Events and deliveries keep their identity, logs grow, completed records stay.\<close>

definition forward :: "system \<Rightarrow> system \<Rightarrow> bool" where
  "forward y y' \<longleftrightarrow>
     event_identity ` set (outbox_events (sy_db y)) \<subseteq> event_identity ` set (outbox_events (sy_db y')) \<and>
     wh_identity ` set (webhook_deliveries (sy_db y)) \<subseteq> wh_identity ` set (webhook_deliveries (sy_db y')) \<and>
     prefix (sy_log y) (sy_log y') \<and> prefix (sy_posts y) (sy_posts y') \<and> keeps_done (sy_db y) (sy_db y')"

lemma forward_refl [simp]: "forward y y"
  by (simp add: forward_def keeps_done_def)

text \<open>What a process relies on while others take steps.\<close>

fun records_at :: "publisher_at \<Rightarrow> outbox_record list" where
  "records_at Resting = []"
| "records_at (Batch rs) = rs"
| "records_at (Sent rec rs) = rec # rs"
| "records_at (Failing rec e rs) = rec # rs"
| "records_at (Dying rec e rs) = rec # rs"

definition pub_ok :: "system \<Rightarrow> publisher_at \<Rightarrow> bool" where
  "pub_ok y pc \<longleftrightarrow> (\<forall>rec \<in> set (records_at pc). reflects rec (sy_db y)) \<and>
     (case pc of Sent rec rs \<Rightarrow> eventMessage rec \<in> set (sy_log y) | _ \<Rightarrow> True)"

definition in_ok :: "system \<Rightarrow> intake_at \<Rightarrow> bool" where
  "in_ok y pc \<longleftrightarrow> (case pc of NoMessage \<Rightarrow> True
     | Storing e payload eps \<Rightarrow> unmarshalEnvelope payload = Some e \<and> (\<exists>msg \<in> set (sy_log y). m_Value msg = payload))"

fun deliveries_at :: "courier_at \<Rightarrow> Delivery list" where
  "deliveries_at AtRest = []"
| "deliveries_at (Due dls) = dls"
| "deliveries_at (Answered dl code dls) = dl # dls"
| "deliveries_at (Refused dl cause code dls) = dl # dls"

definition shows_row :: "Delivery \<Rightarrow> database \<Rightarrow> bool" where
  "shows_row dl d \<longleftrightarrow> (\<exists>r \<in> set (webhook_deliveries d). wh_id r = dl_ID dl \<and> wh_event_id r = dl_EventID dl \<and>
     wh_endpoint r = dl_Endpoint dl \<and> wh_payload r = dl_Payload dl)"

definition answered_by :: "Delivery \<Rightarrow> Post list \<Rightarrow> bool" where
  "answered_by dl ps \<longleftrightarrow> (\<exists>p \<in> set ps. p_EventID p = dl_EventID dl \<and> p_Endpoint p = dl_Endpoint dl \<and> p_Body p = dl_Payload dl)"

definition del_ok :: "system \<Rightarrow> courier_at \<Rightarrow> bool" where
  "del_ok y pc \<longleftrightarrow> (\<forall>dl \<in> set (deliveries_at pc). shows_row dl (sy_db y)) \<and>
     (case pc of Answered dl code dls \<Rightarrow> answered_by dl (sy_posts y) | _ \<Rightarrow> True)"

definition api_ok :: "system \<Rightarrow> api_at \<Rightarrow> bool" where
  "api_ok y pc \<longleftrightarrow> (case pc of Free \<Rightarrow> True | Unanswered s k h x \<Rightarrow> s \<in> set scopes \<and> recorded (sy_db y) s k h x)"

definition fleet_inv :: "(string \<Rightarrow> string option) \<Rightarrow> fleet \<Rightarrow> bool" where
  "fleet_inv uin c \<longleftrightarrow> system_inv uin (fl_sys c) \<and> (\<forall>i. pub_ok (fl_sys c) (fl_pub c i)) \<and> (\<forall>i. in_ok (fl_sys c) (fl_in c i)) \<and>
     (\<forall>i. del_ok (fl_sys c) (fl_del c i)) \<and> (\<forall>i. api_ok (fl_sys c) (fl_api c i))"

lemma reflects_forward:
  assumes "event_identity ` set (outbox_events d) \<subseteq> event_identity ` set (outbox_events d')" and "reflects rec d"
  shows "reflects rec d'"
proof -
  from assms(2) obtain r where r: "r \<in> set (outbox_events d)" "o_id r = or_ID rec" "eventMessage (outbox_record_of r) = eventMessage rec"
    unfolding reflects_def by blast
  then obtain q where q: "q \<in> set (outbox_events d')" "event_identity r = event_identity q" using assms(1) by blast
  then have "o_id q = o_id r" by (simp add: event_identity_def)
  with q r eventMessage_identity[OF q(2)] show ?thesis unfolding reflects_def by metis
qed

lemma shows_row_forward:
  assumes "wh_identity ` set (webhook_deliveries d) \<subseteq> wh_identity ` set (webhook_deliveries d')" and "shows_row dl d"
  shows "shows_row dl d'"
proof -
  from assms(2) obtain r where r: "r \<in> set (webhook_deliveries d)" "wh_id r = dl_ID dl" "wh_event_id r = dl_EventID dl"
    "wh_endpoint r = dl_Endpoint dl" "wh_payload r = dl_Payload dl" unfolding shows_row_def by blast
  then obtain q where "q \<in> set (webhook_deliveries d')" "wh_identity r = wh_identity q" using assms(1) by blast
  with r show ?thesis unfolding shows_row_def wh_identity_def by auto
qed

lemma forward_keeps:
  assumes "forward y y'"
  shows "pub_ok y a \<Longrightarrow> pub_ok y' a" and "in_ok y b \<Longrightarrow> in_ok y' b" and "del_ok y k \<Longrightarrow> del_ok y' k" and "api_ok y x \<Longrightarrow> api_ok y' x"
proof -
  have ev: "reflects rec (sy_db y) \<Longrightarrow> reflects rec (sy_db y')" for rec
    using assms reflects_forward unfolding forward_def by blast
  have row: "shows_row dl (sy_db y) \<Longrightarrow> shows_row dl (sy_db y')" for dl
    using assms shows_row_forward unfolding forward_def by blast
  have l: "set (sy_log y) \<subseteq> set (sy_log y')" and p: "set (sy_posts y) \<subseteq> set (sy_posts y')"
    using assms by (simp_all add: forward_def set_mono_prefix)
  show "pub_ok y a \<Longrightarrow> pub_ok y' a" using ev l by (auto simp: pub_ok_def split: publisher_at.splits)
  show "in_ok y b \<Longrightarrow> in_ok y' b" using l by (auto simp: in_ok_def split: intake_at.splits)
  show "del_ok y k \<Longrightarrow> del_ok y' k" using row p by (fastforce simp: del_ok_def answered_by_def split: courier_at.splits)
  show "api_ok y x \<Longrightarrow> api_ok y' x"
    using assms unfolding forward_def keeps_done_def by (fastforce simp: api_ok_def recorded_def split: api_at.splits)
qed

subsection \<open>Every step keeps the invariant\<close>

lemma publisher_forward:
  assumes fr: "pub_frame (w, sy_log y) (w', l)" and so: "sound uin (w', l)" and d: "db w = sy_db y" and inv: "system_inv uin y"
  shows "system_inv uin (y\<lparr>sy_db := db w', sy_log := l\<rparr>) \<and> forward y (y\<lparr>sy_db := db w', sy_log := l\<rparr>)"
proof
  show "system_inv uin (y\<lparr>sy_db := db w', sy_log := l\<rparr>)" by (rule publisher_keeps[OF fr so d inv])
  have "distinct (map o_id (outbox_events (db w)))" using inv_sound[OF inv d] by (simp add: sound_iff)
  with fr have ev: "list_all2 evolves (outbox_events (sy_db y)) (outbox_events (db w'))" and ot: "other_tables (sy_db y) (db w')"
    and "prefix (sy_log y) l" by (auto simp: pub_frame_def outbox_evolves_def d)
  moreover have "event_identity ` set (outbox_events (db w')) = event_identity ` set (outbox_events (sy_db y))"
    using evolved_ids[OF ev] by (metis list.set_map)
  ultimately show "forward y (y\<lparr>sy_db := db w', sy_log := l\<rparr>)"
    by (simp add: forward_def other_tables_def keeps_done_def idem_of_def)
qed

lemma ClaimOutbox_reflects:
  assumes "ClaimOutbox env wid limit ttl locked w = (Ret batch, w')" and "rec \<in> set batch"
  shows "reflects rec (db w')"
  using assms by (auto simp: ClaimOutbox_def ret_inv dest: claimed_reflect)

lemma pub_step_inv:
  assumes "pub_step uin (pc, sy_db y, sy_log y) (pc', d, l)" and inv: "system_inv uin y" and ok: "pub_ok y pc"
  defines "y' \<equiv> y\<lparr>sy_db := d, sy_log := l\<rparr>"
  shows "system_inv uin y' \<and> forward y y' \<and> pub_ok y' pc'"
proof -
  have call: "system_inv uin y' \<and> forward y y' \<and> pub_ok y' pc"
    if "stays (sound_step uin) m" "m (w, sy_log y) = (r, (w', l))" "db w = sy_db y" "db w' = d" for m :: "'b kcomp" and w r w'
  proof -
    from staysD[OF that(1,2)] have "pub_frame (w, sy_log y) (w', l)" "sound uin (w', l)"
      using inv_sound[OF inv that(3)] by (auto simp: sound_step_def)
    from publisher_forward[OF this that(3) inv] that(4) forward_keeps(1)[OF _ ok] show ?thesis by (auto simp: y'_def)
  qed
  have quiet: "y' = y" if "d = sy_db y" "l = sy_log y" using that by (simp add: y'_def)
  from assms(1) show ?thesis
  proof cases
    case (claim env wid limit ttl locked w r w')
    have "onDB (ClaimOutbox env wid limit ttl locked) (w, sy_log y) = (r, (w', l))" using claim by (simp add: onDB_def)
    from call[OF ss_ClaimOutbox this] claim ClaimOutbox_reflects show ?thesis
      by (auto simp: pub_ok_def y'_def split: res.splits)
  next
    case (publish brk rec w r w' rs)
    from call[OF ss_steps(5) publish(4,5)] publish show ?thesis
      by (auto simp: pub_ok_def y'_def Publish_def Let_def split: res.splits ack.splits)
  next
    case (inject rec rs e)
    with quiet inv ok show ?thesis by (simp add: pub_ok_def)
  next
    case (unmarked rec rs)
    with quiet inv ok show ?thesis by (simp add: pub_ok_def)
  next
    case (mark env rec w r w' rs)
    have run: "onDB (MarkPublished env (or_ID rec)) (w, sy_log y) = (r, (w', l))" using mark by (simp add: onDB_def)
    have "sound uin (w', l)"
      using MarkPublished_sound[OF inv_sound[OF inv mark(7)] mark(5) _ _ run] ok mark by (simp add: pub_ok_def)
    from publisher_forward[OF staysD[OF fr_repo(1) run] this mark(7) inv] mark have "system_inv uin y' \<and> forward y y'"
      by (simp add: y'_def)
    with forward_keeps(1)[OF _ ok] mark show ?thesis by (auto simp: pub_ok_def)
  next
    case (failed env rec e cfg u w r w' rs)
    have "onDB (MarkFailed env (or_ID rec) (err_text env e) (Backoff (or_Attempts rec + 1) (OutboxBaseBackoff cfg) (OutboxMaxBackoff cfg) u)
      (OutboxMaxAttempts cfg)) (w, sy_log y) = (r, (w', l))" using failed by (simp add: onDB_def)
    from call[OF ss_MarkFailed this] failed show ?thesis
      by (auto simp: pub_ok_def split: res.splits prod.splits bool.splits)
  next
    case (bury env cfg brk rec e w r w' rs)
    have "stays (sound_step uin) (publishToDLQ env cfg brk rec e)"
      unfolding publishToDLQ_def Let_def by (intro sound_basic ss_attempt ss_steps)
    from call[OF this bury(4,5)] bury show ?thesis by (auto simp: pub_ok_def)
  next
    case stop
    with quiet inv show ?thesis by (simp add: pub_ok_def)
  qed
qed

lemma hooks_forward:
  assumes lt: "ledger_tables (sy_db y) d" and pre: "prefix (sy_posts y) ps"
    and ids: "wh_identity ` set (webhook_deliveries (sy_db y)) \<subseteq> wh_identity ` set (webhook_deliveries d)"
  shows "forward y (y\<lparr>sy_db := d, sy_posts := ps\<rparr>)"
proof -
  have "outbox_events d = outbox_events (sy_db y)" using lt unfolding ledger_tables_def
    by (metis database.select_convs(7) database.simps(1) database.surjective database.update_convs(8))
  then show ?thesis using pre ids rest_same[OF lt] by (simp add: forward_def)
qed

lemma Enqueue_appends:
  assumes "Enqueue env dl w = (r, w')"
  shows "\<exists>new. webhook_deliveries (db w') = webhook_deliveries (db w) @ new"
proof -
  obtain x w1 where run: "onDB (mapErr (Wrap (Sprintf ''webhook: enqueue: %w'' [])) (pool_sql env (enqueue_stmt env dl))) (w, ()) = (x, w1)"
    by (meson surj_pair)
  with assms have "db w' = db (fst w1)"
    by (auto simp: Enqueue_def onDB_def andThen_def ret_def split: prod.splits res.splits)
  moreover have "\<exists>new. webhook_deliveries (db (fst w1)) = webhook_deliveries (db w) @ new"
    using run by (rule onDB_pool_effect) (auto simp: enqueue_stmt_def checked_Inr split: option.splits if_splits)
  ultimately show ?thesis by simp
qed

lemma in_step_inv:
  assumes "intake_step uin (pc, sy_db y, sy_log y) (pc', d, l)" and inv: "system_inv uin y" and ok: "in_ok y pc"
  defines "y' \<equiv> y\<lparr>sy_db := d, sy_log := l\<rparr>"
  shows "system_inv uin y' \<and> forward y y' \<and> in_ok y' pc'"
  using assms(1)
proof cases
  case (take msg e cfg)
  then show ?thesis using inv by (auto simp: in_ok_def y'_def)
next
  case (store env i e ep payload w r w' eps)
  note run = store(7)
  from store obtain msg where msg: "msg \<in> set (sy_log y)" "m_Value msg = payload" "unmarshalEnvelope (m_Value msg) = Some e"
    using ok by (auto simp: in_ok_def)
  from staysD[OF intake_Enqueue[OF store(5,6) msg(1,3)] run]
  have lt: "ledger_tables (sy_db y) d" and hk: "hooks_ok uin d (sy_log y) (sy_posts y)"
    using inv store by (auto simp: intake_rel_def system_inv_def)
  have y': "y' = y\<lparr>sy_db := d, sy_posts := sy_posts y\<rparr>" using store by (simp add: y'_def)
  have "forward y y'" unfolding y' using Enqueue_appends[OF run] store by (intro hooks_forward[OF lt]) auto
  moreover have "system_inv uin y'" using hooks_step[OF inv lt hk] by (simp add: y')
  ultimately show ?thesis using forward_keeps(2)[OF _ ok] store by (auto simp: in_ok_def split: res.splits)
next
  case leave
  then show ?thesis using inv by (simp add: in_ok_def y'_def)
qed

subsection \<open>Deliveries\<close>

lemma courier_forward:
  assumes fr: "wh_frame (w, sy_posts y) (w', ps)" and so: "wh_sound uin (w', ps)" and d: "db w = sy_db y" and inv: "system_inv uin y"
  shows "system_inv uin (y\<lparr>sy_db := db w', sy_posts := ps\<rparr>) \<and> forward y (y\<lparr>sy_db := db w', sy_posts := ps\<rparr>)"
proof
  show "system_inv uin (y\<lparr>sy_db := db w', sy_posts := ps\<rparr>)" by (rule courier_keeps[OF fr so d inv])
  have "map wh_identity (webhook_deliveries (db w')) = map wh_identity (webhook_deliveries (sy_db y))"
    using fr d by (simp add: wh_frame_def)
  then have "wh_identity ` set (webhook_deliveries (db w')) = wh_identity ` set (webhook_deliveries (sy_db y))" by (metis list.set_map)
  then show "forward y (y\<lparr>sy_db := db w', sy_posts := ps\<rparr>)"
    using fr d by (intro hooks_forward) (simp_all add: wh_frame_def)
qed

lemma ClaimDue_shows:
  assumes "ClaimDue env limit w = (Ret batch, w')" and "dl \<in> set batch"
  shows "shows_row dl (db w')"
proof -
  from assms obtain q where "q \<in> set (webhook_deliveries (db w'))" "dl = delivery_of q"
    by (auto simp: ClaimDue_def ret_inv claim_due_stmt_def split: if_splits dest!: in_set_takeD)
  then show ?thesis by (auto simp: shows_row_def delivery_of_def)
qed

lemma shows_row_depicts:
  assumes "canonical_ids uin d" and "shows_row dl d"
  shows "depicts uin dl d"
proof -
  from assms(2) obtain q where q: "q \<in> set (webhook_deliveries d)" "wh_id q = dl_ID dl" "wh_event_id q = dl_EventID dl"
    "wh_endpoint q = dl_Endpoint dl" "wh_payload q = dl_Payload dl" unfolding shows_row_def by blast
  have "r = q" if "r \<in> set (webhook_deliveries d)" "uin (wh_id q) = Some (wh_id r)" for r
    using that assms(1) q(1) by (metis canonical_ids_def distinct_map inj_onD option.inject)
  with q show ?thesis by (auto simp: depicts_def)
qed

lemma del_step_inv:
  assumes "del_step uin (pc, sy_db y, sy_posts y) (pc', d, ps)" and inv: "system_inv uin y" and ok: "del_ok y pc"
  defines "y' \<equiv> y\<lparr>sy_db := d, sy_posts := ps\<rparr>"
  shows "system_inv uin y' \<and> forward y y' \<and> del_ok y' pc'"
proof -
  have call: "system_inv uin y' \<and> forward y y' \<and> del_ok y' pc"
    if "stays (wh_step uin) m" "m (w, sy_posts y) = (r, (w', ps))" "db w = sy_db y" "db w' = d" for m :: "'b wcomp" and w r w'
  proof -
    from staysD[OF that(1,2)] have "wh_frame (w, sy_posts y) (w', ps)" "wh_sound uin (w', ps)"
      using inv_wh_sound[OF inv that(3)] by (auto simp: wh_step_def)
    from courier_forward[OF this that(3) inv] that(4) forward_keeps(3)[OF _ ok] show ?thesis by (auto simp: y'_def)
  qed
  have quiet: "y' = y" if "d = sy_db y" "ps = sy_posts y" using that by (simp add: y'_def)
  from assms(1) show ?thesis
  proof cases
    case (due env limit w r w')
    have "onDB (ClaimDue env limit) (w, sy_posts y) = (r, (w', ps))" using due by (simp add: onDB_def)
    from call[OF ws_ClaimDue this] due ClaimDue_shows show ?thesis by (auto simp: del_ok_def y'_def split: res.splits)
  next
    case (send cfg signer http dl w code err w' env dls)
    have "answered_by dl ps" if "err = None" using post_logged send that by (fastforce simp: answered_by_def)
    with call[OF ws_calls(4) send(4,5)] send show ?thesis by (auto simp: del_ok_def y'_def split: option.splits)
  next
    case (refuse dl dls cause)
    with quiet inv ok show ?thesis by (simp add: del_ok_def)
  next
    case (delivered env dl code w r w' dls)
    have run: "onDB (MarkDelivered env (dl_ID dl) code) (w, sy_posts y) = (r, (w', ps))" using delivered by (simp add: onDB_def)
    from ok delivered obtain p where p: "p \<in> set (sy_posts y)" "p_EventID p = dl_EventID dl" "p_Endpoint p = dl_Endpoint dl"
      "p_Body p = dl_Payload dl" by (auto simp: del_ok_def answered_by_def)
    have "depicts uin dl (db w)"
      using shows_row_depicts[of uin "sy_db y" dl] inv ok delivered by (simp add: del_ok_def system_inv_def hooks_ok_def)
    with MarkDelivered_sound[OF inv_wh_sound[OF inv delivered(7)] delivered(5) _ _ p(2-4) run] p(1) have "wh_sound uin (w', ps)" by simp
    from courier_forward[OF staysD[OF wh_store(1) run] this delivered(7) inv] delivered have "system_inv uin y' \<and> forward y y'"
      by (simp add: y'_def)
    with forward_keeps(3)[OF _ ok] delivered show ?thesis by (auto simp: del_ok_def)
  next
    case (undelivered env dl cause code cfg u w r w' dls)
    have "onDB (MarkUndelivered env (dl_ID dl) cause code (Backoff (dl_Attempts dl + 1) (WebhookBaseBackoff cfg) (WebhookMaxBackoff cfg) u)
      (WebhookMaxAttempts cfg)) (w, sy_posts y) = (r, (w', ps))" using undelivered by (simp add: onDB_def)
    from call[OF ws_MarkUndelivered this] undelivered show ?thesis by (auto simp: del_ok_def)
  next
    case rest
    with quiet inv show ?thesis by (simp add: del_ok_def)
  qed
qed

subsection \<open>Requests between their transaction and their answer\<close>

lemma api_steps_events: "(api_change uin)\<^sup>*\<^sup>* d d' \<Longrightarrow> set (outbox_events d) \<subseteq> set (outbox_events d')"
proof (induction rule: rtranclp_induct)
  case (step d1 d2)
  then show ?case using api_step_tables[OF step(2)] by auto
qed simp

lemma change_forward:
  assumes ch: "(api_change uin)\<^sup>*\<^sup>* (sy_db y) d" and co: "coherent (sy_db y) (sy_redis y) \<longrightarrow> coherent d m"
    and pre: "prefix (sy_log y) l" and inv: "system_inv uin y"
  shows "system_inv uin (y\<lparr>sy_db := d, sy_redis := m, sy_log := l\<rparr>) \<and> forward y (y\<lparr>sy_db := d, sy_redis := m, sy_log := l\<rparr>)"
  using change_keeps[OF assms] api_steps_events[OF ch] api_steps[OF ch] api_change_keeps_done[OF ch] pre
  by (simp add: forward_def image_mono)

lemma ledger_forward:
  assumes step: "ledger_step uin (sy_db y) d" and inv: "system_inv uin y"
  shows "system_inv uin (y\<lparr>sy_db := d\<rparr>) \<and> forward y (y\<lparr>sy_db := d\<rparr>)"
proof -
  have ch: "(api_change uin)\<^sup>*\<^sup>* (sy_db y) d" using step by (intro r_into_rtranclp) (simp add: api_change_def)
  with change_forward[OF ch, of "sy_redis y" "sy_log y"] coherent_keeps[OF _ api_change_keeps_done[OF ch]] inv
  show ?thesis by simp
qed

lemma api_step_inv:
  assumes "api_step uin (pc, sy_db y, sy_redis y) (pc', d, m)" and inv: "system_inv uin y" and ok: "api_ok y pc"
  defines "y' \<equiv> y\<lparr>sy_db := d, sy_redis := m\<rparr>"
  shows "system_inv uin y' \<and> forward y y' \<and> api_ok y' pc'"
proof -
  have ledger: ?thesis if "ledger_step uin (sy_db y) d" "m = sy_redis y" "s \<in> set scopes"
    "\<And>x. r = Ret x \<Longrightarrow> recorded d s k h x" "pc' = (case r of Ret x \<Rightarrow> Unanswered s k h x | _ \<Rightarrow> Free)" for s k h and r :: "Result result"
    using ledger_forward[OF that(1) inv] that(2-) by (auto simp: y'_def api_ok_def split: res.splits)
  from assms(1) show ?thesis
  proof cases
    case (create env cfg cmd w r w')
    have "recorded d scopeCreateAccount (ca_IdempotencyKey cmd) (ca_RequestHash cmd) x" if "r = Ret x" for x
      using CreateAccount_recorded[of env cfg cmd w x w'] create that by simp
    from ledger[OF _ _ _ this] ledger_step.create[OF create(5,6,7)] create show ?thesis by (simp add: scopes_def)
  next
    case (transfer env cmd cfg ctx w r w')
    have "recorded d scopeTransfer (tc_IdempotencyKey cmd) (tc_RequestHash cmd) x" if "r = Ret x" for x
      using Transfer_recorded[OF transfer(8), of x] transfer that by auto
    from ledger[OF _ _ _ this] ledger_step.transfer[OF transfer(5,6,7,8)] transfer show ?thesis by (simp add: scopes_def)
  next
    case (reverse env cfg ctx cmd w r w')
    have "recorded d scopeReverse (rc_IdempotencyKey cmd) (rc_RequestHash cmd) x" if "r = Ret x" for x
      using Reverse_recorded[OF reverse(7), of x] reverse that by auto
    from ledger[OF _ _ _ this] ledger_step.reverse[OF reverse(5,6,7)] reverse show ?thesis by (simp add: scopes_def)
  next
    case (answer srv scope key h x w out r w' out')
    have "recorded (db w) scope key h x" "scope \<in> set scopes" using ok answer by (auto simp: api_ok_def)
    with finishIdempotent_rel[of "(w, out)" scope key h x uin srv] answer have "api_rel uin (w, out) (w', out')" by simp
    then have "(api_change uin)\<^sup>*\<^sup>* (sy_db y) d" "coherent (sy_db y) (sy_redis y) \<longrightarrow> coherent d m"
      using answer by (auto simp: api_rel_def)
    from change_forward[OF this prefix_order.order_refl inv] answer show ?thesis by (simp add: y'_def api_ok_def)
  next
    case lose
    then have "coherent (sy_db y) (sy_redis y) \<longrightarrow> coherent d m" using coherent_sub by auto
    with change_forward[OF _ this prefix_order.order_refl inv] lose ok forward_keeps(4)[of y y'] show ?thesis by (simp add: y'_def)
  next
    case crash
    with inv show ?thesis by (simp add: y'_def api_ok_def)
  qed
qed

subsection \<open>Every step of the fleet\<close>

lemma fleet_keeps:
  assumes "fleet_inv uin c" and "system_inv uin y'" and fw: "forward (fl_sys c) y'"
    and "\<forall>i. pub_ok y' (p i) \<or> p i = fl_pub c i" and "\<forall>i. in_ok y' (n i) \<or> n i = fl_in c i"
    and "\<forall>i. del_ok y' (k i) \<or> k i = fl_del c i" and "\<forall>i. api_ok y' (a i) \<or> a i = fl_api c i"
  shows "fleet_inv uin \<lparr>fl_sys = y', fl_pub = p, fl_in = n, fl_del = k, fl_api = a\<rparr>"
  using assms forward_keeps[OF fw] unfolding fleet_inv_def by (simp, metis)

lemma fleet_step_inv:
  assumes "fleet_step uin c c'" and inv: "fleet_inv uin c"
  shows "fleet_inv uin c'"
proof -
  have sys: "system_inv uin (fl_sys c)" and ok: "pub_ok (fl_sys c) (fl_pub c i)" "in_ok (fl_sys c) (fl_in c i)"
    "del_ok (fl_sys c) (fl_del c i)" "api_ok (fl_sys c) (fl_api c i)" for i using inv by (simp_all add: fleet_inv_def)
  note keep = fleet_keeps[OF inv]
  obtain y p n k a where c: "c = \<lparr>fl_sys = y, fl_pub = p, fl_in = n, fl_del = k, fl_api = a\<rparr>" by (cases c)
  from assms(1) show ?thesis
  proof cases
    case (publisher i pc d l)
    from pub_step_inv[OF publisher(2) sys ok(1)] keep publisher(1) show ?thesis by (simp add: c)
  next
    case (consumer i pc d l)
    from in_step_inv[OF consumer(2) sys ok(2)] keep consumer(1) show ?thesis by (simp add: c)
  next
    case (courier i pc d ps)
    from del_step_inv[OF courier(2) sys ok(3)] keep courier(1) show ?thesis by (simp add: c)
  next
    case (api i pc d m)
    from api_step_inv[OF api(2) sys ok(4)] keep api(1) show ?thesis by (simp add: c)
  next
    case (whole srv meth path r w out x w' out')
    from serve_rel[OF whole(2,4)] whole(3,5-7) change_forward[OF _ _ _ sys] keep whole(1) show ?thesis by (simp add: c api_rel_def)
  qed
qed

lemma fleet_reachable_inv: "fleet_reachable uin c \<Longrightarrow> fleet_inv uin c"
proof (induction rule: fleet_reachable.induct)
  case start
  then show ?case using system_inv_start
    by (simp add: fleet_inv_def fleet_start_def pub_ok_def in_ok_def del_ok_def api_ok_def)
qed (rule fleet_step_inv)

end
