(* ===== verification/Step_Runs.thy ===== *)
theory Step_Runs
  imports Interleaving
begin

text \<open>
  The code runs in the steps of \<open>Interleaving\<close>: a cycle of the publisher, of the intake, of the
  deliveries, and a request that changes the ledger, are each a sequence of steps of its process
  (\<open>RunOnce_steps\<close>, \<open>HandleEvent_steps\<close>, \<open>DeliverOnce_steps\<close>, \<open>mutation_steps\<close>), and every state of
  \<open>System\<close> is a state of the fleet with all processes idle (\<open>idle_reachable\<close>).
\<close>

text \<open>Where a process is after a call: a panic ends it.\<close>

fun landing :: "'pc \<Rightarrow> ('a \<Rightarrow> 'pc) \<Rightarrow> (goerr \<Rightarrow> 'pc) \<Rightarrow> 'a result \<Rightarrow> 'pc" where
  "landing home T E (Ret x) = T x"
| "landing home T E (Err e) = E e"
| "landing home T E (Panic p) = home"

text \<open>
  A process whose state is a place in its program, the database and what it sees of the outside, and
  which may stop anywhere. A call carries it from a place to a place when every run of the call is a
  sequence of steps to the place its result asks for.
\<close>

locale stoppable =
  fixes step :: "'pc \<times> database \<times> 'l \<Rightarrow> 'pc \<times> database \<times> 'l \<Rightarrow> bool" and home :: 'pc and view :: "'s \<Rightarrow> 'l"
  assumes stop: "step (pc, d, l) (home, d, l)"
begin

definition carries :: "'pc \<Rightarrow> (world \<times> 's \<Rightarrow> 'a result \<times> (world \<times> 's)) \<Rightarrow> ('a \<Rightarrow> 'pc) \<Rightarrow> (goerr \<Rightarrow> 'pc) \<Rightarrow> bool" where
  "carries pc m T E \<longleftrightarrow> (\<forall>w x. step\<^sup>*\<^sup>* (pc, db w, view x)
     (landing home T E (fst (m (w, x))), db (fst (snd (m (w, x)))), view (snd (snd (m (w, x))))))"

lemma carriesI:
  assumes "\<And>w x r w' x'. m (w, x) = (r, (w', x')) \<Longrightarrow> step\<^sup>*\<^sup>* (pc, db w, view x) (landing home T E r, db w', view x')"
  shows "carries pc m T E"
  unfolding carries_def by (simp add: assms)

lemma carriesD:
  assumes "carries pc m T E" and "m (w, x) = (r, (w', x'))"
  shows "step\<^sup>*\<^sup>* (pc, db w, view x) (landing home T E r, db w', view x')"
  using assms(1)[unfolded carries_def, rule_format, of w x] by (simp add: assms(2))

lemma carries_ret: "T x = pc \<Longrightarrow> carries pc (ret x) T E"
  by (rule carriesI) (auto simp: ret_def)

lemma carries_end: "carries pc (ret x) (\<lambda>_. pc) E"
  by (rule carries_ret) (rule refl)

lemma carries_andThen:
  assumes "carries pc m M E" and "\<And>x. carries (M x) (f x) T E"
  shows "carries pc (andThen m f) T E"
proof (rule carriesI)
  fix w x r w' x' assume run: "andThen m f (w, x) = (r, (w', x'))"
  obtain q w1 x1 where m: "m (w, x) = (q, (w1, x1))" by (metis prod.exhaust)
  note 1 = carriesD[OF assms(1) m]
  show "step\<^sup>*\<^sup>* (pc, db w, view x) (landing home T E r, db w', view x')"
  proof (cases q)
    case (Ret y)
    with run m have "f y (w1, x1) = (r, (w', x'))" by (simp add: andThen_def)
    from carriesD[OF assms(2) this] 1 Ret show ?thesis by (simp add: rtranclp_trans)
  qed (use run m 1 in \<open>auto simp: andThen_def\<close>)
qed

lemma carries_attempt:
  assumes "carries pc m (\<lambda>x. T (Inr x)) (\<lambda>e. T (Inl e))"
  shows "carries pc (attempt m) T E"
proof (rule carriesI)
  fix w x r w' x' assume run: "attempt m (w, x) = (r, (w', x'))"
  obtain q w1 x1 where m: "m (w, x) = (q, (w1, x1))" by (metis prod.exhaust)
  from carriesD[OF assms m] run m show "step\<^sup>*\<^sup>* (pc, db w, view x) (landing home T E r, db w', view x')"
    by (cases q) (auto simp: attempt_def)
qed

lemma carries_mapErr:
  assumes "carries pc m T (\<lambda>e. E (g e))"
  shows "carries pc (mapErr g m) T E"
proof (rule carriesI)
  fix w x r w' x' assume run: "mapErr g m (w, x) = (r, (w', x'))"
  obtain q w1 x1 where m: "m (w, x) = (q, (w1, x1))" by (metis prod.exhaust)
  from carriesD[OF assms m] run m show "step\<^sup>*\<^sup>* (pc, db w, view x) (landing home T E r, db w', view x')"
    by (cases q) (auto simp: mapErr_def)
qed

text \<open>A move the process makes without a call, before or after one.\<close>

lemma carries_move:
  assumes "\<And>d l. step (pc, d, l) (pc', d, l)" and "carries pc' m T E"
  shows "carries pc m T E"
  by (rule carriesI) (rule converse_rtranclp_into_rtranclp[OF assms(1) carriesD[OF assms(2)]])

lemma carries_call:
  assumes "\<And>w x r w' x'. m (w, x) = (r, (w', x')) \<Longrightarrow> \<exists>q. step (pc, db w, view x) (q, db w', view x') \<and>
    (case r of Ret y \<Rightarrow> q = T y | Err e \<Rightarrow> q = E e | Panic p \<Rightarrow> True)"
  shows "carries pc m T E"
proof (rule carriesI)
  fix w x r w' x' assume "m (w, x) = (r, (w', x'))"
  from assms[OF this] obtain q where q: "step (pc, db w, view x) (q, db w', view x')"
    "case r of Ret y \<Rightarrow> q = T y | Err e \<Rightarrow> q = E e | Panic p \<Rightarrow> True" by blast
  then have "step\<^sup>*\<^sup>* (pc, db w, view x) (q, db w', view x')" by blast
  with q(2) stop[of q] show "step\<^sup>*\<^sup>* (pc, db w, view x) (landing home T E r, db w', view x')"
    by (cases r) (auto intro: rtranclp.rtrancl_into_rtrancl)
qed

text \<open>A call that changes nothing the process shares.\<close>

lemma carries_quiet:
  assumes "\<And>w x r w' x'. m (w, x) = (r, (w', x')) \<Longrightarrow> db w' = db w \<and> view x' = view x"
  shows "carries pc m (\<lambda>_. pc) (\<lambda>_. pc)"
proof (rule carriesI)
  fix w x r w' x' assume "m (w, x) = (r, (w', x'))"
  from assms[OF this] stop show "step\<^sup>*\<^sup>* (pc, db w, view x) (landing home (\<lambda>_. pc) (\<lambda>_. pc) r, db w', view x')"
    by (cases r) auto
qed

lemma carries_onDB_quiet:
  assumes "\<And>w r w'. m w = (r, w') \<Longrightarrow> db w' = db w"
  shows "carries pc (onDB m) (\<lambda>_. pc) (\<lambda>_. pc)"
proof (rule carries_quiet)
  fix w and x :: 's and r w' and x' :: 's assume "onDB m (w, x) = (r, (w', x'))"
  then have "m w = (r, w')" "x' = x" by (auto simp: onDB_def split: prod.splits)
  with assms show "db w' = db w \<and> view x' = view x" by blast
qed

text \<open>A cycle: wherever it leaves the process, the process stops there and is at home.\<close>

lemma carries_cycle:
  assumes "carries pc m T E" and "m (w, x) = (r, (w', x'))"
  shows "step\<^sup>*\<^sup>* (pc, db w, view x) (home, db w', view x')"
  using carriesD[OF assms] stop by (rule rtranclp.rtrancl_into_rtrancl)

lemma carries_try:
  assumes "carries pc m A B" and "\<And>x. carries (A x) (f x) T E" and "\<And>e. carries (B e) (g e) T E"
  shows "carries pc (andThen (attempt m) (case_sum g f)) T E"
proof (rule carries_andThen)
  show "carries pc (attempt m) (case_sum B A) E" using assms(1) by (intro carries_attempt) simp
  show "carries (case_sum B A y) (case_sum g f y) T E" for y using assms(2,3) by (cases y) simp_all
qed

lemma carries_up:
  assumes "carries pc m T E"
  shows "carries pc m T (\<lambda>_. home)"
proof (rule carriesI)
  fix w x r w' x' assume "m (w, x) = (r, (w', x'))"
  from carriesD[OF assms this] show "step\<^sup>*\<^sup>* (pc, db w, view x) (landing home T (\<lambda>_. home) r, db w', view x')"
    using stop by (cases r) (auto intro: rtranclp.rtrancl_into_rtrancl)
qed

lemmas carries_rules = carries_ret carries_andThen carries_attempt carries_mapErr

end

interpretation pubp: stoppable "pub_step uin" Resting "\<lambda>l. l" for uin
  by unfold_locales (rule pub_step.stop)

interpretation delp: stoppable "del_step uin" AtRest "\<lambda>l. l" for uin
  by unfold_locales (rule del_step.rest)

interpretation intp: stoppable "intake_step uin" NoMessage "\<lambda>l. l" for uin
  by unfold_locales (rule intake_step.leave)

interpretation apip: stoppable "api_step uin" Free "redis_db :: outside \<Rightarrow> redis" for uin
  by unfold_locales (rule api_step.crash)

lemma quiet_calls:
  "fpEval ov n w = (r, w') \<Longrightarrow> db w' = db w" "ctxErr env w = (u, w') \<Longrightarrow> db w' = db w" "jitter env w = (j, w') \<Longrightarrow> db w' = db w"
  "newUUID env w = (i, w') \<Longrightarrow> db w' = db w"
  by (auto simp: ctxErr_def jitter_def newUUID_def dest: fpEval_db split: option.splits)

subsection \<open>The publisher\<close>

lemma Backlog_db: "Backlog env w = (r, w') \<Longrightarrow> db w' = db w"
  by (auto simp: Backlog_def mapErr_def backlog_stmt_def dest!: pool_sql_effect split: prod.splits res.splits)

lemma onDB_run: "onDB m (w, x) = (r, (w', x')) \<longleftrightarrow> m w = (r, w') \<and> x' = x"
  by (auto simp: onDB_def split: prod.splits)

lemma pub_calls:
  assumes "uuid_in env = uin"
  shows "pubp.carries uin (Batch (rec # rs)) (Publish brk (eventMessage rec)) (\<lambda>_. Sent rec rs) (\<lambda>e. Failing rec e rs)"
    and "pubp.carries uin (Sent rec rs) (onDB (MarkPublished env (or_ID rec))) (\<lambda>_. Batch rs) (\<lambda>_. Batch rs)"
    and "pubp.carries uin (Failing rec e rs) (onDB (MarkFailed env (or_ID rec) (err_text env e)
        (Backoff (or_Attempts rec + 1) (OutboxBaseBackoff cfg) (OutboxMaxBackoff cfg) u) (OutboxMaxAttempts cfg)))
      (\<lambda>(k, dead). if dead then Dying rec e rs else Batch rs) (\<lambda>_. Batch rs)"
    and "pubp.carries uin (Dying rec e rs) (publishToDLQ env cfg brk rec e) (\<lambda>_. Batch rs) (\<lambda>_. Batch rs)"
    and "pubp.carries uin Resting (onDB (ClaimOutbox env wid limit ttl locked)) Batch (\<lambda>_. Resting)"
proof -
  show "pubp.carries uin (Batch (rec # rs)) (Publish brk (eventMessage rec)) (\<lambda>_. Sent rec rs) (\<lambda>e. Failing rec e rs)"
    by (rule pubp.carries_call) (drule pub_step.publish[OF _ refl], fastforce split: res.splits)
  show "pubp.carries uin (Sent rec rs) (onDB (MarkPublished env (or_ID rec))) (\<lambda>_. Batch rs) (\<lambda>_. Batch rs)"
    by (rule pubp.carries_call) (fastforce simp: onDB_run dest: pub_step.mark[OF assms _ refl] split: res.splits)
  show "pubp.carries uin (Failing rec e rs) (onDB (MarkFailed env (or_ID rec) (err_text env e)
        (Backoff (or_Attempts rec + 1) (OutboxBaseBackoff cfg) (OutboxMaxBackoff cfg) u) (OutboxMaxAttempts cfg)))
      (\<lambda>(k, dead). if dead then Dying rec e rs else Batch rs) (\<lambda>_. Batch rs)"
    by (rule pubp.carries_call)
      (fastforce simp: onDB_run dest: pub_step.failed[OF assms _ refl, where rs = rs] split: res.splits prod.splits bool.splits)
  show "pubp.carries uin (Dying rec e rs) (publishToDLQ env cfg brk rec e) (\<lambda>_. Batch rs) (\<lambda>_. Batch rs)"
    by (rule pubp.carries_call) (fastforce dest: pub_step.bury[OF _ refl] split: res.splits)
  show "pubp.carries uin Resting (onDB (ClaimOutbox env wid limit ttl locked)) Batch (\<lambda>_. Resting)"
    by (rule pubp.carries_call) (fastforce simp: onDB_run dest: pub_step.claim[OF assms _ refl] split: res.splits)
qed

lemma fail_steps:
  assumes "uuid_in env = uin"
  shows "pubp.carries uin (Failing rec e rs) (fail env cfg brk rec e) (\<lambda>_. Batch rs) (\<lambda>_. Batch rs)"
proof -
  have jit: "pubp.carries uin (Failing rec e rs) (onDB (jitter env)) (\<lambda>_. Failing rec e rs) (\<lambda>_. Batch rs)"
    by (rule pubp.carriesI) (auto simp: onDB_run jitter_def)
  show ?thesis unfolding fail_def Let_def
  proof (rule pubp.carries_andThen[OF jit pubp.carries_try[OF pub_calls(3)[OF assms]]])
    show "pubp.carries uin (case x of (k, dead) \<Rightarrow> if dead then Dying rec e rs else Batch rs)
      (case x of (attempts, dead) \<Rightarrow> if dead then publishToDLQ env cfg brk rec e else ret ())
      (\<lambda>_. Batch rs) (\<lambda>_. Batch rs)" for x
      by (auto intro: pub_calls(4)[OF assms] pubp.carries_ret split: prod.splits)
  qed (auto intro: pubp.carries_ret)
qed

lemma publishOne_steps:
  assumes "uuid_in env = uin"
  shows "pubp.carries uin (Batch (rec # rs)) (publishOne env cfg brk ctx rec) (\<lambda>_. Batch rs) (\<lambda>_. Batch rs)"
proof -
  note quiet = pubp.carries_onDB_quiet[OF quiet_calls(1)]
  have failed: "pubp.carries uin (Failing rec e rs) (andThen (fail env cfg brk rec e) (\<lambda>_. ret False)) (\<lambda>_. Batch rs) (\<lambda>_. Batch rs)" for e
    by (rule pubp.carries_andThen[OF fail_steps[OF assms]]) (rule pubp.carries_end)
  have skip: "pubp.carries uin (Sent rec rs) (ret b) (\<lambda>_. Batch rs) (\<lambda>_. Batch rs)" for b
    by (rule pubp.carries_move[OF pub_step.unmarked]) (rule pubp.carries_end)
  show ?thesis unfolding publishOne_def Let_def
    by (intro pubp.carries_try[OF quiet] pubp.carries_try[OF pub_calls(1)[OF assms]] pubp.carries_try[OF pub_calls(2)[OF assms]])
      (auto intro: failed skip pubp.carries_ret pubp.carries_move[OF pub_step.inject failed])
qed

lemma publishLoop_steps:
  assumes "uuid_in env = uin"
  shows "pubp.carries uin (Batch rs) (publishLoop env cfg brk ctx rs n) (\<lambda>_. Resting) (\<lambda>_. Resting)"
proof (induction rs arbitrary: n)
  case Nil
  show ?case unfolding publishLoop.simps by (rule pubp.carries_move[OF pub_step.stop]) (rule pubp.carries_end)
next
  case (Cons rec rs)
  have at_once: "pubp.carries uin (Batch (rec # rs)) (ret x) (\<lambda>_. Resting) (\<lambda>_. Resting)" for x :: "int \<times> goerr option"
    by (rule pubp.carries_move[OF pub_step.stop]) (rule pubp.carries_end)
  note loop = pubp.carries_andThen[OF pubp.carries_up[OF publishOne_steps[OF assms]] Cons.IH]
  show ?case unfolding publishLoop.simps
    by (rule pubp.carries_try[OF pubp.carries_onDB_quiet[OF quiet_calls(2)]]) (auto intro: at_once loop)
qed

lemma RunOnce_carries:
  assumes "uuid_in env = uin"
  shows "pubp.carries uin Resting (RunOnce env cfg brk ctx locked) (\<lambda>_. Resting) (\<lambda>_. Resting)"
proof -
  have "pubp.carries uin Resting (onDB (Backlog env)) (\<lambda>_. Resting) (\<lambda>_. Resting)"
    by (rule pubp.carries_onDB_quiet) (rule Backlog_db)
  from pubp.carries_andThen[OF pubp.carries_attempt[OF this] pubp.carries_try[OF pub_calls(5)[OF assms]
      publishLoop_steps[OF assms] pubp.carries_end]] show ?thesis unfolding RunOnce_def .
qed

lemma RunOnce_steps:
  assumes "uuid_in env = uin" and "RunOnce env cfg brk ctx locked (w, l) = (r, (w', l'))"
  shows "(pub_step uin)\<^sup>*\<^sup>* (Resting, db w, l) (Resting, db w', l')"
  by (rule pubp.carries_cycle[OF RunOnce_carries[OF assms(1)] assms(2)])

subsection \<open>The delivery worker\<close>

lemma post_Ret: "post cfg signer http dl s = (r, s') \<Longrightarrow> \<exists>code err. r = Ret (code, err)"
  by (auto simp: post_def Let_def split: reply.splits if_splits)

lemma del_calls:
  assumes "uuid_in env = uin"
  shows "delp.carries uin AtRest (onDB (ClaimDue env limit)) Due (\<lambda>_. AtRest)"
    and "delp.carries uin (Due (dl # dls)) (post cfg signer http dl)
      (\<lambda>(code, err). case err of None \<Rightarrow> Answered dl code dls | Some e \<Rightarrow> Refused dl (err_text env e) code dls) (\<lambda>_. Due dls)"
    and "delp.carries uin (Answered dl code dls) (onDB (MarkDelivered env (dl_ID dl) code)) (\<lambda>_. Due dls) (\<lambda>_. Due dls)"
    and "delp.carries uin (Refused dl cause code dls) (onDB (MarkUndelivered env (dl_ID dl) cause code
        (Backoff (dl_Attempts dl + 1) (WebhookBaseBackoff cfg) (WebhookMaxBackoff cfg) u) (WebhookMaxAttempts cfg)))
      (\<lambda>_. Due dls) (\<lambda>_. Due dls)"
proof -
  show "delp.carries uin AtRest (onDB (ClaimDue env limit)) Due (\<lambda>_. AtRest)"
    by (rule delp.carries_call) (fastforce simp: onDB_run dest: del_step.due[OF _ refl] split: res.splits)
  show "delp.carries uin (Due (dl # dls)) (post cfg signer http dl)
      (\<lambda>(code, err). case err of None \<Rightarrow> Answered dl code dls | Some e \<Rightarrow> Refused dl (err_text env e) code dls) (\<lambda>_. Due dls)"
  proof (rule delp.carries_call)
    fix w x r w' x' assume run: "post cfg signer http dl (w, x) = (r, (w', x'))"
    then obtain code err where r: "r = Ret (code, err)" using post_Ret by blast
    from del_step.send[OF run[unfolded r] refl, of uin dls env] show "\<exists>q. del_step uin (Due (dl # dls), db w, x) (q, db w', x') \<and>
        (case r of Ret y \<Rightarrow> q = (case y of (code, err) \<Rightarrow> case err of None \<Rightarrow> Answered dl code dls
            | Some e \<Rightarrow> Refused dl (err_text env e) code dls) | Err e \<Rightarrow> q = Due dls | Panic p \<Rightarrow> True)"
      by (auto simp: r)
  qed
  show "delp.carries uin (Answered dl code dls) (onDB (MarkDelivered env (dl_ID dl) code)) (\<lambda>_. Due dls) (\<lambda>_. Due dls)"
    by (rule delp.carries_call) (fastforce simp: onDB_run dest: del_step.delivered[OF assms _ refl] split: res.splits)
  show "delp.carries uin (Refused dl cause code dls) (onDB (MarkUndelivered env (dl_ID dl) cause code
        (Backoff (dl_Attempts dl + 1) (WebhookBaseBackoff cfg) (WebhookMaxBackoff cfg) u) (WebhookMaxAttempts cfg)))
      (\<lambda>_. Due dls) (\<lambda>_. Due dls)"
    by (rule delp.carries_call) (fastforce simp: onDB_run dest: del_step.undelivered[OF assms _ refl] split: res.splits)
qed

lemma recordFailure_steps:
  assumes "uuid_in env = uin"
  shows "delp.carries uin (Refused dl cause code dls) (recordFailure env cfg dl cause code) (\<lambda>_. Due dls) (\<lambda>_. Due dls)"
proof -
  have jit: "delp.carries uin (Refused dl cause code dls) (onDB (jitter env)) (\<lambda>_. Refused dl cause code dls) (\<lambda>_. Due dls)"
    by (rule delp.carriesI) (auto simp: onDB_run jitter_def)
  show ?thesis unfolding recordFailure_def Let_def
    by (rule delp.carries_andThen[OF jit delp.carries_andThen[OF delp.carries_attempt[OF del_calls(4)[OF assms]] delp.carries_end]])
qed

lemma deliver_steps:
  assumes "uuid_in env = uin"
  shows "delp.carries uin (Due (dl # dls)) (deliver env cfg signer http ctx dl) (\<lambda>_. Due dls) (\<lambda>_. Due dls)"
proof -
  note quiet = delp.carries_onDB_quiet[OF quiet_calls(1)]
  have failed: "delp.carries uin (Refused dl c code dls) (andThen (recordFailure env cfg dl c code) (\<lambda>_. ret False)) (\<lambda>_. Due dls) (\<lambda>_. Due dls)" for c code
    by (rule delp.carries_andThen[OF recordFailure_steps[OF assms]]) (rule delp.carries_end)
  note mark = delp.carries_try[OF del_calls(3)[OF assms] delp.carries_end delp.carries_end]
  show ?thesis unfolding deliver_def Let_def
    by (intro delp.carries_try[OF quiet] delp.carries_andThen[OF del_calls(2)[OF assms]])
      (auto intro: failed mark delp.carries_move[OF del_step.refuse failed] split: prod.splits option.splits)
qed

lemma deliverLoop_steps:
  assumes "uuid_in env = uin"
  shows "delp.carries uin (Due dls) (deliverLoop env cfg signer http ctx dls n) (\<lambda>_. AtRest) (\<lambda>_. AtRest)"
proof (induction dls arbitrary: n)
  case Nil
  show ?case unfolding deliverLoop.simps by (rule delp.carries_move[OF del_step.rest]) (rule delp.carries_end)
next
  case (Cons dl dls)
  have at_once: "delp.carries uin (Due (dl # dls)) (ret x) (\<lambda>_. AtRest) (\<lambda>_. AtRest)" for x :: "int \<times> goerr option"
    by (rule delp.carries_move[OF del_step.rest]) (rule delp.carries_end)
  note loop = delp.carries_andThen[OF delp.carries_up[OF deliver_steps[OF assms]] Cons.IH]
  show ?case unfolding deliverLoop.simps
    by (rule delp.carries_try[OF delp.carries_onDB_quiet[OF quiet_calls(2)]]) (auto intro: at_once loop)
qed

lemma DeliverOnce_carries:
  assumes "uuid_in env = uin"
  shows "delp.carries uin AtRest (DeliverOnce env cfg signer http ctx) (\<lambda>_. AtRest) (\<lambda>_. AtRest)"
  using delp.carries_try[OF del_calls(1)[OF assms] deliverLoop_steps[OF assms] delp.carries_end] unfolding DeliverOnce_def .

lemma DeliverOnce_steps:
  assumes "uuid_in env = uin" and "DeliverOnce env cfg signer http ctx (w, ps) = (r, (w', ps'))"
  shows "(del_step uin)\<^sup>*\<^sup>* (AtRest, db w, ps) (AtRest, db w', ps')"
  by (rule delp.carries_cycle[OF DeliverOnce_carries[OF assms(1)] assms(2)])

subsection \<open>The intake\<close>

lemma enqueueLoop_steps:
  assumes "uuid_ok env" and "uuid_in env = uin"
  shows "intp.carries uin (Storing e payload eps) (onDB (enqueueLoop env e payload eps)) (\<lambda>_. NoMessage) (\<lambda>_. NoMessage)"
proof (induction eps)
  case Nil
  show ?case unfolding enqueueLoop.simps onDB_ret by (rule intp.carries_move[OF intake_step.leave]) (rule intp.carries_end)
next
  case (Cons ep eps)
  have uuid: "intp.carries uin (Storing e payload (ep # eps)) (onDB (newUUID env)) (\<lambda>_. Storing e payload (ep # eps)) (\<lambda>_. NoMessage)"
    by (rule intp.carriesI) (auto simp: onDB_run newUUID_def)
  have enq: "intp.carries uin (Storing e payload (ep # eps)) (onDB (Enqueue env
      \<lparr>dl_ID = i, dl_EventID = ev_EventID e, dl_Endpoint = ep, dl_EventType = ev_EventType e,
       dl_TransactionID = ev_TransactionID e, dl_Payload = payload, dl_Status = [], dl_Attempts = 0, dl_LastError = [],
       dl_LastStatusCode = 0, dl_NextAttemptAt = 0, dl_DeliveredAt = None, dl_CreatedAt = 0\<rparr>))
      (\<lambda>_. Storing e payload eps) (\<lambda>_. NoMessage)" for i
    by (rule intp.carries_call) (fastforce simp: onDB_run dest: intake_step.store[OF assms _ refl] split: res.splits)
  show ?case unfolding enqueueLoop.simps onDB_andThen
    by (rule intp.carries_andThen[OF uuid intp.carries_andThen[OF enq Cons.IH]])
qed

lemma HandleEvent_steps:
  assumes "uuid_ok env" and "uuid_in env = uin" and "msg \<in> set l" and run: "HandleEvent env cfg ctx msg w = (r, w')"
  shows "(intake_step uin)\<^sup>*\<^sup>* (NoMessage, db w, l) (NoMessage, db w', l)"
proof (cases "unmarshalEnvelope (m_Value msg)")
  case None
  then show ?thesis using run by (auto simp: HandleEvent_def ret_def)
next
  case (Some e)
  show ?thesis
  proof (cases "ev_EventID e = []")
    case True
    then show ?thesis using run Some by (auto simp: HandleEvent_def ret_def)
  next
    case False
    from HandleEvent_run[OF Some False run] show ?thesis
    proof (elim disjE conjE exE)
      fix w0 assume w0: "db w0 = db w" "enqueueLoop env e (m_Value msg) (WebhookEndpoints cfg) w0 = (r, w')"
      have "onDB (enqueueLoop env e (m_Value msg) (WebhookEndpoints cfg)) (w0, l) = (r, (w', l))" using w0(2) by (simp add: onDB_run)
      note loop = intp.carries_cycle[OF enqueueLoop_steps[OF assms(1,2)] this]
      have "intake_step uin (NoMessage, db w, l) (Storing e (m_Value msg) (WebhookEndpoints cfg), db w0, l)"
        using intake_step.take[OF assms(3) Some False] w0(1) by metis
      from converse_rtranclp_into_rtranclp[OF this loop] show ?thesis .
    qed auto
  qed
qed

subsection \<open>A request that changes the ledger\<close>

text \<open>Calls that leave the database alone and at most lose keys of Redis.\<close>

definition forgets :: "world \<times> outside \<Rightarrow> world \<times> outside \<Rightarrow> bool" where
  "forgets s s' \<longleftrightarrow> db (fst s') = db (fst s) \<and> redis_sub (redis_db (snd s')) (redis_db (snd s))"

interpretation fgt: step_rel forgets
  by unfold_locales (auto simp: forgets_def redis_sub_def)

lemmas fgt_basic = fgt.stays_ret fgt.stays_throw fgt.stays_mapErr fgt.stays_andThen

lemma fgt_write: "stays forgets (setHeader k v)" "stays forgets (writeHeader st)" "stays forgets (writeDoc j)"
    "stays forgets (recordCode c)"
  by (auto simp: stays_def forgets_def redis_sub_def setHeader_def writeHeader_def writeDoc_def recordCode_def)

lemma fgt_answer: "stays forgets (writeRaw st b)" "stays forgets (writeError r e)"
  unfolding writeRaw_def writeError_def writeJSON_def Let_def
  by (auto intro!: fgt_basic fgt_write split: option.splits)

lemma fgt_Get: "stays forgets (Get cache scope key)"
proof -
  have "stays forgets (redisGet rc k)" for rc k
    unfolding stays_def
  proof
    fix s
    obtain r s' where e: "redisGet rc k s = (r, s')" by (meson surj_pair)
    from redisDo_frame[OF e[unfolded redisGet_def]] redisGet_sub[OF e]
    show "forgets s (snd (redisGet rc k s))" by (auto simp: forgets_def e)
  qed
  then have "stays forgets (andThen (redisGet rc k) (\<lambda>r. case r of Inl e \<Rightarrow> ret None | Inr None \<Rightarrow> ret None
      | Inr (Some raw) \<Rightarrow> ret (unmarshalCached raw)))" for rc k
    by (auto intro!: fgt_basic split: sum.splits option.splits)
  then show ?thesis unfolding stays_def Get_def by (auto simp: fgt.R_refl split: option.splits)
qed

lemma fgt_replayFromCache: "stays forgets (replayFromCache srv r scope key h)"
  unfolding replayFromCache_def by (auto intro!: fgt_basic fgt_Get fgt_answer fgt_write split: option.splits)

lemma forgets_carries:
  assumes "stays forgets m"
  shows "apip.carries uin pc m (\<lambda>_. pc) (\<lambda>_. pc)"
proof (rule apip.carries_call)
  fix w x r w' x' assume "m (w, x) = (r, (w', x'))"
  from staysD[OF assms this] have "api_step uin (pc, db w, redis_db x) (pc, db w', redis_db x')"
    by (auto simp: forgets_def intro: api_step.lose)
  then show "\<exists>q. api_step uin (pc, db w, redis_db x) (q, db w', redis_db x') \<and>
      (case r of Ret y \<Rightarrow> q = pc | Err e \<Rightarrow> q = pc | Panic p \<Rightarrow> True)" by (auto split: res.splits)
qed

lemma reject_carries: "apip.carries uin Free (writeError r e) (\<lambda>_. Free) (\<lambda>_. Free)"
  by (rule forgets_carries[OF fgt_answer(2)])

lemma orError_carries:
  assumes "\<And>y. x = Inr y \<Longrightarrow> apip.carries uin Free (k y) (\<lambda>_. Free) (\<lambda>_. Free)"
  shows "apip.carries uin Free (orError r (lift x) k) (\<lambda>_. Free) (\<lambda>_. Free)"
proof (cases x)
  case (Inl e)
  have "orError r (lift x) k = writeError r e"
    by (rule ext) (simp add: Inl orError_def lift_def attempt_def andThen_def ret_def throw_def)
  then show ?thesis using reject_carries by simp
next
  case (Inr y)
  with assms show ?thesis by (simp add: orError_lift)
qed

lemma mutate_carries:
  assumes "\<And>h. apip.carries uin Free (onDB (run h)) (Unanswered scope key h) (\<lambda>_. Free)"
  shows "apip.carries uin Free (mutate srv r scope key payload run) (\<lambda>_. Free) (\<lambda>_. Free)"
proof -
  have finish: "apip.carries uin (Unanswered scope key h x) (finishIdempotent srv scope key h x) (\<lambda>_. Free) (\<lambda>_. Free)" for h x
    by (rule apip.carries_call) (fastforce dest: api_step.answer[OF _ refl refl] split: res.splits)
  have served: "apip.carries uin Free (if replayed then ret () else orError r (onDB (run h)) (finishIdempotent srv scope key h)) (\<lambda>_. Free) (\<lambda>_. Free)" for replayed h
    unfolding orError_def using apip.carries_try[OF assms finish reject_carries] by (simp add: apip.carries_end)
  show ?thesis unfolding mutate_def
    by (rule orError_carries, rule apip.carries_andThen[OF forgets_carries[OF fgt_replayFromCache]]) (rule served)
qed

lemma ledger_calls:
  assumes "uuid_ok env" and "uuid_in env = uin"
  shows "ca_IdempotencyScope ca = scopeCreateAccount \<Longrightarrow> ca_IdempotencyKey ca = k \<Longrightarrow> ca_RequestHash ca = h \<Longrightarrow>
      apip.carries uin Free (onDB (CreateAccount env cfg ca)) (Unanswered scopeCreateAccount k h) (\<lambda>_. Free)"
    and "tc_IdempotencyScope tc = scopeTransfer \<Longrightarrow> tc_IdempotencyKey tc = k \<Longrightarrow> tc_RequestHash tc = h \<Longrightarrow> in64 (tc_Amount tc) \<Longrightarrow>
      apip.carries uin Free (onDB (Transfer env cfg ctx tc)) (Unanswered scopeTransfer k h) (\<lambda>_. Free)"
    and "rc_IdempotencyScope rc = scopeReverse \<Longrightarrow> rc_IdempotencyKey rc = k \<Longrightarrow> rc_RequestHash rc = h \<Longrightarrow>
      apip.carries uin Free (onDB (Reverse env cfg ctx rc)) (Unanswered scopeReverse k h) (\<lambda>_. Free)"
  by (rule apip.carries_call; fastforce simp: onDB_run split: res.splits
      dest: api_step.create[OF assms _ refl] api_step.transfer[OF assms _ _ refl] api_step.reverse[OF assms _ refl])+

lemma mutation_steps:
  assumes "uuid_ok (s_db srv)" and uin: "uuid_in (s_db srv) = uin"
    and "h \<in> {handleCreateAccount srv, handleTransfer srv, handleReverse srv}" and run: "h r (w, out) = (x, (w', out'))"
  shows "(api_step uin)\<^sup>*\<^sup>* (Free, db w, redis_db out) (Free, db w', redis_db out')"
proof -
  note calls = ledger_calls[OF assms(1) uin]
  have "apip.carries uin Free (handleCreateAccount srv r) (\<lambda>_. Free) (\<lambda>_. Free)"
    unfolding handleCreateAccount_def Let_def
    by (intro orError_carries mutate_carries calls(1)) simp_all
  moreover have "apip.carries uin Free (handleReverse srv r) (\<lambda>_. Free) (\<lambda>_. Free)"
    unfolding handleReverse_def Let_def
    by (intro orError_carries mutate_carries calls(3)) simp_all
  moreover have "apip.carries uin Free (handleTransfer srv r) (\<lambda>_. Free) (\<lambda>_. Free)"
    unfolding handleTransfer_def Let_def
  proof (intro orError_carries mutate_carries)
    fix key vals hash assume "decodeJSON srv transferFields r = Inr vals"
    then have "in64 (tr_Amount (decodeTransfer vals))"
      using int_field_in64 by (fastforce simp: decodeJSON_def decodeTransfer_def split: body.splits sum.splits)
    then show "apip.carries uin Free (onDB (Transfer (s_db srv) (s_cfg srv) (hr_Context r) (transferCommand (decodeTransfer vals) key hash)))
        (Unanswered scopeTransfer key hash) (\<lambda>_. Free)"
      by (intro calls(2)) (simp_all add: transferCommand_def)
  qed
  ultimately have "apip.carries uin Free (h r) (\<lambda>_. Free) (\<lambda>_. Free)" using assms(3) by blast
  from apip.carries_cycle[OF this run] show ?thesis .
qed

subsection \<open>The states between whole cycles\<close>

lemma fleet_run:
  assumes "fleet_reachable uin c" and "(fleet_step uin)\<^sup>*\<^sup>* c c'"
  shows "fleet_reachable uin c'"
  using assms(2,1) by (induction rule: rtranclp_induct) (auto intro: fleet_reachable.step)

text \<open>A process that takes steps while the others wait: it reads and writes its part of the whole.\<close>

locale part =
  fixes step :: "'p \<Rightarrow> 'p \<Rightarrow> bool" and whole :: "'c \<Rightarrow> 'c \<Rightarrow> bool" and get :: "'c \<Rightarrow> 'p" and put :: "'p \<Rightarrow> 'c \<Rightarrow> 'c"
  assumes get_put: "get (put x c) = x" and put_put: "put y (put x c) = put y c" and put_get: "put (get c) c = c"
    and step_whole: "step (get c) x \<Longrightarrow> whole c (put x c)"
begin

lemma run_whole: "step\<^sup>*\<^sup>* (get c) x \<Longrightarrow> whole\<^sup>*\<^sup>* c (put x c)"
proof (induction rule: rtranclp_induct)
  case base
  then show ?case by (simp add: put_get)
next
  case (step x y)
  then have "whole (put x c) (put y c)" using step_whole[of "put x c" y] by (simp add: get_put put_put)
  with step.IH show ?case by (rule rtranclp.rtrancl_into_rtrancl)
qed

end

interpretation pub_part: part "pub_step uin" "fleet_step uin" "\<lambda>c. (fl_pub c i, sy_db (fl_sys c), sy_log (fl_sys c))"
  "\<lambda>(pc, d, l) c. c\<lparr>fl_sys := (fl_sys c)\<lparr>sy_db := d, sy_log := l\<rparr>, fl_pub := (fl_pub c)(i := pc)\<rparr>" for uin i
  by unfold_locales (auto intro: fleet_step.publisher)

interpretation in_part: part "intake_step uin" "fleet_step uin" "\<lambda>c. (fl_in c i, sy_db (fl_sys c), sy_log (fl_sys c))"
  "\<lambda>(pc, d, l) c. c\<lparr>fl_sys := (fl_sys c)\<lparr>sy_db := d, sy_log := l\<rparr>, fl_in := (fl_in c)(i := pc)\<rparr>" for uin i
  by unfold_locales (auto intro: fleet_step.consumer)

interpretation del_part: part "del_step uin" "fleet_step uin" "\<lambda>c. (fl_del c i, sy_db (fl_sys c), sy_posts (fl_sys c))"
  "\<lambda>(pc, d, ps) c. c\<lparr>fl_sys := (fl_sys c)\<lparr>sy_db := d, sy_posts := ps\<rparr>, fl_del := (fl_del c)(i := pc)\<rparr>" for uin i
  by unfold_locales (auto intro: fleet_step.courier)

interpretation api_part: part "api_step uin" "fleet_step uin" "\<lambda>c. (fl_api c i, sy_db (fl_sys c), sy_redis (fl_sys c))"
  "\<lambda>(pc, d, m) c. c\<lparr>fl_sys := (fl_sys c)\<lparr>sy_db := d, sy_redis := m\<rparr>, fl_api := (fl_api c)(i := pc)\<rparr>" for uin i
  by unfold_locales (auto intro: fleet_step.api)

text \<open>All processes idle.\<close>

definition idle :: "system \<Rightarrow> fleet" where
  "idle y = \<lparr>fl_sys = y, fl_pub = (\<lambda>_. Resting), fl_in = (\<lambda>_. NoMessage), fl_del = (\<lambda>_. AtRest), fl_api = (\<lambda>_. Free)\<rparr>"

lemma idle_step:
  assumes "system_step uin y y'"
  shows "(fleet_step uin)\<^sup>*\<^sup>* (idle y) (idle y')"
  using assms
proof cases
  case (request srv verb path r w out x w' out')
  from fleet_step.whole[OF request(2-4), of "idle y"] request show ?thesis by (auto simp: idle_def)
next
  case (forget m)
  from api_step.lose[OF forget(2), of uin Free "sy_db y"] api_part.run_whole[where i = 0 and uin = uin and c = "idle y" and x = "(Free, sy_db y, m)"] forget
  show ?thesis by (simp add: idle_def r_into_rtranclp fun_upd_idem)
next
  case (publish env cfg brk ctx locked w n w' l)
  from RunOnce_steps[OF publish(2,3)] pub_part.run_whole[where i = 0 and uin = uin and c = "idle y" and x = "(Resting, db w', l)"] publish
  show ?thesis by (simp add: idle_def fun_upd_idem)
next
  case (intake env msg cfg ctx w u w')
  from HandleEvent_steps[OF intake(2-5)] in_part.run_whole[where i = 0 and uin = uin and c = "idle y" and x = "(NoMessage, db w', sy_log y)"] intake
  show ?thesis by (simp add: idle_def fun_upd_idem)
next
  case (delivery env cfg signer http ctx w k w' ps)
  from DeliverOnce_steps[OF delivery(2,3)] del_part.run_whole[where i = 0 and uin = uin and c = "idle y" and x = "(AtRest, db w', ps)"] delivery
  show ?thesis by (simp add: idle_def fun_upd_idem)
qed

lemma idle_reachable: "system_reachable uin y \<Longrightarrow> fleet_reachable uin (idle y)"
proof (induction rule: system_reachable.induct)
  case start
  then show ?case using fleet_reachable.start by (simp add: idle_def fleet_start_def)
next
  case (step y y')
  from fleet_run[OF step.IH idle_step[OF step(2)]] show ?case .
qed

end
