(* ===== verification/Mains.thy ===== *)
theory Mains
  imports Process Workers Step_Runs
begin

text \<open>
  The mains of the long-running processes: \<open>cmd/api\<close>, \<open>cmd/outbox-worker\<close> and \<open>cmd/webhook-worker\<close>. Each
  builds its dependencies; the API then serves its handler, a worker makes sure of the topics and
  runs its loops until it is told to stop. What Build needs is gathered in a record; the writer the
  Kafka client makes of a configuration is a function of it. Listening and shutting down are I/O.
\<close>

record 'k host =
  ho_lib :: "collector list"
  ho_driver :: driver
  ho_redis :: "Config \<Rightarrow> redis_client"
  ho_getenv :: environ
  ho_hostname :: "string option"
  ho_pid :: int
  ho_kafka :: "'k cluster"
  ho_broker :: "Producer \<Rightarrow> broker"

definition BuildOn :: "'k host \<Rightarrow> env \<Rightarrow> string \<Rightarrow> Deps acomp" where
  "BuildOn ho env serviceName =
     Build (ho_lib ho) env (ho_driver ho) (ho_redis ho) (ho_getenv ho) (ho_hostname ho) (ho_pid ho) serviceName"

text \<open>\<open>if err != nil { panic(err) }\<close>\<close>

definition orPanic :: "env \<Rightarrow> 'a acomp \<Rightarrow> 'a acomp" where
  "orPanic env m = andThen (attempt m) (\<lambda>r. case r of Inl e \<Rightarrow> (\<lambda>s. (Panic (err_text env e), s)) | Inr x \<Rightarrow> ret x)"

text \<open>A call on the cluster whose error is only logged.\<close>

definition bestEffort :: "('k \<Rightarrow> goerr option \<times> 'k) \<Rightarrow> 'k \<Rightarrow> 'k" where
  "bestEffort call k = snd (call k)"

subsection \<open>cmd/api\<close>

record http_server =
  hs_Addr :: string
  hs_Handler :: "string \<Rightarrow> string list \<Rightarrow> handler"
  hs_ReadHeaderTimeout :: time
  hs_ReadTimeout :: time
  hs_WriteTimeout :: time
  hs_IdleTimeout :: time

text \<open>The server that listens.\<close>

definition apiMain :: "'k host \<Rightarrow> env \<Rightarrow> golib \<Rightarrow> http_server acomp" where
  "apiMain ho env lib =
     andThen (orPanic env (BuildOn ho env ''ledger-api'')) (\<lambda>deps.
       let producer = ho_broker ho (NewProducer (dp_Config deps));
           server = NewServer lib (apiOptions env producer deps)
       in ret \<lparr>hs_Addr = HTTPAddr (dp_Config deps), hs_Handler = Handler server, hs_ReadHeaderTimeout = 10 * 10 ^ 9,
            hs_ReadTimeout = 30 * 10 ^ 9, hs_WriteTimeout = 30 * 10 ^ 9, hs_IdleTimeout = 60 * 10 ^ 9\<rparr>)"

subsection \<open>cmd/outbox-worker\<close>

text \<open>
  The result tells whether \<open>Run\<close> has returned within the fuel; it returns no error, so the command
  never ends with exit status 1.
\<close>

definition outboxWorkerMain ::
  "nat \<Rightarrow> 'k host \<Rightarrow> env \<Rightarrow> (nat \<Rightarrow> string \<Rightarrow> bool) \<Rightarrow> (nat \<Rightarrow> bool) \<Rightarrow> 'k \<Rightarrow> world \<times> outside \<Rightarrow> (bool result \<times> (world \<times> outside)) \<times> 'k" where
  "outboxWorkerMain fuel ho env locked timer k s =
     (case orPanic env (BuildOn ho env ''outbox-worker'') s of
        (Ret deps, s1) \<Rightarrow>
          (let cfg = dp_Config deps;
               k1 = bestEffort (EnsureTopics (ho_kafka ho) (KafkaBrokers cfg) 3 (AllTopics cfg)) k
           in (onKafka (publisherRun fuel env cfg (ho_broker ho (NewProducer cfg)) Background locked timer) s1, k1))
      | (Err e, s1) \<Rightarrow> ((Err e, s1), k)
      | (Panic p, s1) \<Rightarrow> ((Panic p, s1), k))"

subsection \<open>cmd/webhook-worker\<close>

definition workerTopics :: "Config \<Rightarrow> string list" where
  "workerTopics cfg = [TopicPaymentsCreated cfg, TopicPaymentsReversed cfg, TopicPaymentsFailed cfg]"

text \<open>The HMAC-SHA256 of the payload under the secret is an argument.\<close>

definition sign :: "(string \<Rightarrow> json \<Rightarrow> string) \<Rightarrow> string \<Rightarrow> json \<Rightarrow> string" where
  "sign hmac secret payload = ''sha256='' @ hex (hmac secret payload)"

text \<open>
  The command starts two loops side by side, one that consumes and one that delivers; they share the
  database only and run in the steps of \<open>Interleaving\<close>.
\<close>

record worker_loops =
  wl_consumer :: Consumer
  wl_handle :: "Message \<Rightarrow> unit comp"
  wl_deliver :: "nat \<Rightarrow> (nat \<Rightarrow> bool) \<Rightarrow> bool wcomp"

definition webhookWorkerMain ::
  "'k host \<Rightarrow> env \<Rightarrow> (string \<Rightarrow> json \<Rightarrow> string) \<Rightarrow> (nat \<Rightarrow> reply) \<Rightarrow> 'k \<Rightarrow> world \<times> outside \<Rightarrow> (worker_loops result \<times> (world \<times> outside)) \<times> 'k" where
  "webhookWorkerMain ho env hmac http k s =
     (case orPanic env (BuildOn ho env ''webhook-worker'') s of
        (Ret deps, s1) \<Rightarrow>
          (let cfg = dp_Config deps;
               k1 = bestEffort (EnsureTopics (ho_kafka ho) (KafkaBrokers cfg) 3 (AllTopics cfg)) k
           in ((Ret \<lparr>wl_consumer = NewConsumer cfg (WebhookConsumerGroup cfg) (workerTopics cfg),
                     wl_handle = HandleEvent env cfg Background,
                     wl_deliver = (\<lambda>fuel timer. RunDeliveries fuel env cfg (sign hmac) http Background timer)\<rparr>, s1), k1))
      | (Err e, s1) \<Rightarrow> ((Err e, s1), k)
      | (Panic p, s1) \<Rightarrow> ((Panic p, s1), k))"

text \<open>The address of the metrics server, and its liveness answer.\<close>

definition metricsAddr :: "environ \<Rightarrow> string \<Rightarrow> string" where
  "metricsAddr getenv dflt = (if getenv ''LEDGER_METRICS_ADDR'' \<noteq> [] then getenv ''LEDGER_METRICS_ADDR'' else dflt)"

definition outboxMetricsAddr :: "environ \<Rightarrow> string" where
  "outboxMetricsAddr getenv = metricsAddr getenv '':8081''"

definition webhookMetricsAddr :: "environ \<Rightarrow> string" where
  "webhookMetricsAddr getenv = metricsAddr getenv '':8082''"

subsection \<open>The loops run in steps\<close>

lemma selectDone_db: "selectDone env timer w = (r, w') \<Longrightarrow> db w' = db w"
  by (auto simp: selectDone_def)

lemma publisherLoop_carries:
  assumes "uuid_in env = uin"
  shows "pubp.carries uin Resting (publisherLoop n env cfg brk ctx locked timer) (\<lambda>_. Resting) (\<lambda>_. Resting)"
proof (induction n)
  case 0
  show ?case unfolding publisherLoop.simps by (rule pubp.carries_end)
next
  case (Suc n)
  have "pubp.carries uin Resting (andThen (onDB (selectDone env timer)) (\<lambda>stop.
      if stop then ret True else publisherLoop n env cfg brk ctx locked timer)) (\<lambda>_. Resting) (\<lambda>_. Resting)"
    by (rule pubp.carries_andThen[OF pubp.carries_onDB_quiet[OF selectDone_db]]) (simp_all add: pubp.carries_end Suc)
  then show ?case unfolding publisherLoop.simps
    by (intro pubp.carries_andThen[OF RunOnce_carries[OF assms]]) (auto intro: Suc split: prod.splits)
qed

lemma RunDeliveries_steps:
  assumes "uuid_in env = uin" and "RunDeliveries n env cfg signer http ctx timer (w, ps) = (r, (w', ps'))"
  shows "(del_step uin)\<^sup>*\<^sup>* (AtRest, db w, ps) (AtRest, db w', ps')"
proof -
  have "delp.carries uin AtRest (deliveriesLoop n env cfg signer http ctx timer) (\<lambda>_. AtRest) (\<lambda>_. AtRest)"
  proof (induction n)
    case (Suc n)
    have "delp.carries uin AtRest (andThen (onDB (selectDone env timer)) (\<lambda>stop.
        if stop then ret True else deliveriesLoop n env cfg signer http ctx timer)) (\<lambda>_. AtRest) (\<lambda>_. AtRest)"
      by (rule delp.carries_andThen[OF delp.carries_onDB_quiet[OF selectDone_db]]) (simp_all add: delp.carries_end Suc)
    then show ?case unfolding deliveriesLoop.simps
      by (intro delp.carries_andThen[OF DeliverOnce_carries[OF assms(1)]]) (auto split: prod.splits)
  qed (unfold deliveriesLoop.simps, rule delp.carries_end)
  from delp.carries_cycle[OF this] assms(2) show ?thesis by (auto simp: RunDeliveries_def split: if_splits)
qed

text \<open>Building the dependencies touches neither the database nor the log.\<close>

definition aside :: "world \<times> outside \<Rightarrow> world \<times> outside \<Rightarrow> bool" where
  "aside s s' \<longleftrightarrow> db (fst s') = db (fst s) \<and> kafka_log (snd s') = kafka_log (snd s)"

interpretation asd: step_rel aside
  by unfold_locales (simp_all add: aside_def)

lemmas asd_basic = asd.stays_ret asd.stays_throw asd.stays_mapErr asd.stays_andThen stays_attempt

lemma asd_onDB:
  assumes "\<And>w r w'. m w = (r, w') \<Longrightarrow> db w' = db w"
  shows "stays aside (onDB m)"
  using assms by (force simp: stays_def aside_def onDB_def split: prod.splits)

lemma PingDB_db: "PingDB env w = (r, w') \<Longrightarrow> db w' = db w"
  unfolding PingDB_def by (drule pool_sql_effect) auto

lemma Open_db:
  assumes "Open env dr cfg w = (r, w')"
  shows "db w' = db w"
proof -
  obtain q w1 where q: "PingDB env w = (q, w1)" by (meson surj_pair)
  have "w' = w \<or> w' = w1" using assms
    by (cases q) (auto simp: Open_def q throw_def andThen_def mapErr_def ret_def split: sum.splits option.splits)
  with PingDB_db[OF q] show ?thesis by auto
qed

lemma asd_redisPing: "stays aside (redisPing rc)"
proof -
  have "aside s (snd (redisPing rc s))" for s
  proof -
    obtain r s' where e: "redisPing rc s = (r, s')" by (meson surj_pair)
    from redisDo_frame[OF e[unfolded redisPing_def]] show ?thesis by (simp add: aside_def e)
  qed
  then show ?thesis unfolding stays_def by blast
qed

lemma asd_Build: "stays aside (Build lib env dr redisOf getenv hostname pid serviceName)"
proof -
  have m: "stays aside (\<lambda>s. (x, s))" "stays aside (\<lambda>s. (y, ((fst s)\<lparr>fps := reg\<rparr>, snd s)))" for x :: "'x result" and y :: "unit result" and reg
    by (simp_all add: stays_def aside_def)
  have o: "stays aside (onDB (mapErr g (Open env dr cfg)))" for g cfg
    unfolding onDB_mapErr by (intro asd_basic asd_onDB) (rule Open_db)
  show ?thesis unfolding Build_def
    by (auto intro!: asd_basic m o asd_redisPing split: sum.splits prod.splits option.splits)
qed

text \<open>The outbox worker, from its start to wherever it is, has taken steps of a publisher.\<close>

lemma outbox_worker_steps:
  assumes "uuid_in env = uin" and run: "outboxWorkerMain fuel ho env locked timer k (w, out) = ((r, (w', out')), k')"
  shows "(pub_step uin)\<^sup>*\<^sup>* (Resting, db w, kafka_log out) (Resting, db w', kafka_log out')"
proof -
  obtain x w1 out1 where b: "orPanic env (BuildOn ho env ''outbox-worker'') (w, out) = (x, (w1, out1))" by (metis prod.exhaust)
  have "stays aside (\<lambda>s. (Panic p :: Deps result, s))" for p by (simp add: stays_def aside_def)
  then have "stays aside (orPanic env (BuildOn ho env ''outbox-worker''))" unfolding orPanic_def BuildOn_def
    by (auto intro!: asd_basic asd_Build split: sum.splits)
  from staysD[OF this b] have same: "db w1 = db w" "kafka_log out1 = kafka_log out" by (simp_all add: aside_def)
  show ?thesis
  proof (cases x)
    case (Ret deps)
    let ?cfg = "dp_Config deps"
    obtain y l' where p: "publisherRun fuel env ?cfg (ho_broker ho (NewProducer ?cfg)) Background locked timer (w1, kafka_log out1) = (y, (w', l'))"
      and out': "kafka_log out' = l'"
      using run b Ret by (auto simp: outboxWorkerMain_def Let_def onKafka_def split: prod.splits)
    have "(pub_step uin)\<^sup>*\<^sup>* (Resting, db w1, kafka_log out1) (Resting, db w', l')"
    proof (cases "OutboxPollInterval ?cfg \<le> 0")
      case False
      with p pubp.carries_cycle[OF publisherLoop_carries[OF assms(1)]] show ?thesis unfolding publisherRun_def if_not_P[OF False] by blast
    qed (use p in \<open>simp add: publisherRun_def\<close>)
    with same out' show ?thesis by simp
  qed (use run b same in \<open>auto simp: outboxWorkerMain_def\<close>)
qed

text \<open>The API that listens serves the handler of a server on the same database, with a cache only when Redis is enabled.\<close>

lemma apiMain_server:
  assumes "apiMain ho env lib s = (Ret hs, s')"
  shows "\<exists>srv. hs_Handler hs = Handler srv \<and> s_db srv = env \<and> (RedisEnabled (s_cfg srv) \<longleftrightarrow> s_redis srv \<noteq> None)"
proof -
  obtain deps s1 where b: "orPanic env (BuildOn ho env ''ledger-api'') s = (Ret deps, s1)"
    and hs: "hs_Handler hs = Handler (NewServer lib (apiOptions env (ho_broker ho (NewProducer (dp_Config deps))) deps))"
    using assms by (auto simp: apiMain_def andThen_Ret Let_def ret_def)
  obtain w x w' x' where "s = (w, x)" "s1 = (w', x')" by (metis prod.exhaust)
  with b have "Build (ho_lib ho) env (ho_driver ho) (ho_redis ho) (ho_getenv ho) (ho_hostname ho) (ho_pid ho) ''ledger-api'' (w, x) = (Ret deps, (w', x'))"
    by (auto simp: orPanic_def BuildOn_def andThen_def attempt_def ret_def split: prod.splits res.splits)
  from Build_ready[OF this] hs show ?thesis by (auto simp: NewServer_def apiOptions_def)
qed

text \<open>Creating the topics is best effort: whatever the cluster answers, the worker does the same.\<close>

lemma topics_best_effort:
  "fst (outboxWorkerMain fuel (ho\<lparr>ho_kafka := kc\<rparr>) env locked timer k s) = fst (outboxWorkerMain fuel ho env locked timer k' s)"
  by (auto simp: outboxWorkerMain_def BuildOn_def Let_def split: prod.splits res.splits)

text \<open>Every event of the outbox is sent to a topic the webhook worker consumes.\<close>

lemma events_consumed:
  assumes "orPanic env (BuildOn ho env ''webhook-worker'') s = (Ret deps, s1)"
    and "webhookWorkerMain ho env hmac http k s = ((Ret loops, s'), k')"
  shows "TopicForEvent (dp_Config deps) ty \<in> set (rd_GroupTopics (cn_reader (wl_consumer loops)))"
  using assms by (auto simp: webhookWorkerMain_def Let_def NewConsumer_def workerTopics_def TopicForEvent_def)

end
